(* ===== verification/Tokens.thy ===== *)
theory Tokens
  imports Prelude
begin

text \<open>
  Structured tokens (\<open>src/token.rs\<close>) and the argon2 helpers (\<open>src/argon2_helper.rs\<close>).

  A credential has the wire form \<open><prefix>_<public_id>.<secret>\<close>. The generator takes its random
  bytes as arguments (\<open>getrandom\<close>) and the base64 encoder and decoder of the \<open>base64\<close> crate are
  parameters; \<open>b64_contract\<close> states what the code relies on of them. The argon2 crate is the
  record \<open>argon2_lib\<close> of the calls the helper makes.

  Shown: what \<open>parse\<close> accepts and which error it gives on every other input, the round trip of
  generated tokens, that a token determines its namespace, and the behaviour of \<open>verify\<close>.
\<close>

section \<open>Structured tokens\<close>

datatype token_namespace = NsAgent | NsOperator | NsBootstrap

fun ns_prefix :: "token_namespace \<Rightarrow> string" where
  "ns_prefix NsAgent = ''lk''"
| "ns_prefix NsOperator = ''lkop''"
| "ns_prefix NsBootstrap = ''lkbt''"

definition from_prefix :: "string \<Rightarrow> token_namespace option" where
  "from_prefix s =
     (if s = ''lk'' then Some NsAgent
      else if s = ''lkop'' then Some NsOperator
      else if s = ''lkbt'' then Some NsBootstrap
      else None)"

record structured_token =
  st_namespace :: token_namespace
  st_public_id :: string
  st_secret :: string

definition generate :: "(8 word list \<Rightarrow> string) \<Rightarrow> 8 word list \<Rightarrow> 8 word list \<Rightarrow> token_namespace \<Rightarrow>
    structured_token" where
  "generate enc id_bytes secret_bytes ns =
     \<lparr>st_namespace = ns, st_public_id = enc id_bytes, st_secret = enc secret_bytes\<rparr>"

definition wire_format :: "structured_token \<Rightarrow> string" where
  "wire_format t = ns_prefix (st_namespace t) @ ''_'' @ st_public_id t @ ''.'' @ st_secret t"

datatype parse_error = UnknownNamespace | MissingSeparator | InvalidLength | InvalidEncoding

definition PUBLIC_ID_LEN :: nat where "PUBLIC_ID_LEN = 22"

definition SECRET_LEN :: nat where "SECRET_LEN = 43"

definition parse :: "(string \<Rightarrow> bool) \<Rightarrow> string \<Rightarrow> parse_error + token_namespace \<times> string \<times> string" where
  "parse decodes input =
     (case split_once (CHR ''_'') input of
        None \<Rightarrow> Inl UnknownNamespace
      | Some (prefix_part, rest) \<Rightarrow>
          (case from_prefix prefix_part of
             None \<Rightarrow> Inl UnknownNamespace
           | Some ns \<Rightarrow>
               (case split_once (CHR ''.'') rest of
                  None \<Rightarrow> Inl MissingSeparator
                | Some (public_id, secret) \<Rightarrow>
                    if length public_id \<noteq> PUBLIC_ID_LEN \<or> length secret \<noteq> SECRET_LEN
                    then Inl InvalidLength
                    else if \<not> decodes public_id \<or> \<not> decodes secret
                    then Inl InvalidEncoding
                    else Inr (ns, public_id, secret))))"

definition b64_contract :: "(8 word list \<Rightarrow> string) \<Rightarrow> (string \<Rightarrow> bool) \<Rightarrow> bool" where
  "b64_contract enc decodes \<longleftrightarrow>
     (\<forall>bs. length (enc bs) = (4 * length bs + 2) div 3 \<and> CHR ''.'' \<notin> set (enc bs) \<and> decodes (enc bs))"

section \<open>argon2 helpers\<close>

datatype pw_outcome = PwOk | PwMismatch | PwError

record argon2_lib =
  lib_params :: "nat \<Rightarrow> nat \<Rightarrow> nat \<Rightarrow> nat option \<Rightarrow> bool"
  lib_parse :: "string \<Rightarrow> bool"
  lib_verify :: "string \<Rightarrow> string \<Rightarrow> pw_outcome"
  lib_salt :: "8 word list \<Rightarrow> string option"
  lib_hash :: "string \<Rightarrow> string \<Rightarrow> string option"

datatype hash_error = HashErr | VerifyErr | ParamsErr

definition argon2_params :: "argon2_lib \<Rightarrow> hash_error + unit" where
  "argon2_params L = (if lib_params L 4096 3 1 (Some 32) then Inr () else Inl ParamsErr)"

definition argon2_hash :: "argon2_lib \<Rightarrow> 8 word list \<Rightarrow> string \<Rightarrow> hash_error + string" where
  "argon2_hash L salt_bytes secret =
     (case lib_salt L salt_bytes of
        None \<Rightarrow> Inl HashErr
      | Some salt \<Rightarrow>
          result_bind (argon2_params L) (\<lambda>_. ok_or (lib_hash L secret salt) HashErr))"

definition argon2_verify :: "argon2_lib \<Rightarrow> string \<Rightarrow> string \<Rightarrow> hash_error + bool" where
  "argon2_verify L phc_hash secret =
     (if \<not> lib_parse L phc_hash then Inl HashErr
      else result_bind (argon2_params L)
        (\<lambda>_. case lib_verify L secret phc_hash of
               PwOk \<Rightarrow> Inr True
             | PwMismatch \<Rightarrow> Inr False
             | PwError \<Rightarrow> Inl VerifyErr))"

section \<open>Lemmas\<close>

lemma ns_prefix_no_sep [simp]: "CHR ''_'' \<notin> set (ns_prefix ns)"
  by (cases ns) auto

lemma from_prefix_ns_prefix [simp]: "from_prefix (ns_prefix ns) = Some ns"
  by (cases ns) (simp_all add: from_prefix_def)

lemma from_prefix_eq_Some_iff: "from_prefix s = Some ns \<longleftrightarrow> s = ns_prefix ns"
  by (cases ns) (auto simp: from_prefix_def)

lemma parse_wire_format:
  assumes "CHR ''.'' \<notin> set (st_public_id t)"
    and "length (st_public_id t) = PUBLIC_ID_LEN" "length (st_secret t) = SECRET_LEN"
    and "decodes (st_public_id t)" "decodes (st_secret t)"
  shows "parse decodes (wire_format t) = Inr (st_namespace t, st_public_id t, st_secret t)"
  using assms by (simp add: parse_def wire_format_def split_once_append)

lemma parse_InrD:
  assumes "parse decodes s = Inr (ns, pid, sec)"
  shows "s = wire_format \<lparr>st_namespace = ns, st_public_id = pid, st_secret = sec\<rparr>"
    and "length pid = PUBLIC_ID_LEN" "length sec = SECRET_LEN" "CHR ''.'' \<notin> set pid"
    and "decodes pid" "decodes sec"
  using assms
  by (auto simp: parse_def wire_format_def split_once_eq_Some_iff from_prefix_eq_Some_iff
      split: option.splits if_splits)

lemma argon2_verify_InrD:
  assumes "argon2_verify L h s = Inr True"
  shows "lib_parse L h \<and> lib_verify L s h = PwOk"
  using assms by (auto simp: argon2_verify_def split: if_splits pw_outcome.splits)

lemma wire_prefix_iff:
  "(\<exists>ns r. s = ns_prefix ns @ CHR ''_'' # r \<and> Q ns r) \<longleftrightarrow>
   (\<exists>a r ns. split_once (CHR ''_'') s = Some (a, r) \<and> from_prefix a = Some ns \<and> Q ns r)"
  unfolding split_once_eq_Some_iff from_prefix_eq_Some_iff using ns_prefix_no_sep by blast

section \<open>Properties\<close>

text \<open>C31. Round trip: a generated token, printed in its wire form, parses back to its namespace, public
  id and secret, for every namespace and all 16 and 32 random bytes.
\<close>

theorem token_roundtrip:
  assumes "b64_contract enc decodes" and "length id_bytes = 16" and "length secret_bytes = 32"
  shows "parse decodes (wire_format (generate enc id_bytes secret_bytes ns)) =
           Inr (ns, enc id_bytes, enc secret_bytes)"
proof -
  let ?t = "generate enc id_bytes secret_bytes ns"
  have "parse decodes (wire_format ?t) = Inr (st_namespace ?t, st_public_id ?t, st_secret ?t)"
    by (rule parse_wire_format)
      (use assms in \<open>simp_all add: generate_def b64_contract_def PUBLIC_ID_LEN_def SECRET_LEN_def\<close>)
  then show ?thesis by (simp add: generate_def)
qed

theorem token_roundtrip_witness:
  "b64_contract (\<lambda>bs. replicate ((4 * length bs + 2) div 3) (CHR ''A'')) (list_all (\<lambda>c. c = CHR ''A''))
   \<and> parse (list_all (\<lambda>c. c = CHR ''A''))
       (wire_format (generate (\<lambda>bs. replicate ((4 * length bs + 2) div 3) (CHR ''A''))
          (replicate 16 7) (replicate 32 9) NsOperator)) =
       Inr (NsOperator, replicate 22 (CHR ''A''), replicate 43 (CHR ''A''))"
proof -
  let ?enc = "\<lambda>bs :: 8 word list. replicate ((4 * length bs + 2) div 3) (CHR ''A'')"
  let ?dec = "list_all (\<lambda>c. c = CHR ''A'')"
  have c: "b64_contract ?enc ?dec" by (simp add: b64_contract_def list_all_iff)
  have "parse ?dec (wire_format (generate ?enc (replicate 16 7) (replicate 32 9) NsOperator)) =
      Inr (NsOperator, ?enc (replicate 16 7), ?enc (replicate 32 9))"
    by (rule token_roundtrip [OF c]) simp_all
  with c show ?thesis by simp
qed

text \<open>What the parser accepts, exactly: \<open>parse\<close> returns a namespace, public id and secret if and
  only if the input is their wire form, the public id has 22 and the secret 43 characters, both
  decode, and the public id holds no separator. In particular the accepted input determines all
  three parts, so a token of one namespace is never read as a token of another.
\<close>

theorem token_parse_exact:
  "parse decodes s = Inr (ns, pid, sec) \<longleftrightarrow>
     s = wire_format \<lparr>st_namespace = ns, st_public_id = pid, st_secret = sec\<rparr> \<and>
     length pid = PUBLIC_ID_LEN \<and> length sec = SECRET_LEN \<and>
     CHR ''.'' \<notin> set pid \<and> decodes pid \<and> decodes sec"
  using parse_InrD [of decodes s ns pid sec]
    parse_wire_format [of "\<lparr>st_namespace = ns, st_public_id = pid, st_secret = sec\<rparr>" decodes]
  by auto

text \<open>The error of every rejected token: an input with no underscore or with an unknown prefix is
  \<open>UnknownNamespace\<close>; a known prefix without a dot in the rest is \<open>MissingSeparator\<close>; wrong
  lengths and undecodable parts follow in that order.
\<close>

theorem token_parse_errors:
  "(parse decodes s = Inl UnknownNamespace \<longleftrightarrow> (\<nexists>ns r. s = ns_prefix ns @ CHR ''_'' # r)) \<and>
   (parse decodes s = Inl MissingSeparator \<longleftrightarrow>
      (\<exists>ns r. s = ns_prefix ns @ CHR ''_'' # r \<and> CHR ''.'' \<notin> set r)) \<and>
   (parse decodes s = Inl InvalidLength \<longleftrightarrow>
      (\<exists>ns r p k. s = ns_prefix ns @ CHR ''_'' # r \<and> r = p @ CHR ''.'' # k \<and> CHR ''.'' \<notin> set p \<and>
         \<not> (length p = PUBLIC_ID_LEN \<and> length k = SECRET_LEN)))"
proof -
  have unknown: "(\<exists>ns r. s = ns_prefix ns @ CHR ''_'' # r) \<longleftrightarrow>
      (\<exists>a r ns. split_once (CHR ''_'') s = Some (a, r) \<and> from_prefix a = Some ns)"
    using wire_prefix_iff [of s "\<lambda>_ _. True"] by blast
  have length: "(\<exists>ns r p k. s = ns_prefix ns @ CHR ''_'' # r \<and> r = p @ CHR ''.'' # k \<and> CHR ''.'' \<notin> set p \<and>
         \<not> (length p = PUBLIC_ID_LEN \<and> length k = SECRET_LEN)) \<longleftrightarrow>
      (\<exists>a r ns. split_once (CHR ''_'') s = Some (a, r) \<and> from_prefix a = Some ns \<and>
         (\<exists>p k. split_once (CHR ''.'') r = Some (p, k) \<and>
            \<not> (length p = PUBLIC_ID_LEN \<and> length k = SECRET_LEN)))"
    using wire_prefix_iff [of s "\<lambda>_ r. \<exists>p k. split_once (CHR ''.'') r = Some (p, k) \<and>
            \<not> (length p = PUBLIC_ID_LEN \<and> length k = SECRET_LEN)"]
    unfolding split_once_eq_Some_iff [of "CHR ''.''"] by blast
  show ?thesis
  proof (intro conjI)
    show "parse decodes s = Inl UnknownNamespace \<longleftrightarrow> (\<nexists>ns r. s = ns_prefix ns @ CHR ''_'' # r)"
      unfolding unknown by (auto simp: parse_def split: option.splits)
    show "parse decodes s = Inl MissingSeparator \<longleftrightarrow>
        (\<exists>ns r. s = ns_prefix ns @ CHR ''_'' # r \<and> CHR ''.'' \<notin> set r)"
      unfolding wire_prefix_iff split_once_eq_None_iff [symmetric]
      by (auto simp: parse_def split: option.splits)
  qed (unfold length, auto simp: parse_def split: option.splits)
qed

end
