(* ===== verification/AuthSpecs.thy ===== *)
theory AuthSpecs
  imports Prelude
begin

text \<open>
  The registration vocabulary: \<open>registrations/kind.rs\<close>, \<open>registrations/auth_spec.rs\<close>,
  \<open>registrations/mod.rs\<close> (the error type), \<open>registrations/validators.rs\<close> and the reference
  type of \<open>secret/mod.rs\<close>.  An auth specification never carries a credential value: it names
  an environment variable, a sealed row, a 1Password reference or an OAuth session.  The URL parser
  of the \<open>url\<close> crate is a parameter: \<open>parse_url\<close> gives the components the validator looks at.
\<close>

section \<open>Kinds\<close>

datatype kind = Model | Tool | Infra

fun url_segment :: "kind \<Rightarrow> string" where
  "url_segment Model = ''models''"
| "url_segment Tool = ''tools''"
| "url_segment Infra = ''infra''"

fun kind_as_str :: "kind \<Rightarrow> string" where
  "kind_as_str Model = ''model''"
| "kind_as_str Tool = ''tool''"
| "kind_as_str Infra = ''infra''"

lemma kind_as_str_inj [simp]: "kind_as_str k = kind_as_str k' \<longleftrightarrow> k = k'"
  by (cases k; cases k') auto

section \<open>References to secrets\<close>

datatype secret_ref =
    Inline string
  | LegacyString string
  | FromEnv string "string option"
  | FromFileSealed string
  | FromVault string string string
  | FromAwsSecretsManager string "string option" "string option"

fun looks_present :: "secret_ref \<Rightarrow> bool" where
  "looks_present (Inline s) = (s \<noteq> [])"
| "looks_present (LegacyString s) = (s \<noteq> [])"
| "looks_present _ = True"

fun secret_ref_display :: "secret_ref \<Rightarrow> string" where
  "secret_ref_display (Inline _) = ''<inline>''"
| "secret_ref_display (LegacyString _) = ''<legacy_string>''"
| "secret_ref_display (FromEnv var _) = ''from_env('' @ var @ '')''"
| "secret_ref_display (FromFileSealed path) = ''from_file_sealed('' @ path @ '')''"
| "secret_ref_display (FromVault mount path field) =
    ''from_vault('' @ mount @ ''/'' @ path @ ''#'' @ field @ '')''"
| "secret_ref_display (FromAwsSecretsManager secret_id _ _) =
    ''from_aws_secrets_manager('' @ secret_id @ '')''"

section \<open>Auth specifications\<close>

datatype auth_spec =
    AuthNone
  | Header string string
  | Bearer string
  | StoredHeader string string
  | StoredBearer string
  | OpHeader string string
  | OpBearer string
  | OauthPkce (client_id: string) (redirect_uri: string) (scopes: "string list")
      (auth_url: string) (token_url: string) (session_label: "string option")
  | OauthDeviceCode (client_id: string) (scopes: "string list") (device_url: string)
      (token_url: string) (session_label: "string option")

fun injects_header :: "auth_spec \<Rightarrow> bool" where
  "injects_header AuthNone = False"
| "injects_header _ = True"

fun is_oauth :: "auth_spec \<Rightarrow> bool" where
  "is_oauth (OauthPkce _ _ _ _ _ _) = True"
| "is_oauth (OauthDeviceCode _ _ _ _ _) = True"
| "is_oauth _ = False"

fun oauth_session_label :: "auth_spec \<Rightarrow> string option" where
  "oauth_session_label (OauthPkce _ _ _ _ _ l) = l"
| "oauth_session_label (OauthDeviceCode _ _ _ _ l) = l"
| "oauth_session_label _ = None"

definition DEFAULT_SESSION_LABEL :: string where
  "DEFAULT_SESSION_LABEL = ''default''"

definition session_label_or_default :: "auth_spec \<Rightarrow> string option" where
  "session_label_or_default a =
    (if \<not> is_oauth a then None
     else Some (case oauth_session_label a of Some l \<Rightarrow> l | None \<Rightarrow> DEFAULT_SESSION_LABEL))"

fun to_secret_ref :: "auth_spec \<Rightarrow> secret_ref option" where
  "to_secret_ref (Header _ env_var) = Some (FromEnv env_var None)"
| "to_secret_ref (Bearer env_var) = Some (FromEnv env_var None)"
| "to_secret_ref _ = None"

fun is_stored :: "auth_spec \<Rightarrow> bool" where
  "is_stored (StoredHeader _ _) = True"
| "is_stored (StoredBearer _) = True"
| "is_stored _ = False"

fun stored_secret_ref :: "auth_spec \<Rightarrow> string option" where
  "stored_secret_ref (StoredHeader _ r) = Some r"
| "stored_secret_ref (StoredBearer r) = Some r"
| "stored_secret_ref _ = None"

fun header_name :: "auth_spec \<Rightarrow> string option" where
  "header_name (Header h _) = Some h"
| "header_name (StoredHeader h _) = Some h"
| "header_name (OpHeader h _) = Some h"
| "header_name _ = None"

fun is_op :: "auth_spec \<Rightarrow> bool" where
  "is_op (OpHeader _ _) = True"
| "is_op (OpBearer _) = True"
| "is_op _ = False"

fun op_reference :: "auth_spec \<Rightarrow> string option" where
  "op_reference (OpHeader _ r) = Some r"
| "op_reference (OpBearer r) = Some r"
| "op_reference _ = None"

definition op_reference_ok :: "string \<Rightarrow> bool" where
  "op_reference_ok r \<longleftrightarrow> starts_with ''op://'' r \<and> length r > length ''op://''"

definition validate_op_reference :: "auth_spec \<Rightarrow> string + unit" where
  "validate_op_reference a =
    (case op_reference a of
       Some r \<Rightarrow> if op_reference_ok r then Inr ()
                 else Inl (''op custody reference must use the op:// scheme, got: '' @ r)
     | None \<Rightarrow> Inr ())"

text \<open>Every specification that injects a header belongs to exactly one custody class; the class is
  what each of the accessors reports.\<close>

lemma is_stored_iff: "is_stored a \<longleftrightarrow> stored_secret_ref a \<noteq> None"
  by (cases a) auto

lemma is_op_iff: "is_op a \<longleftrightarrow> op_reference a \<noteq> None"
  by (cases a) auto

lemma custody_cases:
  obtains (none) "a = AuthNone"
  | (env) v where "to_secret_ref a = Some (FromEnv v None)"
  | (stored) r where "stored_secret_ref a = Some r"
  | (op) r where "op_reference a = Some r"
  | (oauth) "is_oauth a"
  by (cases a) auto

lemma custody_exclusive:
  "is_oauth a \<Longrightarrow> stored_secret_ref a = None \<and> op_reference a = None \<and> to_secret_ref a = None"
  "is_stored a \<Longrightarrow> op_reference a = None \<and> to_secret_ref a = None \<and> \<not> is_oauth a"
  "is_op a \<Longrightarrow> stored_secret_ref a = None \<and> to_secret_ref a = None \<and> \<not> is_oauth a"
  by (cases a; simp)+

section \<open>Validation\<close>

datatype registration_error =
    InvalidHttpService
  | InvalidUpstream
  | NameInUse kind
  | ReservedName
  | AuthRequired
  | ModelAuthRequired
  | InvalidName string
  | InvalidMetadata string
  | WrongKind kind kind
  | RegBackend string

record url_view =
  uv_scheme :: string
  uv_has_host :: bool
  uv_username :: string
  uv_password :: "string option"
  uv_query :: "string option"
  uv_fragment :: "string option"

definition has_authority :: "string \<Rightarrow> bool" where
  "has_authority upstream =
    (case split_once_str ''://'' upstream of
       None \<Rightarrow> False
     | Some (_, rest) \<Rightarrow>
         rest \<noteq> [] \<and> \<not> starts_with ''/'' rest
         \<and> CHR ''@'' \<notin> set (hd (split_by (\<lambda>c. c = CHR ''/'') rest)))"

definition validate_upstream ::
    "(string \<Rightarrow> url_view option) \<Rightarrow> kind \<Rightarrow> string \<Rightarrow> registration_error + unit" where
  "validate_upstream parse_url k upstream =
    (if k = Infra then Inr ()
     else case parse_url upstream of
       None \<Rightarrow> Inl InvalidUpstream
     | Some url \<Rightarrow>
         if \<not> has_authority upstream
            \<or> \<not> (uv_scheme url = ''http'' \<or> uv_scheme url = ''https'')
            \<or> \<not> uv_has_host url
            \<or> str_trim upstream \<noteq> upstream
            \<or> list_ex (\<lambda>c. is_control c \<or> c = CHR 92) upstream
            \<or> uv_username url \<noteq> []
            \<or> uv_password url \<noteq> None
            \<or> uv_query url \<noteq> None
            \<or> uv_fragment url \<noteq> None
         then Inl InvalidUpstream
         else Inr ())"

definition RESERVED_NAMES :: "string list" where
  "RESERVED_NAMES =
    [''livez'', ''readyz'', ''version'', ''health'', ''skill'', ''tools'', ''models'', ''admin'',
     ''api'', ''metrics'', ''audit'']"

definition MAX_NAME_LEN :: nat where
  "MAX_NAME_LEN = 64"

definition validate_name :: "string \<Rightarrow> registration_error + unit" where
  "validate_name name =
    (if name = [] then Inl (InvalidName ''name is empty'')
     else if length name > MAX_NAME_LEN then Inl (InvalidName ''name exceeds 64 characters'')
     else if \<not> list_all (\<lambda>c. is_ascii_lowercase c \<or> is_ascii_digit c \<or> c = CHR ''-'') name
     then Inl (InvalidName ''name contains invalid characters (allowed: a-z 0-9 -)'')
     else if name \<in> set RESERVED_NAMES then Inl ReservedName
     else Inr ())"

lemma validate_name_iff:
  "validate_name n = Inr () \<longleftrightarrow>
     0 < length n \<and> length n \<le> 64
     \<and> set n \<subseteq> {c. is_ascii_lowercase c \<or> is_ascii_digit c \<or> c = CHR ''-''}
     \<and> n \<notin> set RESERVED_NAMES"
  by (auto simp: validate_name_def MAX_NAME_LEN_def list_all_iff)

lemma validate_name_no_slash:
  assumes "validate_name n = Inr ()"
  shows "CHR ''/'' \<notin> set n" and "CHR ''?'' \<notin> set n" and "CHR ''%'' \<notin> set n"
    and "CHR ''.'' \<notin> set n"
  using assms
  by (auto simp: validate_name_iff is_ascii_lowercase_def is_ascii_digit_def
      subset_iff Ball_def)

lemma validate_upstream_InrD:
  assumes "validate_upstream parse_url k u = Inr ()" and "k \<noteq> Infra"
  obtains sch rest v where "split_once_str ''://'' u = Some (sch, rest)" and "rest \<noteq> []"
    and "hd rest \<noteq> CHR ''/''" and "CHR ''@'' \<notin> set (takeWhile (\<lambda>c. c \<noteq> CHR ''/'') rest)"
    and "parse_url u = Some v" and "uv_scheme v \<in> {''http'', ''https''}"
proof -
  from assms obtain v where v: "parse_url u = Some v" and a: "has_authority u"
    and s: "uv_scheme v \<in> {''http'', ''https''}"
    by (auto simp: validate_upstream_def split: if_splits option.splits)
  from a obtain sch rest where "split_once_str ''://'' u = Some (sch, rest)" "rest \<noteq> []"
      "\<not> starts_with ''/'' rest" "CHR ''@'' \<notin> set (hd (split_by (\<lambda>c. c = CHR ''/'') rest))"
    by (auto simp: has_authority_def split: option.splits)
  moreover from this have "hd rest \<noteq> CHR ''/''"
    by (cases rest) (auto simp: starts_with_def)
  ultimately show thesis
    using v s that by (simp add: hd_split_by)
qed

end
