(* ===== verification/Store.thy ===== *)
theory Store
  imports Tokens AuthSpecs
begin

text \<open>
  The SQLite database of \<open>migrations/\<close>: one record with a list of rows per table, in insertion
  order, the AUTOINCREMENT counters, and a flag \<open>db_down\<close> under which every statement fails
  (a pool or I/O error of the driver).  A TEXT column that holds JSON is a \<open>jcol\<close>:
  \<open>JVal v\<close> is text that reads as \<open>v\<close>, \<open>JBad\<close> is text that is not JSON.  The three triggers
  of \<open>migrations/0009_explicit_http_grants.sql\<close> are the one function
  \<open>invalidate_authority\<close>; the repositories call it exactly where SQLite would fire it.  Foreign keys are on (\<open>migrations.rs\<close>, \<open>open_and_migrate\<close>).
\<close>

section \<open>Errors of the repositories\<close>

datatype repo_error =
    AgentNameConflict string
  | RotationInProgress string
  | AgentNotFound
  | InvalidCredential
  | Hash hash_error
  | Sqlx
  | InvalidAccountBinding
  | InvalidGrantTarget
  | Json
  | Rng

section \<open>Rows\<close>

datatype egress_mode = Direct | Proxied

record tool_timeouts =
  request_seconds :: u64
  idle_seconds :: u64

record reg_row =
  rg_name :: string
  rg_kind :: string
  rg_description :: string
  rg_upstream :: string
  rg_auth_json :: "auth_spec jcol"
  rg_egress :: string
  rg_timeouts_json :: "tool_timeouts jcol"
  rg_body_limit_bytes :: int
  rg_metadata_json :: "json jcol"
  rg_seed :: bool
  rg_disabled :: bool
  rg_created_at :: int
  rg_updated_at :: int

record agent_row =
  ag_id :: int
  ag_public_id :: string
  ag_name :: string
  ag_description :: "string option"
  ag_secret_hash :: string
  ag_tool_allowlist :: "string list jcol option"
  ag_tool_denylist :: "string list jcol option"
  ag_metadata :: "json jcol option"
  ag_cert_identity :: "string option"
  ag_registered_at :: int
  ag_last_used_at :: "int option"
  ag_expires_at :: "int option"
  ag_revoked_at :: "int option"
  ag_grants_reviewed :: bool

record bootstrap_scope =
  sc_tool_allowlist :: "string list option"
  sc_expires_at :: "int option"
  sc_single_use :: bool

record bootstrap_row =
  bk_id :: int
  bk_public_id :: string
  bk_secret_hash :: string
  bk_scope :: "bootstrap_scope jcol"
  bk_created_by :: string
  bk_created_at :: int
  bk_expires_at :: "int option"
  bk_used_at :: "int option"
  bk_used_by_agent_id :: "int option"
  bk_revoked_at :: "int option"
  bk_grants_reviewed :: bool

record override_row =
  ov_agent_id :: int
  ov_registration :: string
  ov_auth_spec :: "auth_spec jcol"
  ov_created_at :: int
  ov_updated_at :: int

record secret_row =
  cs_secret_ref :: string
  cs_sealed_value :: string
  cs_nonce :: string
  cs_set_at :: int
  cs_tombstoned_at :: "int option"

record oauth_row =
  os_name :: string
  os_session_label :: string
  os_refresh_ct :: string
  os_refresh_nonce :: string
  os_access_ct :: "string option"
  os_access_nonce :: "string option"
  os_expires_at :: "int option"
  os_scope :: string
  os_degraded :: bool
  os_created_at :: int
  os_updated_at :: int
  os_account_id :: "string option"

record audit_row =
  au_id :: int
  au_ts :: int
  au_event_class :: string
  au_event :: string
  au_agent_public_id :: "string option"
  au_operator_name :: "string option"
  au_tool :: "string option"
  au_upstream_host :: "string option"
  au_method :: "string option"
  au_path :: "string option"
  au_status :: "int option"
  au_latency_ms :: "int option"
  au_decision :: string
  au_auth_method :: "string option"
  au_origin_ip :: "string option"
  au_details :: "json jcol option"

record oplog_row =
  ol_id :: int
  ol_ts_ms :: int
  ol_level :: string
  ol_component :: string
  ol_event :: string
  ol_message :: string
  ol_fields :: "json jcol option"

record db =
  db_down :: bool
  registrations :: "reg_row list"
  registrations_meta :: "(string \<times> string) list"
  agents :: "agent_row list"
  next_agent_id :: int
  bootstrap_tokens :: "bootstrap_row list"
  next_bootstrap_id :: int
  overrides :: "override_row list"
  credential_secrets :: "secret_row list"
  oauth_sessions :: "oauth_row list"
  audit :: "audit_row list"
  next_audit_id :: int
  operational_logs :: "oplog_row list"
  next_oplog_id :: int

definition empty_db :: db where
  "empty_db = \<lparr>db_down = False, registrations = [], registrations_meta = [], agents = [],
     next_agent_id = 1, bootstrap_tokens = [], next_bootstrap_id = 1, overrides = [],
     credential_secrets = [], oauth_sessions = [], audit = [], next_audit_id = 1,
     operational_logs = [], next_oplog_id = 1\<rparr>"

section \<open>Statements on row lists\<close>

text \<open>\<open>update_where P f\<close> is \<open>UPDATE ... SET f WHERE P\<close>, \<open>count_where P\<close> the number of rows it
  affects, \<open>find P\<close> is a \<open>fetch_optional\<close> and \<open>filter\<close> a \<open>fetch_all\<close>.\<close>

definition update_where :: "('r \<Rightarrow> bool) \<Rightarrow> ('r \<Rightarrow> 'r) \<Rightarrow> 'r list \<Rightarrow> 'r list" where
  "update_where P f rs = map (\<lambda>r. if P r then f r else r) rs"

definition count_where :: "('r \<Rightarrow> bool) \<Rightarrow> 'r list \<Rightarrow> nat" where
  "count_where P rs = length (filter P rs)"

lemma length_update_where [simp]: "length (update_where P f rs) = length rs"
  by (simp add: update_where_def)

lemma map_update_where [table_simps]:
  "(\<And>r. P r \<Longrightarrow> k (f r) = k r) \<Longrightarrow> map k (update_where P f rs) = map k rs"
  by (auto simp: update_where_def)

lemma set_update_where: "set (update_where P f rs) = (\<lambda>r. if P r then f r else r) ` set rs"
  by (simp add: update_where_def)

lemma in_update_where_iff [table_simps]:
  "r \<in> set (update_where P f rs) \<longleftrightarrow> (r \<in> set rs \<and> \<not> P r) \<or> (\<exists>r0 \<in> set rs. P r0 \<and> r = f r0)"
  by (auto simp: set_update_where image_iff)

lemma update_where_id: "(\<And>r. r \<in> set rs \<Longrightarrow> \<not> P r) \<Longrightarrow> update_where P f rs = rs"
  by (simp add: update_where_def map_idI)

lemma count_where_zero_iff [table_simps]: "count_where P rs = 0 \<longleftrightarrow> (\<forall>r \<in> set rs. \<not> P r)"
  by (auto simp: count_where_def filter_empty_conv)

lemma count_where_pos_iff [table_simps]: "0 < count_where P rs \<longleftrightarrow> (\<exists>r \<in> set rs. P r)"
  using count_where_zero_iff [of P rs] by auto

lemma list_ex_update_where [table_simps]:
  "list_ex Q (update_where P f rs) \<longleftrightarrow> list_ex (\<lambda>r. Q (if P r then f r else r)) rs"
  by (induction rs) (simp_all add: update_where_def)

lemma list_all_update_where [table_simps]:
  "list_all Q (update_where P f rs) \<longleftrightarrow> list_all (\<lambda>r. Q (if P r then f r else r)) rs"
  by (induction rs) (simp_all add: update_where_def)

lemma count_where_zero_list_ex: "count_where P rs = 0 \<longleftrightarrow> \<not> list_ex P rs"
  by (induction rs) (simp_all add: count_where_def)

lemma find_update_where:
  assumes "\<And>r. P r \<Longrightarrow> Q (f r) = Q r"
  shows "find Q (update_where P f rs) = map_option (\<lambda>r. if P r then f r else r) (find Q rs)"
  using assms by (induction rs) (auto simp: update_where_def)

lemma find_SomeD: "find P rs = Some r \<Longrightarrow> r \<in> set rs \<and> P r"
  by (auto simp: find_Some_iff)

lemma find_key_unique:
  assumes "distinct (map k rs)" and "r \<in> set rs"
  shows "find (\<lambda>x. k x = k r) rs = Some r"
  using assms by (induction rs) (auto simp: rev_image_eqI image_iff)

lemma find_append: "find P (xs @ ys) = (case find P xs of Some x \<Rightarrow> Some x | None \<Rightarrow> find P ys)"
  by (induction xs) auto

lemma find_key_update:
  assumes "\<And>x. k x = n \<Longrightarrow> k (f x) = n"
  shows "find (\<lambda>x. k x = m) (update_where (\<lambda>x. k x = n) f rs) =
    (if m = n then map_option f (find (\<lambda>x. k x = n) rs) else find (\<lambda>x. k x = m) rs)"
  using assms by (induction rs) (auto simp: update_where_def)

lemma find_key_filter:
  "find (\<lambda>x. k x = m) (filter (\<lambda>x. k x \<noteq> n) rs) =
    (if m = n then None else find (\<lambda>x. k x = m) rs)"
  by (induction rs) auto

lemma find_key_map: "(\<And>x. k (f x) = k x) \<Longrightarrow>
  find (\<lambda>x. k x = m) (map f rs) = map_option f (find (\<lambda>x. k x = m) rs)"
  by (induction rs) auto

lemma find_key_None_iff: "find (\<lambda>x. k x = m) rs = None \<longleftrightarrow> m \<notin> k ` set rs"
  by (auto simp: find_None_iff)

section \<open>Lifecycle triggers\<close>

text \<open>\<open>json_group_array(value) ... WHERE value != name\<close> on the allowlist of reviewed agents and the
  scope of reviewed bootstrap tokens, and the deletion of the account bindings.  A scope whose
  \<open>tool_allowlist\<close> is absent or null becomes the empty array, as \<open>json_set\<close> writes it.\<close>

definition prune_agent :: "string \<Rightarrow> agent_row \<Rightarrow> agent_row" where
  "prune_agent n a =
    (case ag_tool_allowlist a of
       Some (JVal l) \<Rightarrow>
         if ag_grants_reviewed a
         then a\<lparr>ag_tool_allowlist := Some (JVal (filter (\<lambda>x. x \<noteq> n) l))\<rparr> else a
     | _ \<Rightarrow> a)"

definition prune_token :: "string \<Rightarrow> bootstrap_row \<Rightarrow> bootstrap_row" where
  "prune_token n b =
    (case bk_scope b of
       JVal s \<Rightarrow>
         if bk_grants_reviewed b
         then b\<lparr>bk_scope := JVal (s\<lparr>sc_tool_allowlist :=
                  Some (filter (\<lambda>x. x \<noteq> n) (case sc_tool_allowlist s of None \<Rightarrow> [] | Some l \<Rightarrow> l))\<rparr>)\<rparr>
         else b
     | JBad \<Rightarrow> b)"

definition invalidate_authority :: "string \<Rightarrow> db \<Rightarrow> db" where
  "invalidate_authority n d = d\<lparr>
     overrides := filter (\<lambda>r. ov_registration r \<noteq> n) (overrides d),
     agents := map (prune_agent n) (agents d),
     bootstrap_tokens := map (prune_token n) (bootstrap_tokens d)\<rparr>"

lemma prune_agent_keeps [simp]:
  "ag_id (prune_agent n a) = ag_id a"
  "ag_public_id (prune_agent n a) = ag_public_id a"
  "ag_name (prune_agent n a) = ag_name a"
  "ag_secret_hash (prune_agent n a) = ag_secret_hash a"
  "ag_tool_denylist (prune_agent n a) = ag_tool_denylist a"
  "ag_cert_identity (prune_agent n a) = ag_cert_identity a"
  "ag_expires_at (prune_agent n a) = ag_expires_at a"
  "ag_revoked_at (prune_agent n a) = ag_revoked_at a"
  "ag_grants_reviewed (prune_agent n a) = ag_grants_reviewed a"
  by (simp_all add: prune_agent_def split: option.splits jcol.splits)

lemma prune_token_keeps [simp]:
  "bk_id (prune_token n b) = bk_id b"
  "bk_public_id (prune_token n b) = bk_public_id b"
  "bk_secret_hash (prune_token n b) = bk_secret_hash b"
  "bk_expires_at (prune_token n b) = bk_expires_at b"
  "bk_used_at (prune_token n b) = bk_used_at b"
  "bk_revoked_at (prune_token n b) = bk_revoked_at b"
  "bk_grants_reviewed (prune_token n b) = bk_grants_reviewed b"
  by (simp_all add: prune_token_def split: jcol.splits)

lemma invalidate_authority_keeps [simp]:
  "db_down (invalidate_authority n d) = db_down d"
  "registrations (invalidate_authority n d) = registrations d"
  "registrations_meta (invalidate_authority n d) = registrations_meta d"
  "credential_secrets (invalidate_authority n d) = credential_secrets d"
  "oauth_sessions (invalidate_authority n d) = oauth_sessions d"
  "next_agent_id (invalidate_authority n d) = next_agent_id d"
  "next_bootstrap_id (invalidate_authority n d) = next_bootstrap_id d"
  "audit (invalidate_authority n d) = audit d"
  "operational_logs (invalidate_authority n d) = operational_logs d"
  by (simp_all add: invalidate_authority_def)

section \<open>Integrity constraints\<close>

text \<open>What the schema guarantees of every reachable database: primary keys and UNIQUE columns are
  distinct, AUTOINCREMENT ids are below the counter, the CHECK on \<open>kind\<close> and \<open>egress\<close>
  holds, and every account binding belongs to an existing agent.\<close>

definition override_key :: "override_row \<Rightarrow> int \<times> string" where
  "override_key r = (ov_agent_id r, ov_registration r)"

definition oauth_key :: "oauth_row \<Rightarrow> string \<times> string" where
  "oauth_key r = (os_name r, os_session_label r)"

definition reg_row_check :: "reg_row \<Rightarrow> bool" where
  "reg_row_check r \<longleftrightarrow>
     rg_kind r \<in> {''model'', ''tool'', ''infra''} \<and> rg_egress r \<in> {''direct'', ''proxied''}"

definition db_ok :: "db \<Rightarrow> bool" where
  "db_ok d \<longleftrightarrow>
     distinct (map rg_name (registrations d))
   \<and> distinct (map ag_id (agents d)) \<and> distinct (map ag_public_id (agents d))
   \<and> distinct (map ag_name (agents d))
   \<and> list_all (\<lambda>a. ag_id a < next_agent_id d) (agents d)
   \<and> distinct (map bk_public_id (bootstrap_tokens d))
   \<and> distinct (map bk_id (bootstrap_tokens d))
   \<and> list_all (\<lambda>b. bk_id b < next_bootstrap_id d) (bootstrap_tokens d)
   \<and> distinct (map override_key (overrides d))
   \<and> list_all (\<lambda>r. ov_agent_id r \<in> ag_id ` set (agents d)) (overrides d)
   \<and> distinct (map cs_secret_ref (credential_secrets d))
   \<and> distinct (map oauth_key (oauth_sessions d))
   \<and> list_all reg_row_check (registrations d)"

lemma db_ok_empty [simp]: "db_ok empty_db"
  by (simp add: db_ok_def empty_db_def)

lemma db_ok_invalidate_authority [simp]: "db_ok d \<Longrightarrow> db_ok (invalidate_authority n d)"
  by (auto simp: db_ok_def invalidate_authority_def list_all_iff distinct_map comp_def image_image
      intro: inj_on_subset)

end
