(* ===== verification/AuditLog.thy ===== *)
theory AuditLog
  imports Store
begin

text \<open>
  The two event streams: \<open>repo/audit.rs\<close> (who did what, and was it allowed),
  \<open>repo/operational_log.rs\<close> (what the daemon did) and the non-blocking emitter of
  \<open>operational_log_sink.rs\<close>.  Where the SQL leaves the order of rows with equal timestamps open,
  the later row comes first.
\<close>

section \<open>Audit events\<close>

datatype event_class = EcProxy | EcOperator | EcSecurity

fun event_class_as_str :: "event_class \<Rightarrow> string" where
  "event_class_as_str EcProxy = ''proxy''"
| "event_class_as_str EcOperator = ''operator''"
| "event_class_as_str EcSecurity = ''security''"

datatype decision = Allowed | Denied | DecisionError

fun decision_as_str :: "decision \<Rightarrow> string" where
  "decision_as_str Allowed = ''allowed''"
| "decision_as_str Denied = ''denied''"
| "decision_as_str DecisionError = ''error''"

record audit_event =
  ae_ts_ms :: int
  ae_event_class :: event_class
  ae_event :: string
  ae_agent_public_id :: "string option"
  ae_agent_name :: "string option"
  ae_operator_name :: "string option"
  ae_tool :: "string option"
  ae_upstream_host :: "string option"
  ae_method :: "string option"
  ae_path :: "string option"
  ae_status :: "16 word option"
  ae_latency_ms :: "u64 option"
  ae_decision :: decision
  ae_auth_method :: "string option"
  ae_origin_ip :: "string option"
  ae_details :: "json option"

definition default_event :: audit_event where
  "default_event = \<lparr>ae_ts_ms = 0, ae_event_class = EcProxy, ae_event = [], ae_agent_public_id = None,
     ae_agent_name = None, ae_operator_name = None, ae_tool = None, ae_upstream_host = None,
     ae_method = None, ae_path = None, ae_status = None, ae_latency_ms = None, ae_decision = Allowed,
     ae_auth_method = None, ae_origin_ip = None, ae_details = None\<rparr>"

record audit_filter =
  af_since_ms :: "int option"
  af_until_ms :: "int option"
  af_agent_public_id :: "string option"
  af_tool :: "string option"
  af_event_class :: "event_class option"
  af_decision :: "decision option"

record audit_page =
  pg_limit :: nat
  pg_offset :: nat

definition event_to_row :: "int \<Rightarrow> audit_event \<Rightarrow> audit_row" where
  "event_to_row i e = \<lparr>au_id = i, au_ts = ae_ts_ms e,
     au_event_class = event_class_as_str (ae_event_class e), au_event = ae_event e,
     au_agent_public_id = ae_agent_public_id e, au_operator_name = ae_operator_name e,
     au_tool = ae_tool e, au_upstream_host = ae_upstream_host e, au_method = ae_method e,
     au_path = ae_path e, au_status = map_option uint (ae_status e),
     au_latency_ms = map_option u64_as_i64 (ae_latency_ms e),
     au_decision = decision_as_str (ae_decision e), au_auth_method = ae_auth_method e,
     au_origin_ip = ae_origin_ip e, au_details = map_option JVal (ae_details e)\<rparr>"

text \<open>Insertion; with a sink attached the event is also appended to it, after a successful insert only.
  The last component is what reaches the sink.\<close>

definition audit_record ::
    "bool \<Rightarrow> audit_event \<Rightarrow> db \<Rightarrow> (repo_error + unit) \<times> db \<times> audit_event list" where
  "audit_record with_sink e d =
    (if db_down d then (Inl Sqlx, d, [])
     else (Inr (), d\<lparr>audit := audit d @ [event_to_row (next_audit_id d) e],
                     next_audit_id := next_audit_id d + 1\<rparr>,
           if with_sink then [e] else []))"

definition sweep_older_than :: "int \<Rightarrow> db \<Rightarrow> (repo_error + nat) \<times> db" where
  "sweep_older_than cutoff d =
    (if db_down d then (Inl Sqlx, d)
     else (Inr (count_where (\<lambda>r. au_ts r < cutoff) (audit d)),
           d\<lparr>audit := filter (\<lambda>r. \<not> au_ts r < cutoff) (audit d)\<rparr>))"

definition parse_event_class :: "string \<Rightarrow> repo_error + event_class" where
  "parse_event_class s =
    (if s = ''proxy'' then Inr EcProxy else if s = ''operator'' then Inr EcOperator
     else if s = ''security'' then Inr EcSecurity else Inl Json)"

definition parse_decision :: "string \<Rightarrow> repo_error + decision" where
  "parse_decision s =
    (if s = ''allowed'' then Inr Allowed else if s = ''denied'' then Inr Denied
     else if s = ''error'' then Inr DecisionError else Inl Json)"

definition u16_try_from :: "int \<Rightarrow> 16 word option" where
  "u16_try_from i = (if 0 \<le> i \<and> i < 2 ^ 16 then Some (word_of_int i) else None)"

definition into_event :: "string option \<Rightarrow> audit_row \<Rightarrow> repo_error + audit_event" where
  "into_event agent_name r =
    result_bind (parse_event_class (au_event_class r)) (\<lambda>ec.
    result_bind (parse_decision (au_decision r)) (\<lambda>dec.
    result_bind (case au_details r of None \<Rightarrow> Inr None | Some (JVal j) \<Rightarrow> Inr (Some j)
                 | Some JBad \<Rightarrow> Inl Json) (\<lambda>details.
      Inr \<lparr>ae_ts_ms = au_ts r, ae_event_class = ec, ae_event = au_event r,
           ae_agent_public_id = au_agent_public_id r, ae_agent_name = agent_name,
           ae_operator_name = au_operator_name r, ae_tool = au_tool r,
           ae_upstream_host = au_upstream_host r, ae_method = au_method r, ae_path = au_path r,
           ae_status = Option.bind (au_status r) u16_try_from,
           ae_latency_ms = map_option (\<lambda>l. word_of_int l :: u64) (au_latency_ms r),
           ae_decision = dec, ae_auth_method = au_auth_method r, ae_origin_ip = au_origin_ip r,
           ae_details = details\<rparr>)))"

text \<open>The optional predicates of the query: an absent filter puts no condition.\<close>

definition opt_all :: "'a option \<Rightarrow> ('a \<Rightarrow> bool) \<Rightarrow> bool" where
  "opt_all x P = (case x of None \<Rightarrow> True | Some a \<Rightarrow> P a)"

definition audit_matches :: "audit_filter \<Rightarrow> audit_row \<Rightarrow> bool" where
  "audit_matches f r \<longleftrightarrow>
     opt_all (af_since_ms f) (\<lambda>v. v \<le> au_ts r)
   \<and> opt_all (af_until_ms f) (\<lambda>v. au_ts r < v)
   \<and> opt_all (af_agent_public_id f) (\<lambda>v. au_agent_public_id r = Some v)
   \<and> opt_all (af_tool f) (\<lambda>v. au_tool r = Some v)
   \<and> opt_all (af_event_class f) (\<lambda>v. au_event_class r = event_class_as_str v)
   \<and> opt_all (af_decision f) (\<lambda>v. au_decision r = decision_as_str v)"

definition agent_name_of :: "db \<Rightarrow> string option \<Rightarrow> string option" where
  "agent_name_of d pid =
    (case pid of None \<Rightarrow> None
     | Some p \<Rightarrow> map_option ag_name (find (\<lambda>a. ag_public_id a = p) (agents d)))"

definition audit_selected :: "audit_filter \<Rightarrow> db \<Rightarrow> audit_row list" where
  "audit_selected f d = sort_key (\<lambda>r. - au_ts r) (rev (filter (audit_matches f) (audit d)))"

definition audit_query :: "audit_filter \<Rightarrow> audit_page \<Rightarrow> db \<Rightarrow> repo_error + audit_event list" where
  "audit_query f p d =
    (if db_down d then Inl Sqlx
     else collect_results (map (\<lambda>r. into_event (agent_name_of d (au_agent_public_id r)) r)
            (take (pg_limit p) (drop (pg_offset p) (audit_selected f d)))))"

section \<open>Operational log\<close>

datatype log_level = Info | Warn | LevelError

fun log_level_as_str :: "log_level \<Rightarrow> string" where
  "log_level_as_str Info = ''info''"
| "log_level_as_str Warn = ''warn''"
| "log_level_as_str LevelError = ''error''"

definition log_level_parse :: "string \<Rightarrow> log_level option" where
  "log_level_parse s =
    (if s = ''info'' then Some Info else if s = ''warn'' then Some Warn
     else if s = ''error'' then Some LevelError else None)"

datatype log_component = CompOauth | CompRegistry | CompAgent | CompProxy | CompConfig

fun log_component_as_str :: "log_component \<Rightarrow> string" where
  "log_component_as_str CompOauth = ''oauth''"
| "log_component_as_str CompRegistry = ''registry''"
| "log_component_as_str CompAgent = ''agent''"
| "log_component_as_str CompProxy = ''proxy''"
| "log_component_as_str CompConfig = ''config''"

definition log_component_parse :: "string \<Rightarrow> log_component option" where
  "log_component_parse s =
    (if s = ''oauth'' then Some CompOauth else if s = ''registry'' then Some CompRegistry
     else if s = ''agent'' then Some CompAgent else if s = ''proxy'' then Some CompProxy
     else if s = ''config'' then Some CompConfig else None)"

record log_filter =
  lf_level :: "log_level option"
  lf_component :: "log_component option"
  lf_since_ms :: "int option"
  lf_until_ms :: "int option"
  lf_limit :: nat
  lf_offset :: nat

record oplog_record =
  lr_id :: int
  lr_ts_ms :: int
  lr_level :: string
  lr_component :: string
  lr_event :: string
  lr_message :: string
  lr_fields :: "json option"

definition oplog_insert ::
    "int \<Rightarrow> log_level \<Rightarrow> log_component \<Rightarrow> string \<Rightarrow> string \<Rightarrow> json option \<Rightarrow> db \<Rightarrow> (repo_error + int) \<times> db" where
  "oplog_insert now level component event message flds d =
    (if db_down d then (Inl Sqlx, d)
     else (Inr (next_oplog_id d),
           d\<lparr>operational_logs := operational_logs d @
               [\<lparr>ol_id = next_oplog_id d, ol_ts_ms = now, ol_level = log_level_as_str level,
                 ol_component = log_component_as_str component, ol_event = event,
                 ol_message = message, ol_fields = map_option JVal flds\<rparr>],
             next_oplog_id := next_oplog_id d + 1\<rparr>))"

definition oplog_matches :: "log_filter \<Rightarrow> oplog_row \<Rightarrow> bool" where
  "oplog_matches f r \<longleftrightarrow>
     opt_all (lf_level f) (\<lambda>v. ol_level r = log_level_as_str v)
   \<and> opt_all (lf_component f) (\<lambda>v. ol_component r = log_component_as_str v)
   \<and> opt_all (lf_since_ms f) (\<lambda>v. v \<le> ol_ts_ms r)
   \<and> opt_all (lf_until_ms f) (\<lambda>v. ol_ts_ms r < v)"

definition oplog_into_record :: "oplog_row \<Rightarrow> repo_error + oplog_record" where
  "oplog_into_record r =
    result_bind (case ol_fields r of None \<Rightarrow> Inr None | Some (JVal j) \<Rightarrow> Inr (Some j)
                 | Some JBad \<Rightarrow> Inl Json) (\<lambda>fields.
      Inr \<lparr>lr_id = ol_id r, lr_ts_ms = ol_ts_ms r, lr_level = ol_level r,
           lr_component = ol_component r, lr_event = ol_event r, lr_message = ol_message r,
           lr_fields = fields\<rparr>)"

definition oplog_query :: "log_filter \<Rightarrow> db \<Rightarrow> repo_error + oplog_record list" where
  "oplog_query f d =
    (if db_down d then Inl Sqlx
     else collect_results (map oplog_into_record (take (lf_limit f) (drop (lf_offset f)
            (sort_key (\<lambda>r. - ol_ts_ms r) (sort_key (\<lambda>r. - ol_id r)
              (filter (oplog_matches f) (operational_logs d))))))))"

definition oplog_sweep :: "int \<Rightarrow> db \<Rightarrow> (repo_error + nat) \<times> db" where
  "oplog_sweep cutoff d =
    (if db_down d then (Inl Sqlx, d)
     else (Inr (count_where (\<lambda>r. ol_ts_ms r < cutoff) (operational_logs d)),
           d\<lparr>operational_logs := filter (\<lambda>r. \<not> ol_ts_ms r < cutoff) (operational_logs d)\<rparr>))"

section \<open>Emitter\<close>

record log_event =
  le_level :: log_level
  le_component :: log_component
  le_event :: string
  le_message :: string
  le_fields :: "json option"

definition DEFAULT_CAPACITY :: nat where
  "DEFAULT_CAPACITY = 1024"

record emitter =
  em_queue :: "log_event list"
  em_capacity :: nat
  em_dropped :: u64
  em_closed :: bool

definition emitter_new :: "nat \<Rightarrow> emitter" where
  "emitter_new capacity =
    \<lparr>em_queue = [], em_capacity = max capacity 1, em_dropped = 0, em_closed = False\<rparr>"

definition emit :: "log_event \<Rightarrow> emitter \<Rightarrow> emitter" where
  "emit ev em =
    (if em_closed em then em
     else if length (em_queue em) < em_capacity em then em\<lparr>em_queue := em_queue em @ [ev]\<rparr>
     else em\<lparr>em_dropped := em_dropped em + 1\<rparr>)"

text \<open>One turn of the drain loop: a failed insert is logged and the record is gone.\<close>

definition drain_one :: "int \<Rightarrow> emitter \<Rightarrow> db \<Rightarrow> emitter \<times> db" where
  "drain_one now em d =
    (case em_queue em of
       [] \<Rightarrow> (em, d)
     | ev # q \<Rightarrow> (em\<lparr>em_queue := q\<rparr>,
         snd (oplog_insert now (le_level ev) (le_component ev) (le_event ev) (le_message ev) (le_fields ev) d)))"

section \<open>Audit rows read back\<close>

lemma parse_event_class_as_str [simp]: "parse_event_class (event_class_as_str c) = Inr c"
  by (cases c) (simp_all add: parse_event_class_def)

lemma parse_decision_as_str [simp]: "parse_decision (decision_as_str c) = Inr c"
  by (cases c) (simp_all add: parse_decision_def)

lemma event_class_as_str_inj [simp]: "event_class_as_str a = event_class_as_str b \<longleftrightarrow> a = b"
  by (cases a; cases b) simp_all

lemma decision_as_str_inj [simp]: "decision_as_str a = decision_as_str b \<longleftrightarrow> a = b"
  by (cases a; cases b) simp_all

lemma log_level_parse_as_str [simp]: "log_level_parse (log_level_as_str l) = Some l"
  by (cases l) (simp_all add: log_level_parse_def)

lemma log_component_parse_as_str [simp]: "log_component_parse (log_component_as_str c) = Some c"
  by (cases c) (simp_all add: log_component_parse_def)

lemma u16_try_from_uint [simp]: "u16_try_from (uint w) = Some w"
  using uint_bounded [of w] by (simp add: u16_try_from_def)

lemma into_event_to_row: "into_event n (event_to_row i e) = Inr (e\<lparr>ae_agent_name := n\<rparr>)"
  by (cases "ae_status e"; cases "ae_latency_ms e"; cases "ae_details e")
    (simp_all add: into_event_def event_to_row_def u64_as_i64_def)

text \<open>What every write of the audit table establishes: each row is the row of some event.\<close>

definition row_event :: "audit_row \<Rightarrow> audit_event" where
  "row_event r = (case into_event None r of Inr e \<Rightarrow> e | Inl _ \<Rightarrow> default_event)"

definition audit_wf :: "db \<Rightarrow> bool" where
  "audit_wf d \<longleftrightarrow> list_all (\<lambda>r. r = event_to_row (au_id r) (row_event r)) (audit d)"

lemma event_to_row_id [simp]: "au_id (event_to_row i e) = i"
  by (simp add: event_to_row_def)

lemma row_event_to_row [simp]: "row_event (event_to_row i e) = e\<lparr>ae_agent_name := None\<rparr>"
  by (simp add: row_event_def into_event_to_row)

lemma event_to_row_agent_name [simp]: "event_to_row i (e\<lparr>ae_agent_name := n\<rparr>) = event_to_row i e"
  by (simp add: event_to_row_def)

lemma audit_wf_record: "audit_wf d \<Longrightarrow> audit_wf (fst (snd (audit_record s e d)))"
  by (simp add: audit_wf_def audit_record_def)

lemma audit_wf_sweep: "audit_wf d \<Longrightarrow> audit_wf (snd (sweep_older_than c d))"
  by (auto simp: audit_wf_def sweep_older_than_def list_all_iff)

lemma into_event_wf:
  assumes "r = event_to_row (au_id r) (row_event r)"
  shows "into_event n r = Inr ((row_event r)\<lparr>ae_agent_name := n\<rparr>)"
  by (subst assms) (simp add: into_event_to_row)

section \<open>Queries\<close>

definition selected_events :: "audit_filter \<Rightarrow> db \<Rightarrow> audit_event list" where
  "selected_events f d =
    map (\<lambda>r. (row_event r)\<lparr>ae_agent_name := agent_name_of d (au_agent_public_id r)\<rparr>) (audit_selected f d)"

lemma in_audit_selected [simp]: "set (audit_selected f d) = {r \<in> set (audit d). audit_matches f r}"
  by (auto simp: audit_selected_def)

lemma audit_query_wf:
  assumes "audit_wf d" and "\<not> db_down d"
  shows "audit_query f p d = Inr (take (pg_limit p) (drop (pg_offset p) (selected_events f d)))"
proof -
  let ?rs = "take (pg_limit p) (drop (pg_offset p) (audit_selected f d))"
  have "map (\<lambda>r. into_event (agent_name_of d (au_agent_public_id r)) r) ?rs =
      map (\<lambda>r. Inr ((row_event r)\<lparr>ae_agent_name := agent_name_of d (au_agent_public_id r)\<rparr>)) ?rs"
  proof (rule map_cong [OF refl])
    fix r assume "r \<in> set ?rs"
    then have "r \<in> set (audit d)"
      by (auto dest!: in_set_takeD in_set_dropD)
    then show "into_event (agent_name_of d (au_agent_public_id r)) r =
        Inr ((row_event r)\<lparr>ae_agent_name := agent_name_of d (au_agent_public_id r)\<rparr>)"
      using assms(1) by (intro into_event_wf) (simp add: audit_wf_def list_all_iff)
  qed
  then have "collect_results (map (\<lambda>r. into_event (agent_name_of d (au_agent_public_id r)) r) ?rs) =
      Inr (map (\<lambda>r. (row_event r)\<lparr>ae_agent_name := agent_name_of d (au_agent_public_id r)\<rparr>) ?rs)"
    by (simp only: collect_results_map_Inr)
  then show ?thesis
    using assms(2) by (simp add: audit_query_def selected_events_def take_map drop_map)
qed

lemma row_event_ts: "r = event_to_row (au_id r) (row_event r) \<Longrightarrow> ae_ts_ms (row_event r) = au_ts r"
proof -
  assume "r = event_to_row (au_id r) (row_event r)"
  then have "au_ts r = au_ts (event_to_row (au_id r) (row_event r))"
    by (rule arg_cong)
  then show ?thesis
    by (simp add: event_to_row_def)
qed

lemma concat_pages: "concat (map (\<lambda>k. take n (drop (k * n) xs)) [0..<m]) = take (m * n) xs"
proof (induction m)
  case (Suc m)
  have "take (Suc m * n) xs = take (m * n + n) xs"
    by (simp add: add.commute)
  also have "\<dots> = take (m * n) xs @ take n (drop (m * n) xs)"
    by (rule take_add)
  finally show ?case
    using Suc by simp
qed simp

text \<open>Audit queries on a table written by this code never fail while the database is up, and page
  without gaps or overlaps: consecutive pages are consecutive slices of one list that has exactly one
  event per matching row, newest first.\<close>

theorem audit_query_pages:
  assumes "audit_wf d" and "\<not> db_down d"
  shows "(\<forall>k. audit_query f \<lparr>pg_limit = n, pg_offset = k * n\<rparr> d
            = Inr (take n (drop (k * n) (selected_events f d))))
    \<and> concat (map (\<lambda>k. take n (drop (k * n) (selected_events f d))) [0..<m])
        = take (m * n) (selected_events f d)
    \<and> length (selected_events f d) = count_where (audit_matches f) (audit d)
    \<and> sorted_wrt (\<lambda>a b. ae_ts_ms b \<le> ae_ts_ms a) (selected_events f d)"
proof (intro conjI allI)
  show "audit_query f \<lparr>pg_limit = n, pg_offset = k * n\<rparr> d
      = Inr (take n (drop (k * n) (selected_events f d)))" for k
    by (simp add: audit_query_wf assms)
  show "concat (map (\<lambda>k. take n (drop (k * n) (selected_events f d))) [0..<m])
      = take (m * n) (selected_events f d)"
    by (rule concat_pages)
  show "length (selected_events f d) = count_where (audit_matches f) (audit d)"
    by (simp add: selected_events_def audit_selected_def count_where_def)
  have ts: "ae_ts_ms (row_event r) = au_ts r" if "r \<in> set (audit_selected f d)" for r
    using assms(1) that by (intro row_event_ts) (auto simp: audit_wf_def list_all_iff)
  have "sorted (map (\<lambda>r. - au_ts r) (audit_selected f d))"
    unfolding audit_selected_def by (rule sorted_sort_key)
  then have "sorted_wrt (\<lambda>a b. - au_ts a \<le> - au_ts b) (audit_selected f d)"
    by (simp only: sorted_map)
  then have "sorted_wrt (\<lambda>a b. ae_ts_ms (row_event b) \<le> ae_ts_ms (row_event a)) (audit_selected f d)"
    by (rule sorted_wrt_mono_rel [rotated]) (simp add: ts)
  then show "sorted_wrt (\<lambda>a b. ae_ts_ms b \<le> ae_ts_ms a) (selected_events f d)"
    by (simp add: selected_events_def sorted_wrt_map)
qed

definition any_filter :: audit_filter where
  "any_filter = \<lparr>af_since_ms = None, af_until_ms = None, af_agent_public_id = None, af_tool = None,
     af_event_class = None, af_decision = None\<rparr>"

definition demo_event :: audit_event where
  "demo_event = default_event\<lparr>ae_ts_ms := 5, ae_event := ''proxy_request'', ae_status := Some 200\<rparr>"

definition demo_audit_db :: db where
  "demo_audit_db = fst (snd (audit_record False demo_event empty_db))"

lemma demo_audit_wf: "audit_wf demo_audit_db \<and> \<not> db_down demo_audit_db"
  by (simp add: demo_audit_db_def audit_record_def audit_wf_def empty_db_def)

theorem audit_query_pages_witness:
  "audit_query any_filter \<lparr>pg_limit = 1, pg_offset = 0\<rparr> demo_audit_db = Inr (take 1 (selected_events any_filter demo_audit_db))
   \<and> length (selected_events any_filter demo_audit_db) = 1"
proof -
  have "count_where (audit_matches any_filter) (audit demo_audit_db) = 1"
    by (simp add: demo_audit_db_def audit_record_def empty_db_def count_where_def audit_matches_def
        any_filter_def opt_all_def)
  then show ?thesis
    using audit_query_pages [of demo_audit_db any_filter 1 1] demo_audit_wf
    by (auto dest: spec [of _ 0])
qed

definition event_matches :: "audit_filter \<Rightarrow> audit_event \<Rightarrow> bool" where
  "event_matches f e \<longleftrightarrow>
     opt_all (af_since_ms f) (\<lambda>v. v \<le> ae_ts_ms e) \<and> opt_all (af_until_ms f) (\<lambda>v. ae_ts_ms e < v)
   \<and> opt_all (af_agent_public_id f) (\<lambda>v. ae_agent_public_id e = Some v)
   \<and> opt_all (af_tool f) (\<lambda>v. ae_tool e = Some v)
   \<and> opt_all (af_event_class f) (\<lambda>v. ae_event_class e = v)
   \<and> opt_all (af_decision f) (\<lambda>v. ae_decision e = v)"

lemma audit_matches_event: "audit_matches f (event_to_row i e) = event_matches f e"
  by (auto simp: audit_matches_def event_matches_def event_to_row_def opt_all_def split: option.splits)

text \<open>A recorded event can be read back: a query whose filter it satisfies, with a page that reaches
  the end of the table, returns it with all its fields (the agent's current name filled in), and the
  mirror sink receives it exactly when one is attached and the insert succeeded.\<close>

theorem audit_record_query:
  assumes "audit_wf d" and "audit_record s e d = (Inr (), d', mirrored)" and "event_matches f e"
  shows "\<exists>evs. audit_query f \<lparr>pg_limit = length (audit d'), pg_offset = 0\<rparr> d' = Inr evs
      \<and> e\<lparr>ae_agent_name := agent_name_of d' (ae_agent_public_id e)\<rparr> \<in> set evs
      \<and> mirrored = (if s then [e] else [])"
proof -
  have wf: "audit_wf d'" and up: "\<not> db_down d'"
    and row: "event_to_row (next_audit_id d) e \<in> set (audit d')"
    and mir: "mirrored = (if s then [e] else [])"
    using assms(1,2) audit_wf_record [of d s e] by (auto simp: audit_record_def split: if_splits)
  let ?r = "event_to_row (next_audit_id d) e"
  have "length (selected_events f d') \<le> length (audit d')"
    by (simp add: selected_events_def audit_selected_def)
  then have q: "audit_query f \<lparr>pg_limit = length (audit d'), pg_offset = 0\<rparr> d' = Inr (selected_events f d')"
    using wf up by (simp add: audit_query_wf)
  have "?r \<in> set (audit_selected f d')"
    using row assms(3) by (simp add: audit_matches_event)
  then have "(row_event ?r)\<lparr>ae_agent_name := agent_name_of d' (au_agent_public_id ?r)\<rparr> \<in> set (selected_events f d')"
    unfolding selected_events_def by (simp only: set_map image_iff) blast
  then have "e\<lparr>ae_agent_name := agent_name_of d' (ae_agent_public_id e)\<rparr> \<in> set (selected_events f d')"
    by (simp add: event_to_row_def [of "next_audit_id d" e, THEN arg_cong, of au_agent_public_id])
  with q mir show ?thesis
    by blast
qed

theorem audit_record_query_witness:
  "\<exists>evs. audit_query any_filter \<lparr>pg_limit = 1, pg_offset = 0\<rparr> demo_audit_db = Inr evs
     \<and> demo_event\<lparr>ae_agent_name := None\<rparr> \<in> set evs"
proof -
  have r: "audit_record False demo_event empty_db = (Inr (), demo_audit_db, [])"
    by (simp add: demo_audit_db_def audit_record_def empty_db_def)
  have m: "event_matches any_filter demo_event"
    by (simp add: event_matches_def any_filter_def opt_all_def)
  have "audit_wf empty_db" "length (audit demo_audit_db) = 1"
    "agent_name_of demo_audit_db (ae_agent_public_id demo_event) = None"
    by (simp_all add: audit_wf_def empty_db_def demo_audit_db_def audit_record_def agent_name_of_def
        demo_event_def default_event_def)
  then show ?thesis
    using audit_record_query [OF _ r m] by auto
qed

section \<open>Retention\<close>

lemma agent_name_of_audit [simp]: "agent_name_of (d\<lparr>audit := rs\<rparr>) = agent_name_of d"
  by (simp add: agent_name_of_def fun_eq_iff split: option.split)

text \<open>The retention sweep of the audit table removes exactly the rows older than the cutoff: afterwards
  none is older, a second sweep removes nothing, queries from the cutoff on give the same answer as
  before, and no other table changes.\<close>

theorem audit_sweep_exact:
  assumes "\<not> db_down d" and "af_since_ms f = Some t" and "cutoff \<le> t"
  shows "audit_query f p (snd (sweep_older_than cutoff d)) = audit_query f p d
    \<and> fst (sweep_older_than cutoff (snd (sweep_older_than cutoff d))) = Inr 0
    \<and> snd (sweep_older_than cutoff d) = d\<lparr>audit := filter (\<lambda>r. cutoff \<le> au_ts r) (audit d)\<rparr>"
proof (intro conjI)
  have f: "filter (audit_matches f) (filter (\<lambda>r. \<not> au_ts r < cutoff) (audit d))
      = filter (audit_matches f) (audit d)"
    using assms(2,3) by (auto simp: audit_matches_def opt_all_def intro!: filter_cong)
  then show "audit_query f p (snd (sweep_older_than cutoff d)) = audit_query f p d"
    using assms(1)
    by (simp add: audit_query_def sweep_older_than_def audit_selected_def del: filter_filter)
  show "fst (sweep_older_than cutoff (snd (sweep_older_than cutoff d))) = Inr 0"
    using assms(1) by (simp add: sweep_older_than_def count_where_def)
  show "snd (sweep_older_than cutoff d) = d\<lparr>audit := filter (\<lambda>r. cutoff \<le> au_ts r) (audit d)\<rparr>"
    using assms(1) by (simp add: sweep_older_than_def not_less)
qed

theorem audit_sweep_exact_witness:
  "fst (sweep_older_than 6 (snd (sweep_older_than 6 demo_audit_db))) = Inr 0"
  by (rule audit_sweep_exact [of demo_audit_db "any_filter\<lparr>af_since_ms := Some 6\<rparr>" 6 6,
        THEN conjunct2, THEN conjunct1]) (use demo_audit_wf in simp_all)

section \<open>The emitter never blocks and never grows\<close>

datatype emitter_op = OpEmit log_event | OpDrain int

fun emitter_exec :: "emitter_op list \<Rightarrow> emitter \<times> db \<Rightarrow> emitter \<times> db" where
  "emitter_exec [] s = s"
| "emitter_exec (OpEmit ev # ops) (em, d) = emitter_exec ops (emit ev em, d)"
| "emitter_exec (OpDrain now # ops) (em, d) = emitter_exec ops (drain_one now em d)"

fun is_emit :: "emitter_op \<Rightarrow> bool" where
  "is_emit (OpEmit _) = True"
| "is_emit (OpDrain _) = False"

lemma emitter_exec_bounds:
  assumes "emitter_exec ops (em, d) = (em', d')" and "\<not> em_closed em" and "\<not> db_down d"
    and "length (em_queue em) \<le> em_capacity em"
    and "unat (em_dropped em) + length (filter is_emit ops) < 2 ^ 64"
  shows "\<not> em_closed em' \<and> em_capacity em' = em_capacity em \<and> length (em_queue em') \<le> em_capacity em
    \<and> length (filter is_emit ops) + length (em_queue em) + length (operational_logs d) + unat (em_dropped em)
       = length (em_queue em') + length (operational_logs d') + unat (em_dropped em')"
  using assms
proof (induction ops "(em, d)" arbitrary: em d rule: emitter_exec.induct)
  case (2 ev ops em d)
  have inc: "unat (em_dropped em + 1) = unat (em_dropped em) + 1"
    using "2.prems"(5) by (simp add: unat_word_ariths)
  show ?case
    using "2.hyps" "2.prems" inc by (fastforce simp: emit_def split: if_splits)
next
  case (3 now ops em d)
  show ?case
  proof (cases "em_queue em")
    case Nil
    then show ?thesis
      using "3.hyps" "3.prems" by (simp add: drain_one_def)
  next
    case (Cons ev q)
    then show ?thesis
      using "3.hyps" "3.prems" by (fastforce simp: drain_one_def oplog_insert_def)
  qed
qed auto

text \<open>The operational-log emitter: whatever the interleaving of emits and drains, the queue never
  exceeds its capacity and no record is lost silently: every emitted record is in the queue, in the
  table, or counted as dropped (while fewer than $2^{64}$ records are emitted and the store is up).\<close>

theorem emitter_accounts:
  assumes "emitter_exec ops (emitter_new cap, d) = (em', d')" and "\<not> db_down d"
    and "length (filter is_emit ops) < 2 ^ 64"
  shows "length (em_queue em') \<le> max cap 1
    \<and> length (operational_logs d) + length (filter is_emit ops)
       = length (em_queue em') + length (operational_logs d') + unat (em_dropped em')"
  using emitter_exec_bounds [OF assms(1) _ assms(2)] assms(3) by (simp add: emitter_new_def)

theorem emitter_accounts_witness:
  "let ev = \<lparr>le_level = Warn, le_component = CompProxy, le_event = ''a'', le_message = ''b'', le_fields = None\<rparr>;
       (em', d') = emitter_exec [OpEmit ev, OpEmit ev, OpDrain 7, OpEmit ev] (emitter_new 0, empty_db)
   in length (em_queue em') = 1 \<and> length (operational_logs d') = 1 \<and> em_dropped em' = 1
      \<and> length (em_queue em') \<le> max 0 1"
proof -
  let ?ev = "\<lparr>le_level = Warn, le_component = CompProxy, le_event = ''a'', le_message = ''b'', le_fields = None\<rparr> :: log_event"
  let ?ops = "[OpEmit ?ev, OpEmit ?ev, OpDrain 7, OpEmit ?ev]"
  obtain em' d' where e: "emitter_exec ?ops (emitter_new 0, empty_db) = (em', d')"
    by force
  have "length (em_queue em') = 1" "length (operational_logs d') = 1" "em_dropped em' = 1"
    using e by (auto simp: emitter_new_def emit_def drain_one_def oplog_insert_def empty_db_def)
  then show ?thesis
    using e emitter_accounts [OF e] by (simp add: empty_db_def)
qed

end
