(* ===== verification/AuditSink.thy ===== *)
theory AuditSink
  imports AuditLog
begin

text \<open>
  \<open>audit_sink.rs\<close>: the JSONL mirror of the audit stream with its daily and size-based rotation, and
  the calendar computation behind the file names.  The file system is a list of files with contents
  and modification times; whether an open or a write succeeds is an input of each call, as is the
  clock.  The JSON printer is a parameter.
\<close>

section \<open>Calendar\<close>

text \<open>Seconds since the epoch to a civil date, on unbounded integers up to the final cast to a 32-bit year.
  Rust's \<open>/\<close> truncates; every dividend but the first branch's is non-negative, where truncation and
  floor agree, and the negative branch divides \<open>z - 146096\<close> as the source does.\<close>

definition trunc_div :: "int \<Rightarrow> int \<Rightarrow> int" where
  "trunc_div a b = (if 0 \<le> a then a div b else - ((- a) div b))"

definition era_of_days :: "int \<Rightarrow> int" where
  "era_of_days z = (if 0 \<le> z then trunc_div z 146097 else trunc_div (z - 146096) 146097)"

definition ymd_from_unix_secs :: "int \<Rightarrow> int \<times> int \<times> int" where
  "ymd_from_unix_secs secs =
    (let days = secs div 86400;
         z = days + 719468;
         era = era_of_days z;
         doe = z - era * 146097;
         yoe = (doe - doe div 1460 + doe div 36524 - doe div 146096) div 365;
         y = yoe + era * 400;
         doy = doe - (365 * yoe + yoe div 4 - yoe div 100);
         mp = (5 * doy + 2) div 153;
         d = doy - (153 * mp + 2) div 5 + 1;
         m = (if mp < 10 then mp + 3 else mp - 9);
         year = sint (word_of_int (y + (if m \<le> 2 then 1 else 0)) :: 32 word)
     in (year, m, d))"

fun dec_digits :: "nat \<Rightarrow> string" where
  "dec_digits n = (if n < 10 then [char_of (48 + n)] else dec_digits (n div 10) @ [char_of (48 + n mod 10)])"

declare dec_digits.simps [simp del]

definition pad_dec :: "nat \<Rightarrow> int \<Rightarrow> string" where
  "pad_dec w n =
    (if 0 \<le> n then let s = dec_digits (nat n) in replicate (w - length s) (CHR ''0'') @ s
     else let s = dec_digits (nat (- n)) in CHR ''-'' # replicate (w - 1 - length s) (CHR ''0'') @ s)"

definition utc_date :: "int \<Rightarrow> string" where
  "utc_date secs = (case ymd_from_unix_secs secs of
     (y, m, d) \<Rightarrow> pad_dec 4 y @ ''-'' @ pad_dec 2 m @ ''-'' @ pad_dec 2 d)"

section \<open>Files and rotation\<close>

record sink_cfg =
  cfg_stem :: string
  cfg_max_bytes :: u64
  cfg_keep_files :: nat

record fs_file =
  fs_name :: string
  fs_content :: string
  fs_mtime :: int

record sink_state =
  sk_file :: "string option"
  sk_written :: u64
  sk_today :: string

record sink_env =
  env_secs :: int
  env_open_ok :: bool
  env_write_ok :: bool

definition serialize :: "(json \<Rightarrow> string) \<Rightarrow> audit_event \<Rightarrow> string" where
  "serialize print e = print (JObj (foldr (\<lambda>(k, v) m. bt_insert k v m)
     [(''ts_ms'', JNum (ae_ts_ms e)), (''event_class'', JStr (event_class_as_str (ae_event_class e))),
      (''event'', JStr (ae_event e)), (''agent_public_id'', jopt JStr (ae_agent_public_id e)),
      (''operator_name'', jopt JStr (ae_operator_name e)), (''tool'', jopt JStr (ae_tool e)),
      (''upstream_host'', jopt JStr (ae_upstream_host e)), (''method'', jopt JStr (ae_method e)),
      (''path'', jopt JStr (ae_path e)), (''status'', jopt (\<lambda>s. JNum (uint s)) (ae_status e)),
      (''latency_ms'', jopt (\<lambda>l. JNum (uint l)) (ae_latency_ms e)),
      (''decision'', JStr (decision_as_str (ae_decision e))),
      (''auth_method'', jopt JStr (ae_auth_method e)), (''origin_ip'', jopt JStr (ae_origin_ip e)),
      (''details'', jopt id (ae_details e))] [])) @ [CHR 10]"

definition file_exists :: "string \<Rightarrow> fs_file list \<Rightarrow> bool" where
  "file_exists n fs = list_ex (\<lambda>f. fs_name f = n) fs"

definition file_size :: "string \<Rightarrow> fs_file list \<Rightarrow> nat" where
  "file_size n fs = (case find (\<lambda>f. fs_name f = n) fs of Some f \<Rightarrow> length (fs_content f) | None \<Rightarrow> 0)"

definition open_append :: "int \<Rightarrow> string \<Rightarrow> fs_file list \<Rightarrow> fs_file list" where
  "open_append now n fs =
    (if file_exists n fs then fs else fs @ [\<lparr>fs_name = n, fs_content = [], fs_mtime = now\<rparr>])"

definition write_all :: "int \<Rightarrow> string \<Rightarrow> string \<Rightarrow> fs_file list \<Rightarrow> fs_file list" where
  "write_all now n bytes fs =
    update_where (\<lambda>f. fs_name f = n) (\<lambda>f. f\<lparr>fs_content := fs_content f @ bytes, fs_mtime := now\<rparr>) fs"

definition active_path :: "string \<Rightarrow> string \<Rightarrow> string" where
  "active_path stem today = stem @ ''.'' @ today"

definition overflow_path :: "string \<Rightarrow> string \<Rightarrow> nat \<Rightarrow> string" where
  "overflow_path stem today i = stem @ ''.'' @ today @ ''.'' @ dec_digits i"

fun walk_overflow :: "nat \<Rightarrow> nat \<Rightarrow> string \<Rightarrow> string \<Rightarrow> fs_file list \<Rightarrow> string option" where
  "walk_overflow 0 i stem today fs = None"
| "walk_overflow (Suc n) i stem today fs =
    (if \<not> file_exists (overflow_path stem today i) fs then Some (overflow_path stem today i)
     else walk_overflow n (Suc i) stem today fs)"

definition next_target :: "string \<Rightarrow> string \<Rightarrow> fs_file list \<Rightarrow> string" where
  "next_target stem today fs =
    (if \<not> file_exists (active_path stem today) fs then active_path stem today
     else case walk_overflow 10000 1 stem today fs of
            Some p \<Rightarrow> p | None \<Rightarrow> active_path stem today)"

definition prune_oldest :: "string \<Rightarrow> nat \<Rightarrow> fs_file list \<Rightarrow> fs_file list" where
  "prune_oldest stem keep_files fs =
    (if keep_files = 0 then fs
     else let files = filter (\<lambda>f. starts_with stem (fs_name f)) fs in
       if length files \<le> keep_files then fs
       else let gone = map fs_name (take (length files - keep_files) (sort_key fs_mtime files))
            in filter (\<lambda>f. fs_name f \<notin> set gone) fs)"

definition rotate_to :: "sink_cfg \<Rightarrow> sink_env \<Rightarrow> string \<Rightarrow> fs_file list \<Rightarrow> sink_state \<times> fs_file list" where
  "rotate_to cfg env today fs =
    (let candidate = next_target (cfg_stem cfg) today fs;
         (st, fs1) =
           (if env_open_ok env
            then let fs1 = open_append (env_secs env) candidate fs
                 in (\<lparr>sk_file = Some candidate, sk_written = of_nat (file_size candidate fs1),
                      sk_today = today\<rparr>, fs1)
            else (\<lparr>sk_file = None, sk_written = 0, sk_today = today\<rparr>, fs))
     in (st, prune_oldest (cfg_stem cfg) (cfg_keep_files cfg) fs1))"

definition over_cap :: "sink_cfg \<Rightarrow> sink_state \<Rightarrow> string \<Rightarrow> bool" where
  "over_cap cfg st line \<longleftrightarrow>
     u64_saturating_add (sk_written st) (of_nat (length line)) > cfg_max_bytes cfg \<and> sk_written st > 0"

definition sink_append ::
    "sink_cfg \<Rightarrow> sink_env \<Rightarrow> string \<Rightarrow> sink_state \<times> fs_file list \<Rightarrow> sink_state \<times> fs_file list" where
  "sink_append cfg env line s0 =
    (let today = utc_date (env_secs env);
         s1 = (if today \<noteq> sk_today (fst s0) then rotate_to cfg env today (snd s0) else s0);
         s2 = (if over_cap cfg (fst s1) line then rotate_to cfg env today (snd s1) else s1)
     in case sk_file (fst s2) of
          None \<Rightarrow> s2
        | Some n \<Rightarrow>
            if env_write_ok env
            then ((fst s2)\<lparr>sk_written := u64_saturating_add (sk_written (fst s2)) (of_nat (length line))\<rparr>,
                  write_all (env_secs env) n line (snd s2))
            else ((fst s2)\<lparr>sk_file := None\<rparr>, snd s2))"

section \<open>The calendar is the Gregorian calendar\<close>

text \<open>Reference: the calendar rules, as the successor of a date.\<close>

definition is_leap :: "int \<Rightarrow> bool" where
  "is_leap y \<longleftrightarrow> y mod 4 = 0 \<and> (y mod 100 \<noteq> 0 \<or> y mod 400 = 0)"

definition days_in_month :: "int \<Rightarrow> int \<Rightarrow> int" where
  "days_in_month y m =
    (if m = 2 then (if is_leap y then 29 else 28)
     else if m = 4 \<or> m = 6 \<or> m = 9 \<or> m = 11 then 30 else 31)"

definition next_date :: "int \<times> int \<times> int \<Rightarrow> int \<times> int \<times> int" where
  "next_date = (\<lambda>(y, m, d).
     if d < days_in_month y m then (y, m, d + 1)
     else if m = 12 then (y + 1, 1, 1) else (y, m + 1, 1))"

text \<open>The pieces of the computation: years of a 400-year era starting on the first of March.\<close>

definition yoe_sum :: "int \<Rightarrow> int" where
  "yoe_sum doe = doe - doe div 1460 + doe div 36524 - doe div 146096"

definition year_start :: "int \<Rightarrow> int" where
  "year_start y = 365 * y + y div 4 - y div 100"

definition year_end :: "int \<Rightarrow> int" where
  "year_end y = (if y = 399 then 146096 else year_start (y + 1) - 1)"

definition month_day :: "int \<Rightarrow> int \<times> int" where
  "month_day doy =
    (let mp = (5 * doy + 2) div 153
     in (if mp < 10 then mp + 3 else mp - 9, doy - (153 * mp + 2) div 5 + 1))"

lemma era_of_days_floor: "era_of_days z = z div 146097"
proof (cases "0 \<le> z")
  case False
  define q r where "q = z div 146097" and "r = z mod 146097"
  have z: "z = 146097 * q + r" and r: "0 \<le> r" "r < 146097"
    by (simp_all add: q_def r_def)
  have "(146096 - z) div 146097 = - q"
    by (rule int_div_pos_eq [of _ _ _ "146096 - r"]) (use z r in auto)
  then show ?thesis
    using False by (simp add: era_of_days_def trunc_div_def q_def)
qed (simp add: era_of_days_def trunc_div_def)

lemma yoe_sum_step:
  assumes "0 \<le> n" and "n < 146096"
  shows "yoe_sum n \<le> yoe_sum (n + 1)"
proof (cases "n = 146095")
  case True
  then show ?thesis
    by (simp add: yoe_sum_def)
next
  case False
  then have z: "(n + 1) div 146096 = 0" "n div 146096 = 0"
    using assms by (auto intro: div_pos_pos_trivial)
  have "(n + 1) div 1460 \<le> (n + 1460) div 1460"
    by (rule zdiv_mono1) simp_all
  then have a: "(n + 1) div 1460 \<le> n div 1460 + 1"
    by (simp only: div_add_self2 [of 1460 n, simplified])
  have b: "n div 36524 \<le> (n + 1) div 36524"
    by (rule zdiv_mono1) simp_all
  have "n - x + y - 0 \<le> n + 1 - x' + y' - 0" if "x' \<le> x + 1" "y \<le> y'" for x x' y y' :: int
    using that by linarith
  from this [OF a b] show ?thesis
    unfolding yoe_sum_def z .
qed

lemma yoe_sum_mono:
  assumes "0 \<le> a" and "a \<le> b" and "b \<le> 146096"
  shows "yoe_sum a \<le> yoe_sum b"
  using assms(2,3)
proof (induction b rule: int_ge_induct)
  case (step i)
  then show ?case
    using yoe_sum_step [of i] assms(1) by linarith
qed simp

lemma year_table:
  "list_all (\<lambda>y. 365 * y \<le> yoe_sum (year_start y) \<and> yoe_sum (year_end y) < 365 * (y + 1)
     \<and> year_end y - year_start y = (if is_leap (y + 1) then 365 else 364)) [0..399]"
  by code_simp

lemma month_table:
  "list_all (\<lambda>k. month_day (k + 1) = (case month_day k of (m, d) \<Rightarrow>
       if d < days_in_month 0 m then (m, d + 1) else (if m = 12 then 1 else m + 1, 1))
     \<and> (fst (month_day k) \<le> 2 \<longleftrightarrow> 306 \<le> k) \<and> (fst (month_day k) = 12 \<longleftrightarrow> 275 \<le> k \<and> k \<le> 305)
     \<and> (fst (month_day k) = 2 \<longrightarrow> 337 \<le> k)
     \<and> (fst (month_day k) = 2 \<longrightarrow> snd (month_day k) = k - 336)) [0..364]"
  by code_simp

lemma year_facts:
  assumes "0 \<le> y" and "y < 400"
  shows "365 * y \<le> yoe_sum (year_start y)" and "yoe_sum (year_end y) < 365 * (y + 1)"
    and "year_end y - year_start y = (if is_leap (y + 1) then 365 else 364)"
  using year_table assms by (simp_all add: list_all_iff)

lemma month_facts:
  assumes "0 \<le> k" and "k < 365"
  shows "month_day (k + 1) = (case month_day k of (m, d) \<Rightarrow>
       if d < days_in_month 0 m then (m, d + 1) else (if m = 12 then 1 else m + 1, 1))"
    and "fst (month_day k) \<le> 2 \<longleftrightarrow> 306 \<le> k" and "fst (month_day k) = 12 \<longleftrightarrow> 275 \<le> k \<and> k \<le> 305"
    and "fst (month_day k) = 2 \<Longrightarrow> 337 \<le> k \<and> snd (month_day k) = k - 336"
  using month_table assms by (simp_all add: list_all_iff)

lemma year_bounds:
  assumes "0 \<le> y" and "y < 400"
  shows "0 \<le> year_start y" and "year_end y \<le> 146096"
proof -
  have mono: "year_start a \<le> year_start b" if "0 \<le> a" "a \<le> b" "b \<le> 400" for a b
    using that(2,3)
  proof (induction b rule: int_ge_induct)
    case (step i)
    then have "year_start i \<le> year_start (i + 1)"
      using year_facts(3) [of i] that(1) by (auto simp: year_end_def year_start_def split: if_splits)
    then show ?case
      using step by linarith
  qed simp
  show "0 \<le> year_start y"
    using mono [of 0 y] assms by (simp add: year_start_def)
  have "year_start 400 = 146096"
    by (simp add: year_start_def)
  then show "year_end y \<le> 146096"
    using mono [of "y + 1" 400] assms by (auto simp: year_end_def)
qed

text \<open>The year of the era is the one whose span contains the day.\<close>

lemma yoe_unique:
  assumes "0 \<le> y" and "y < 400" and "year_start y \<le> doe" and "doe \<le> year_end y"
  shows "yoe_sum doe div 365 = y"
proof -
  have "yoe_sum (year_start y) \<le> yoe_sum doe" "yoe_sum doe \<le> yoe_sum (year_end y)"
    using assms year_bounds [OF assms(1,2)] by (auto intro!: yoe_sum_mono)
  then have "365 * y \<le> yoe_sum doe" "yoe_sum doe < 365 * (y + 1)"
    using year_facts [OF assms(1,2)] by linarith+
  then show ?thesis
    by (intro int_div_pos_eq [of _ _ _ "yoe_sum doe - 365 * y"]) simp_all
qed

lemma yoe_exists:
  assumes "0 \<le> doe" and "doe \<le> 146096"
  obtains y where "0 \<le> y" "y < 400" "year_start y \<le> doe" "doe \<le> year_end y"
proof -
  define P where "P n \<longleftrightarrow> doe \<le> year_end (int n)" for n :: nat
  have "P 399"
    using assms by (simp add: P_def year_end_def)
  define n where "n = (LEAST n. P n)"
  have P: "P n" and le: "n \<le> 399"
    using \<open>P 399\<close> by (auto simp: n_def intro: LeastI Least_le)
  have "year_start (int n) \<le> doe"
  proof (cases n)
    case 0
    then show ?thesis
      using assms by (simp add: year_start_def)
  next
    case (Suc k)
    then have "\<not> P k"
      unfolding n_def by (metis lessI not_less_Least)
    moreover have "int k \<noteq> 399"
      using Suc le by simp
    ultimately show ?thesis
      using Suc by (simp add: P_def year_end_def add.commute)
  qed
  then show thesis
    using P le by (intro that [of "int n"]) (simp_all add: P_def)
qed

text \<open>The computation in terms of the day number, the era and the pieces above.\<close>

definition civil_of_day :: "int \<Rightarrow> int \<times> int \<times> int" where
  "civil_of_day z =
    (let doe = z mod 146097; y = yoe_sum doe div 365; md = month_day (doe - year_start y)
     in (y + z div 146097 * 400 + (if fst md \<le> 2 then 1 else 0), fst md, snd md))"

lemma ymd_civil:
  "ymd_from_unix_secs secs =
    (case civil_of_day (secs div 86400 + 719468) of (y, m, d) \<Rightarrow> (sint (word_of_int y :: 32 word), m, d))"
  by (simp only: ymd_from_unix_secs_def civil_of_day_def era_of_days_floor minus_div_mult_eq_mod Let_def
      yoe_sum_def year_start_def month_day_def fst_conv snd_conv prod.case)

lemma civil_of_day_in_year:
  assumes "0 \<le> y" and "y < 400" and "0 \<le> k" and "year_start y + k \<le> year_end y"
  shows "civil_of_day (era * 146097 + (year_start y + k)) =
    (y + era * 400 + (if fst (month_day k) \<le> 2 then 1 else 0), fst (month_day k), snd (month_day k))"
proof -
  have doe: "0 \<le> year_start y + k" "year_start y + k < 146097"
    using assms year_bounds [OF assms(1,2)] by linarith+
  then have "(era * 146097 + (year_start y + k)) mod 146097 = year_start y + k"
    "(era * 146097 + (year_start y + k)) div 146097 = era"
    by (simp_all add: mod_pos_pos_trivial div_pos_pos_trivial)
  moreover have "yoe_sum (year_start y + k) div 365 = y"
    using assms by (intro yoe_unique) simp_all
  ultimately show ?thesis
    by (simp add: civil_of_day_def Let_def)
qed

lemma is_leap_era: "is_leap (y + era * 400) = is_leap y"
proof -
  have "(y + era * 400) mod 400 = y mod 400"
    by simp
  moreover have "(y + era * 400) mod 100 = y mod 100"
    using mod_mult_self1 [of y "era * 4" 100] by (simp add: mult.commute mult.left_commute)
  moreover have "(y + era * 400) mod 4 = y mod 4"
    using mod_mult_self1 [of y "era * 100" 4] by (simp add: mult.commute mult.left_commute)
  ultimately show ?thesis
    by (simp add: is_leap_def)
qed

lemma days_in_month_not_feb: "m \<noteq> 2 \<Longrightarrow> days_in_month y m = days_in_month 0 m"
  by (simp add: days_in_month_def)

lemma month_day_ends: "month_day 0 = (3, 1)" "month_day 364 = (2, 28)" "month_day 365 = (2, 29)"
  by (simp_all add: month_day_def Let_def)

lemma next_in_year:
  assumes "0 \<le> y" and "y < 400" and "0 \<le> k" and "year_start y + k < year_end y"
  shows "(y + era * 400 + (if fst (month_day (k + 1)) \<le> 2 then 1 else 0), fst (month_day (k + 1)), snd (month_day (k + 1)))
    = next_date (y + era * 400 + (if fst (month_day k) \<le> 2 then 1 else 0), fst (month_day k), snd (month_day k))"
proof -
  have len: "year_end y - year_start y = (if is_leap (y + 1) then 365 else 364)"
    using year_facts(3) [OF assms(1,2)] .
  then have k: "k < 365" and feb: "k = 364 \<Longrightarrow> is_leap (y + 1)"
    using assms(4) by (auto split: if_splits)
  obtain m d where md: "month_day k = (m, d)"
    by fastforce
  note mf = month_facts [OF assms(3) k, unfolded md, simplified]
  have lt: "m \<le> 2 \<longleftrightarrow> 306 \<le> k"
    using mf(2) .
  have step: "month_day (k + 1) = (if d < days_in_month 0 m then (m, d + 1) else (if m = 12 then 1 else m + 1, 1))"
    using mf(1) .
  have nxt: "fst (month_day (k + 1)) \<le> 2 \<longleftrightarrow> 306 \<le> k + 1"
  proof (cases "k = 364")
    case False
    then show ?thesis
      using month_facts(2) [of "k + 1"] assms(3) k by simp
  qed (simp add: month_day_ends)
  show ?thesis
  proof (cases "m = 2")
    case True
    then have "d = k - 336" "337 \<le> k"
      using mf(4) by simp_all
    then have "d < 29"
      using k by simp
    have "is_leap 0"
      by (simp add: is_leap_def)
    then have "month_day (k + 1) = (2, d + 1)"
      using step True \<open>d < 29\<close> by (simp add: days_in_month_def)
    moreover have "d < days_in_month (y + era * 400 + 1) 2"
      using \<open>d < 29\<close> \<open>d = k - 336\<close> feb is_leap_era [of "y + 1" era]
      by (cases "k = 364") (auto simp: days_in_month_def algebra_simps)
    ultimately show ?thesis
      using md True by (simp add: next_date_def)
  next
    case False
    note dm = days_in_month_not_feb [OF False]
    show ?thesis
    proof (cases "d < days_in_month 0 m")
      case True
      then have "month_day (k + 1) = (m, d + 1)"
        using step by simp
      then show ?thesis
        using md dm [of "y + era * 400"] dm [of "y + era * 400 + 1"] True by (auto simp: next_date_def)
    next
      case nd: False
      then have s: "month_day (k + 1) = (if m = 12 then 1 else m + 1, 1)"
        using step by simp
      then show ?thesis
        using md dm [of "y + era * 400"] dm [of "y + era * 400 + 1"] nd nxt lt mf(3)
        by (auto simp: next_date_def split: if_splits)
    qed
  qed
qed

lemma civil_step: "civil_of_day (z + 1) = next_date (civil_of_day z)"
proof -
  define era doe where "era = z div 146097" and "doe = z mod 146097"
  have z: "z = era * 146097 + doe" and doe: "0 \<le> doe" "doe \<le> 146096"
    by (simp_all add: era_def doe_def zle_diff1_eq [symmetric])
  obtain y where y: "0 \<le> y" "y < 400" "year_start y \<le> doe" "doe \<le> year_end y"
    using yoe_exists [OF doe] .
  define k where "k = doe - year_start y"
  have doe_k: "doe = year_start y + k" and k: "0 \<le> k"
    using y(3) by (simp_all add: k_def)
  have this_day: "civil_of_day z = (y + era * 400 + (if fst (month_day k) \<le> 2 then 1 else 0),
      fst (month_day k), snd (month_day k))"
    unfolding z doe_k using y k doe_k by (intro civil_of_day_in_year) simp_all
  show ?thesis
  proof (cases "doe < year_end y")
    case True
    have "civil_of_day (z + 1) = civil_of_day (era * 146097 + (year_start y + (k + 1)))"
      by (simp add: z doe_k add.assoc)
    also have "\<dots> = (y + era * 400 + (if fst (month_day (k + 1)) \<le> 2 then 1 else 0),
        fst (month_day (k + 1)), snd (month_day (k + 1)))"
      using y(1,2) k True doe_k by (intro civil_of_day_in_year) simp_all
    also have "\<dots> = next_date (civil_of_day z)"
      unfolding this_day using y(1,2) k True doe_k by (intro next_in_year) simp_all
    finally show ?thesis .
  next
    case False
    then have last: "doe = year_end y"
      using y(4) by simp
    have len: "k = (if is_leap (y + 1) then 365 else 364)"
      using year_facts(3) [OF y(1,2)] last by (simp add: k_def)
    have leap: "is_leap (y + era * 400 + 1) = is_leap (y + 1)"
      using is_leap_era [of "y + 1" era] by (simp add: algebra_simps)
    have nd: "next_date (civil_of_day z) = (y + era * 400 + 1, 3, 1)"
      unfolding this_day by (simp add: len month_day_ends next_date_def days_in_month_def leap)
    show ?thesis
    proof (cases "y = 399")
      case True
      then have "z + 1 = (era + 1) * 146097 + (year_start 0 + 0)"
        using z last by (simp add: year_end_def year_start_def)
      moreover have "civil_of_day ((era + 1) * 146097 + (year_start 0 + 0)) = (0 + (era + 1) * 400 + 0, 3, 1)"
        using civil_of_day_in_year [of 0 0 "era + 1"] by (simp add: year_end_def year_start_def month_day_ends)
      ultimately show ?thesis
        using nd True by (simp add: algebra_simps)
    next
      case ne: False
      then have "z + 1 = era * 146097 + (year_start (y + 1) + 0)"
        using z last by (simp add: year_end_def)
      moreover have "year_start (y + 1) + 0 \<le> year_end (y + 1)"
        using year_facts(3) [of "y + 1"] y(1,2) ne by (simp split: if_splits)
      ultimately show ?thesis
        using nd civil_of_day_in_year [of "y + 1" 0 era] y(1,2) ne by (simp add: month_day_ends algebra_simps)
    qed
  qed
qed

lemma civil_year_bound:
  assumes "- 500000000000 \<le> z" and "z \<le> 500000000000"
  shows "- (2 ^ 31) \<le> fst (civil_of_day z)" and "fst (civil_of_day z) < 2 ^ 31"
proof -
  have doe: "0 \<le> z mod 146097" "z mod 146097 \<le> 146096"
    by (simp_all add: zle_diff1_eq [symmetric])
  obtain y where y: "0 \<le> y" "y < 400" "year_start y \<le> z mod 146097" "z mod 146097 \<le> year_end y"
    using yoe_exists [OF doe] .
  then have yoe: "yoe_sum (z mod 146097) div 365 = y"
    by (rule yoe_unique)
  have "(- 500000000000) div 146097 \<le> z div 146097" "z div 146097 \<le> 500000000000 div 146097"
    using assms by (auto intro: zdiv_mono1)
  then have era: "- 3422384 \<le> z div 146097" "z div 146097 \<le> 3422383"
    by simp_all
  show "- (2 ^ 31) \<le> fst (civil_of_day z)" and "fst (civil_of_day z) < 2 ^ 31"
    using y(1,2) era by (simp_all add: civil_of_day_def Let_def yoe)
qed

lemma sint32: "- (2 ^ 31) \<le> y \<Longrightarrow> y < 2 ^ 31 \<Longrightarrow> sint (word_of_int y :: 32 word) = y"
  by (simp add: sint_uint unsigned_of_int signed_take_bit_take_bit signed_take_bit_int_eq_self)

lemma ymd_civil_bounded:
  assumes "- (2 ^ 55) \<le> secs" and "secs \<le> 2 ^ 55"
  shows "ymd_from_unix_secs secs = civil_of_day (secs div 86400 + 719468)"
proof -
  let ?z = "secs div 86400 + 719468"
  have "(- (2 ^ 55)) div 86400 \<le> secs div 86400" "secs div 86400 \<le> 2 ^ 55 div 86400"
    using assms by (auto intro: zdiv_mono1)
  then have "- 500000000000 \<le> ?z" "?z \<le> 500000000000"
    by simp_all
  from sint32 [OF civil_year_bound [OF this]] show ?thesis
    by (auto simp: ymd_civil split: prod.split)
qed

text \<open>The date computation is the Gregorian calendar: second 0 falls on 1970-01-01, all seconds of a
  UTC day give the same date, and one day later is the calendar successor, for every time within
  $2^{55}$ seconds of the epoch, before or after it, leap days and centuries included.\<close>

theorem utc_calendar:
  assumes "- (2 ^ 55) \<le> secs" and "secs + 86400 \<le> 2 ^ 55"
  shows "ymd_from_unix_secs 0 = (1970, 1, 1)
    \<and> ymd_from_unix_secs (secs + 86400) = next_date (ymd_from_unix_secs secs)
    \<and> ymd_from_unix_secs secs = ymd_from_unix_secs (secs div 86400 * 86400)"
proof (intro conjI)
  show "ymd_from_unix_secs 0 = (1970, 1, 1)"
    by code_simp
  have a: "ymd_from_unix_secs (secs + 86400) = civil_of_day ((secs + 86400) div 86400 + 719468)"
    by (rule ymd_civil_bounded) (use assms in linarith)+
  have b: "ymd_from_unix_secs secs = civil_of_day (secs div 86400 + 719468)"
    by (rule ymd_civil_bounded) (use assms in linarith)+
  have c: "(secs + 86400) div 86400 = secs div 86400 + 1"
    by (rule div_add_self2) simp
  have d: "x + 1 + 719468 = (x + 719468) + 1" for x :: int
    by simp
  show "ymd_from_unix_secs (secs + 86400) = next_date (ymd_from_unix_secs secs)"
    unfolding a b c d by (rule civil_step)
  have e: "secs div 86400 * 86400 div 86400 = secs div 86400"
    by (rule nonzero_mult_div_cancel_right) simp
  show "ymd_from_unix_secs secs = ymd_from_unix_secs (secs div 86400 * 86400)"
    unfolding ymd_civil e ..
qed

theorem utc_calendar_witness:
  "ymd_from_unix_secs (1709164800 + 86400) = next_date (ymd_from_unix_secs 1709164800)
   \<and> ymd_from_unix_secs 1709164800 = (2024, 2, 29)"
proof -
  have "ymd_from_unix_secs (1709164800 + 86400) = next_date (ymd_from_unix_secs 1709164800)"
    by (rule utc_calendar [THEN conjunct2, THEN conjunct1]) simp_all
  moreover have "ymd_from_unix_secs 1709164800 = (2024, 2, 29)"
    by code_simp
  ultimately show ?thesis
    by blast
qed

section \<open>The sink after an I/O error\<close>

text \<open>A sink without an open file stays without one, and drops every line, until the UTC day changes or
  a line would cross the size cap of the file that failed.\<close>

lemma append_without_file:
  assumes "sk_file st = None" and "sk_today st = utc_date (env_secs env)" and "\<not> over_cap cfg st line"
  shows "sink_append cfg env line (st, fs) = (st, fs)"
  using assms by (simp add: sink_append_def Let_def)

fun sink_appends ::
    "sink_cfg \<Rightarrow> (sink_env \<times> string) list \<Rightarrow> sink_state \<times> fs_file list \<Rightarrow> sink_state \<times> fs_file list" where
  "sink_appends cfg [] s = s"
| "sink_appends cfg ((env, line) # es) s = sink_appends cfg es (sink_append cfg env line s)"

text \<open>After one failed write the mirror is silent for the rest of the UTC day: although every later
  open and write would succeed, no line appended on the same day reaches a file as long as the lines
  stay within the size cap.  (The doc comment of \<open>append\<close> promises recovery at the next tick.)\<close>

theorem sink_no_recovery_same_day:
  assumes "sk_file st = Some n" and "sk_today st = utc_date (env_secs env)" and "\<not> over_cap cfg st line"
    and "\<not> env_write_ok env"
    and "list_all (\<lambda>(e, l). utc_date (env_secs e) = sk_today st \<and> \<not> over_cap cfg st l) later"
  shows "snd (sink_appends cfg later (sink_append cfg env line (st, fs))) = fs"
proof -
  let ?st = "st\<lparr>sk_file := None\<rparr>"
  have first: "sink_append cfg env line (st, fs) = (?st, fs)"
    using assms(1-4) by (simp add: sink_append_def Let_def)
  have "sink_appends cfg later (?st, fs) = (?st, fs)"
    using assms(5)
  proof (induction later)
    case (Cons x later)
    obtain e l where x: "x = (e, l)"
      by fastforce
    have "sink_append cfg e l (?st, fs) = (?st, fs)"
      using Cons.prems x by (intro append_without_file) (simp_all add: over_cap_def)
    then show ?case
      using Cons x by simp
  qed simp
  then show ?thesis
    by (simp add: first)
qed

theorem sink_no_recovery_same_day_witness:
  "let cfg = \<lparr>cfg_stem = ''audit.jsonl'', cfg_max_bytes = 1000, cfg_keep_files = 14\<rparr>;
       st = \<lparr>sk_file = Some ''f'', sk_written = 0, sk_today = utc_date 0\<rparr>;
       bad = \<lparr>env_secs = 0, env_open_ok = True, env_write_ok = False\<rparr>;
       good = \<lparr>env_secs = 0, env_open_ok = True, env_write_ok = True\<rparr>;
       fs = [\<lparr>fs_name = ''f'', fs_content = [], fs_mtime = 0\<rparr>]
   in snd (sink_appends cfg [(good, ''b''), (good, ''c'')] (sink_append cfg bad ''a'' (st, fs))) = fs"
proof -
  let ?cfg = "\<lparr>cfg_stem = ''audit.jsonl'', cfg_max_bytes = 1000, cfg_keep_files = 14\<rparr> :: sink_cfg"
  let ?st = "\<lparr>sk_file = Some ''f'', sk_written = 0, sk_today = utc_date 0\<rparr> :: sink_state"
  let ?bad = "\<lparr>env_secs = 0, env_open_ok = True, env_write_ok = False\<rparr> :: sink_env"
  show ?thesis
    unfolding Let_def by (rule sink_no_recovery_same_day [of ?st "''f''" ?bad ?cfg])
      (simp_all add: over_cap_def)
qed

end
