(* ===== verification/Config.thy ===== *)
theory Config
  imports Store
begin

text \<open>
  \<open>config.rs\<close> and \<open>deprecation.rs\<close>: the configuration types with their defaults, the textual
  expansion of environment variables, the rewriting of deprecated fields, the validation of response
  controls and the pipeline that composes them.  The environment is a parameter, as are the YAML
  parser, the derived deserializer and the regex compiler.  A \<open>serde_yaml\<close> mapping is the
  association list of its entries; it is only read by key, so the position a removal or an insertion
  gives an entry is not observable.
\<close>

section \<open>Configuration types\<close>

datatype auth_mode = ModeBearer | ModeMtls | ModeBoth

record redaction_pattern_config =
  rp_id :: string
  rp_regex :: string
  rp_replacement :: "string option"

record response_controls_config =
  rcc_max_size_bytes :: "u64 option"
  rcc_content_type_allowlist :: "string list option"
  rcc_redaction_patterns :: "redaction_pattern_config list"

record tool_auth_config =
  ta_header :: string
  ta_value :: secret_ref

record tool_config =
  tc_name :: string
  tc_description :: string
  tc_upstream :: string
  tc_egress :: egress_mode
  tc_auth :: "tool_auth_config option"
  tc_timeouts :: tool_timeouts
  tc_body_limit_bytes :: u64
  tc_response :: "response_controls_config option"

record mtls_config =
  mt_ca_bundle_path :: string
  mt_server_cert_path :: "string option"
  mt_server_key_path :: "string option"
  mt_crl_url :: "string option"
  mt_crl_refresh_interval_seconds :: u64
  mt_blocklist_path :: "string option"
  mt_blocklist_reload_interval_seconds :: u64

record admin_https_config =
  ah_enabled :: bool
  ah_host :: string
  ah_port :: "16 word"
  ah_cert_path :: string
  ah_key_path :: string
  ah_auth_mode :: auth_mode
  ah_mtls_ca_bundle_path :: "string option"

record bootstrap_only_config =
  bo_enabled :: bool
  bo_host :: string
  bo_port :: "16 word"
  bo_cert_path :: string
  bo_key_path :: string

record listen_config =
  ln_host :: string
  ln_port :: "16 word"
  ln_admin_socket :: "string option"
  ln_admin_https :: "admin_https_config option"
  ln_auth_mode :: auth_mode
  ln_mtls :: "mtls_config option"
  ln_bootstrap_only :: "bootstrap_only_config option"

record inbound_auth_config =
  ia_mode :: string
  ia_token :: "string option"

record logging_config =
  lg_level :: string
  lg_file :: "string option"

record audit_config =
  ac_retention_days :: "32 word"
  ac_sweep_interval_seconds :: u64
  ac_jsonl_path :: "string option"
  ac_jsonl_max_bytes :: u64
  ac_jsonl_keep_files :: nat

record operational_log_config =
  oc_retention_days :: "32 word"
  oc_sweep_interval_seconds :: u64

record credential_store_config =
  ccs_tombstone_retention_days :: "32 word"
  ccs_orphan_grace_seconds :: u64
  ccs_sweep_interval_seconds :: u64

record app_config =
  cf_listen :: listen_config
  cf_inbound_auth :: "inbound_auth_config option"
  cf_egress_proxy :: "string option"
  cf_upstream_ca_bundle :: "string option option"
  cf_logging :: "logging_config option"
  cf_drain_window_seconds :: u64
  cf_tools :: "tool_config list"
  cf_operator_credentials_path :: "string option"
  cf_database_path :: "string option"
  cf_audit :: "audit_config option"
  cf_operational_log :: "operational_log_config option"
  cf_credential_store :: "credential_store_config option"

definition default_audit_config :: audit_config where
  "default_audit_config =
    \<lparr>ac_retention_days = 90, ac_sweep_interval_seconds = 3600, ac_jsonl_path = None,
     ac_jsonl_max_bytes = 100 * 1024 * 1024, ac_jsonl_keep_files = 14\<rparr>"

definition default_operational_log_config :: operational_log_config where
  "default_operational_log_config = \<lparr>oc_retention_days = 30, oc_sweep_interval_seconds = 3600\<rparr>"

definition default_credential_store_config :: credential_store_config where
  "default_credential_store_config =
    \<lparr>ccs_tombstone_retention_days = 7, ccs_orphan_grace_seconds = 3600,
     ccs_sweep_interval_seconds = 3600\<rparr>"

definition default_body_limit :: u64 where
  "default_body_limit = 10 * 1024 * 1024"

definition active_tools :: "app_config \<Rightarrow> tool_config list" where
  "active_tools cfg =
    filter (\<lambda>t. case tc_auth t of Some auth \<Rightarrow> looks_present (ta_value auth) | None \<Rightarrow> True)
      (cf_tools cfg)"

definition active_tools_against :: "app_config \<Rightarrow> (string \<rightharpoonup> string) \<Rightarrow> tool_config list" where
  "active_tools_against cfg resolved =
    filter (\<lambda>t. case tc_auth t of Some _ \<Rightarrow> resolved (tc_name t) \<noteq> None | None \<Rightarrow> True)
      (cf_tools cfg)"

section \<open>Expansion of environment variables\<close>

text \<open>One round of the \<open>while let\<close> loop: the first \<open>$\<close>\<open>{\<close>, the first closing brace after
  it, and the value of the variable between them spliced in; \<open>None\<close> is the loop's exit.  The search
  restarts at the beginning of the spliced text, so the loop need not end.\<close>

definition expand_step :: "(string \<Rightarrow> string option) \<Rightarrow> string \<Rightarrow> string option" where
  "expand_step env s =
    (case split_once_str ''${'' s of
       None \<Rightarrow> None
     | Some (before, rest) \<Rightarrow>
         (case split_once (CHR ''}'') rest of
            None \<Rightarrow> None
          | Some (var_name, after) \<Rightarrow>
              Some (before @ (case env var_name of Some value \<Rightarrow> value | None \<Rightarrow> []) @ after)))"

partial_function (option) expand_env_vars :: "(string \<Rightarrow> string option) \<Rightarrow> string \<Rightarrow> string option" where
  "expand_env_vars env s =
    (case expand_step env s of None \<Rightarrow> Some s | Some s' \<Rightarrow> expand_env_vars env s')"

declare expand_env_vars.simps [code]

section \<open>Deprecated fields\<close>

datatype deprecation_disposition = Renamed string | Deprecated | Removed

record deprecation_entry =
  de_field_path :: string
  de_disposition :: deprecation_disposition
  de_since_version :: string
  de_removal_target :: "string option"

record deprecation_registry =
  dr_entries :: "deprecation_entry list"
  dr_warned_once :: "string list"

definition registry_new :: "deprecation_entry list \<Rightarrow> deprecation_registry" where
  "registry_new es = \<lparr>dr_entries = es, dr_warned_once = []\<rparr>"

definition registry_lookup :: "deprecation_registry \<Rightarrow> string \<Rightarrow> deprecation_entry option" where
  "registry_lookup R path = find (\<lambda>e. de_field_path e = path) (dr_entries R)"

definition notice :: "string \<Rightarrow> deprecation_registry \<Rightarrow> bool \<times> deprecation_registry" where
  "notice path R =
    (if registry_lookup R path = None then (False, R)
     else if path \<in> set (dr_warned_once R) then (False, R)
     else (True, R\<lparr>dr_warned_once := path # dr_warned_once R\<rparr>))"

definition default_registry :: deprecation_registry where
  "default_registry = registry_new
    [\<lparr>de_field_path = ''tools[].cloud'', de_disposition = Renamed ''tools[].egress'',
      de_since_version = ''0.2.0'', de_removal_target = Some ''0.3.0''\<rparr>,
     \<lparr>de_field_path = ''telemetry'', de_disposition = Removed,
      de_since_version = ''0.2.0'', de_removal_target = None\<rparr>,
     \<lparr>de_field_path = ''tools[].timeout_seconds'',
      de_disposition = Renamed ''tools[].timeouts.request_seconds'',
      de_since_version = ''0.2.0'', de_removal_target = Some ''0.3.0''\<rparr>,
     \<lparr>de_field_path = ''inbound_auth.token'', de_disposition = Deprecated,
      de_since_version = ''2.0.0'', de_removal_target = None\<rparr>]"

text \<open>The warnings a run prints are the entries, in order; the state of the loader is the registry
  with them.\<close>

type_synonym loader_state = "deprecation_registry \<times> deprecation_entry list"

definition emit_deprecation :: "string \<Rightarrow> loader_state \<Rightarrow> loader_state" where
  "emit_deprecation path st =
    (let (first, R) = notice path (fst st) in
     if \<not> first then (R, snd st)
     else case registry_lookup R path of
       None \<Rightarrow> (R, snd st)
     | Some e \<Rightarrow> (R, snd st @ [e]))"

definition emit_inbound_auth_token_runtime_deprecation ::
    "bool \<Rightarrow> bool \<Rightarrow> loader_state \<Rightarrow> loader_state" where
  "emit_inbound_auth_token_runtime_deprecation admin_substrate_enabled token_set st =
    (if \<not> (admin_substrate_enabled \<and> token_set) then st
     else emit_deprecation ''inbound_auth.token'' st)"

datatype yaml =
    YNull
  | YBool bool
  | YNum string
  | YStr string
  | YSeq "yaml list"
  | YMap "(yaml \<times> yaml) list"
  | YTagged string yaml

type_synonym ymapping = "(yaml \<times> yaml) list"

definition y_remove :: "yaml \<Rightarrow> ymapping \<Rightarrow> ymapping" where
  "y_remove k m = filter (\<lambda>(a, b). a \<noteq> k) m"

fun y_insert :: "yaml \<Rightarrow> yaml \<Rightarrow> ymapping \<Rightarrow> ymapping" where
  "y_insert k v [] = [(k, v)]"
| "y_insert k v ((a, b) # m) = (if a = k then (k, v) # m else (a, b) # y_insert k v m)"

definition translate_cloud :: "ymapping \<Rightarrow> loader_state \<Rightarrow> ymapping \<times> loader_state" where
  "translate_cloud m st =
    (case map_of m (YStr ''cloud'') of
       None \<Rightarrow> (m, st)
     | Some cloud_val \<Rightarrow>
         let m' = y_remove (YStr ''cloud'') m;
             st' = emit_deprecation ''tools[].cloud'' st
         in if map_of m' (YStr ''egress'') \<noteq> None then (m', st')
            else (y_insert (YStr ''egress'')
                    (YStr (if cloud_val = YBool True then ''proxied'' else ''direct'')) m', st'))"

definition translate_timeout_seconds :: "ymapping \<Rightarrow> loader_state \<Rightarrow> ymapping \<times> loader_state" where
  "translate_timeout_seconds m st =
    (case map_of m (YStr ''timeout_seconds'') of
       None \<Rightarrow> (m, st)
     | Some legacy_val \<Rightarrow>
         let m' = y_remove (YStr ''timeout_seconds'') m;
             st' = emit_deprecation ''tools[].timeout_seconds'' st
         in case map_of m' (YStr ''timeouts'') of
              None \<Rightarrow> (y_insert (YStr ''timeouts'')
                         (YMap (y_insert (YStr ''request_seconds'') legacy_val [])) m', st')
            | Some (YMap existing) \<Rightarrow>
                if map_of existing (YStr ''request_seconds'') \<noteq> None then (m', st')
                else (y_insert (YStr ''timeouts'')
                        (YMap (y_insert (YStr ''request_seconds'') legacy_val existing)) m', st')
            | Some _ \<Rightarrow> (m', st'))"

fun deprecate_tools :: "yaml list \<Rightarrow> loader_state \<Rightarrow> yaml list \<times> loader_state" where
  "deprecate_tools [] st = ([], st)"
| "deprecate_tools (YMap m # ts) st =
    (let (m1, st1) = translate_cloud m st;
         (m2, st2) = translate_timeout_seconds m1 st1;
         (ts', st3) = deprecate_tools ts st2
     in (YMap m2 # ts', st3))"
| "deprecate_tools (t # ts) st = (let (ts', st') = deprecate_tools ts st in (t # ts', st'))"

definition apply_deprecations :: "yaml \<Rightarrow> loader_state \<Rightarrow> yaml \<times> loader_state" where
  "apply_deprecations v st =
    (case v of
       YMap doc \<Rightarrow>
         let (doc1, st1) =
               (if map_of doc (YStr ''telemetry'') \<noteq> None
                then (y_remove (YStr ''telemetry'') doc, emit_deprecation ''telemetry'' st)
                else (doc, st))
         in (case map_of doc1 (YStr ''tools'') of
               Some (YSeq tools) \<Rightarrow>
                 let (tools', st2) = deprecate_tools tools st1
                 in (YMap (y_insert (YStr ''tools'') (YSeq tools') doc1), st2)
             | _ \<Rightarrow> (YMap doc1, st1))
     | _ \<Rightarrow> (v, st))"

section \<open>Loading\<close>

datatype config_error =
    YamlError string
  | DuplicatePattern string string
  | RegexCompile string string

fun check_patterns ::
    "(string \<Rightarrow> bool) \<Rightarrow> string \<Rightarrow> string list \<Rightarrow> redaction_pattern_config list \<Rightarrow> config_error + unit" where
  "check_patterns regex_ok tool seen [] = Inr ()"
| "check_patterns regex_ok tool seen (p # ps) =
    (if rp_id p \<in> set seen then Inl (DuplicatePattern tool (rp_id p))
     else if \<not> regex_ok (rp_regex p) then Inl (RegexCompile tool (rp_id p))
     else check_patterns regex_ok tool (rp_id p # seen) ps)"

fun validate_tools :: "(string \<Rightarrow> bool) \<Rightarrow> tool_config list \<Rightarrow> config_error + unit" where
  "validate_tools regex_ok [] = Inr ()"
| "validate_tools regex_ok (t # ts) =
    (case tc_response t of
       None \<Rightarrow> validate_tools regex_ok ts
     | Some rc \<Rightarrow>
         (case check_patterns regex_ok (tc_name t) [] (rcc_redaction_patterns rc) of
            Inl e \<Rightarrow> Inl e
          | Inr _ \<Rightarrow> validate_tools regex_ok ts))"

definition validate_response_controls :: "(string \<Rightarrow> bool) \<Rightarrow> app_config \<Rightarrow> config_error + unit" where
  "validate_response_controls regex_ok cfg = validate_tools regex_ok (cf_tools cfg)"

record yaml_lib =
  yl_from_str :: "string \<Rightarrow> string + yaml"
  yl_from_value :: "yaml \<Rightarrow> string + app_config"

definition parse_with_registry ::
    "yaml_lib \<Rightarrow> (string \<Rightarrow> bool) \<Rightarrow> string \<Rightarrow> loader_state \<Rightarrow> (config_error + app_config) \<times> loader_state" where
  "parse_with_registry Y regex_ok text st =
    (case yl_from_str Y text of
       Inl e \<Rightarrow> (Inl (YamlError e), st)
     | Inr v \<Rightarrow>
         let (v', st') = apply_deprecations v st in
         (case yl_from_value Y v' of
            Inl e \<Rightarrow> (Inl (YamlError e), st')
          | Inr cfg \<Rightarrow>
              (case validate_response_controls regex_ok cfg of
                 Inl e \<Rightarrow> (Inl e, st')
               | Inr _ \<Rightarrow> (Inr cfg, st'))))"

definition parse_config_str ::
    "yaml_lib \<Rightarrow> (string \<Rightarrow> bool) \<Rightarrow> (string \<Rightarrow> string option) \<Rightarrow> string
       \<Rightarrow> ((config_error + app_config) \<times> loader_state) option" where
  "parse_config_str Y regex_ok env raw =
    map_option (\<lambda>expanded. parse_with_registry Y regex_ok expanded (default_registry, []))
      (expand_env_vars env raw)"

section \<open>Lemmas on the expansion\<close>

lemma expand_step_SomeE:
  assumes "expand_step env s = Some s'"
  obtains a v b where "s = a @ ''${'' @ v @ ''}'' @ b" and "CHR ''}'' \<notin> set v"
    and "s' = a @ (case env v of Some w \<Rightarrow> w | None \<Rightarrow> []) @ b"
proof -
  from assms obtain a rest v b where 1: "split_once_str ''${'' s = Some (a, rest)"
    and 2: "split_once (CHR ''}'') rest = Some (v, b)"
    and 3: "s' = a @ (case env v of Some w \<Rightarrow> w | None \<Rightarrow> []) @ b"
    by (auto simp: expand_step_def split: option.splits)
  from split_once_str_SomeD [OF 1] split_once_SomeD [OF 2]
  have "s = a @ ''${'' @ v @ ''}'' @ b" and "CHR ''}'' \<notin> set v" by simp_all
  with 3 that show thesis by blast
qed

lemma split_once_str_placeholder:
  "CHR ''$'' \<notin> set a \<Longrightarrow> split_once_str ''${'' (a @ CHR ''$'' # CHR ''{'' # r) = Some (a, r)"
  by (induction a) (auto simp: starts_with_def)

lemma expand_step_first:
  assumes "CHR ''$'' \<notin> set a" and "CHR ''}'' \<notin> set v"
  shows "expand_step env (a @ ''${'' @ v @ ''}'' @ b) = Some (a @ (case env v of Some w \<Rightarrow> w | None \<Rightarrow> []) @ b)"
  using assms by (simp add: expand_step_def split_once_str_placeholder split_once_append)

lemma split_once_str_first:
  assumes "split_once_str p s = Some (a', r)" and "s = a @ p @ b"
  shows "length a' \<le> length a"
  using assms
proof (induction s arbitrary: a a' r)
  case Nil
  then show ?case by (auto split: if_splits)
next
  case (Cons c s)
  show ?case
  proof (cases a)
    case Nil
    with Cons.prems have "starts_with p (c # s)" by simp
    with Cons.prems(1) show ?thesis by simp
  next
    case (Cons x xs)
    with Cons.prems Cons.IH [of _ _ xs] show ?thesis by (auto split: if_splits)
  qed
qed

text \<open>A round removes the placeholder's own \<open>$\<close>, so when no value contributes another one
  the loop ends.\<close>

lemma expand_step_decreases:
  assumes "expand_step env s = Some s'" and "\<forall>v w. env v = Some w \<longrightarrow> CHR ''$'' \<notin> set w"
  shows "count_list s' (CHR ''$'') < count_list s (CHR ''$'')"
proof -
  from assms(1) obtain a v b where s: "s = a @ ''${'' @ v @ ''}'' @ b"
    and s': "s' = a @ (case env v of Some w \<Rightarrow> w | None \<Rightarrow> []) @ b"
    by (rule expand_step_SomeE)
  have "count_list (case env v of Some w \<Rightarrow> w | None \<Rightarrow> []) (CHR ''$'') = 0"
    using assms(2) by (auto split: option.splits)
  then show ?thesis by (simp add: s s')
qed

lemma expand_env_vars_returns:
  assumes "\<forall>v w. env v = Some w \<longrightarrow> CHR ''$'' \<notin> set w"
  shows "\<exists>y. expand_env_vars env s = Some y"
proof (induction "count_list s (CHR ''$'')" arbitrary: s rule: less_induct)
  case less
  then show ?case
    using expand_step_decreases [OF _ assms, of s]
    by (cases "expand_step env s") (auto simp: expand_env_vars.simps [of env s])
qed

lemma expand_env_vars_done: "expand_env_vars env s = Some y \<Longrightarrow> expand_step env y = None"
  by (rule expand_env_vars.raw_induct [where P = "\<lambda>env s y. expand_step env y = None"])
    (auto split: option.splits)

lemma expand_step_None_iff:
  "expand_step env y = None \<longleftrightarrow> \<not> (\<exists>a v b. y = a @ ''${'' @ v @ ''}'' @ b)"
proof
  assume n: "expand_step env y = None"
  show "\<not> (\<exists>a v b. y = a @ ''${'' @ v @ ''}'' @ b)"
  proof
    assume "\<exists>a v b. y = a @ ''${'' @ v @ ''}'' @ b"
    then obtain a v b where y: "y = a @ ''${'' @ v @ ''}'' @ b" by blast
    then have "str_contains ''${'' y" unfolding str_contains_iff by (metis append_assoc)
    then obtain a' r where 1: "split_once_str ''${'' y = Some (a', r)"
      using split_once_str_eq_None_iff by (cases "split_once_str ''${'' y") force+
    have r: "r = drop (length a' + 2) y" using split_once_str_SomeD [OF 1] by simp
    have "length a' \<le> length a" using split_once_str_first [OF 1] y by simp
    then have "set (drop (length a + 2) y) \<subseteq> set r"
      unfolding r by (intro set_drop_subset_set_drop) simp
    then have "CHR ''}'' \<in> set r" by (simp add: y)
    with n 1 show False by (auto simp: expand_step_def split_once_eq_None_iff split: option.splits)
  qed
next
  assume "\<not> (\<exists>a v b. y = a @ ''${'' @ v @ ''}'' @ b)"
  then show "expand_step env y = None" by (cases "expand_step env y") (blast elim: expand_step_SomeE)+
qed

lemma expand_env_vars_no_placeholder: "\<not> str_contains ''${'' s \<Longrightarrow> expand_env_vars env s = Some s"
  by (simp add: expand_env_vars.simps [of env s] expand_step_def split_once_str_eq_None_iff [symmetric])

lemma expand_env_vars_splice:
  assumes "CHR ''$'' \<notin> set a" and "CHR ''}'' \<notin> set v"
  shows "expand_env_vars env (a @ ''${'' @ v @ ''}'' @ b)
    = expand_env_vars env (a @ (case env v of Some w \<Rightarrow> w | None \<Rightarrow> []) @ b)"
  using expand_step_first [OF assms, of env b]
  by (subst expand_env_vars.simps) simp

text \<open>C35. Expansion of \<open>$\<close>\<open>{VAR}\<close> in the configuration text returns whenever no variable's value
  contains a dollar sign, and then no complete placeholder is left: a remaining \<open>$\<close>\<open>{\<close> has no
  closing brace after it.\<close>

theorem expand_env_vars_total:
  assumes "\<forall>v w. env v = Some w \<longrightarrow> CHR ''$'' \<notin> set w"
  shows "\<exists>y. expand_env_vars env s = Some y \<and> \<not> (\<exists>a v b. y = a @ ''${'' @ v @ ''}'' @ b)"
proof -
  from expand_env_vars_returns [OF assms] obtain y where y: "expand_env_vars env s = Some y" by blast
  from expand_env_vars_done [OF y] have "\<not> (\<exists>a v b. y = a @ ''${'' @ v @ ''}'' @ b)"
    by (simp only: expand_step_None_iff not_False_eq_True)
  with y show ?thesis by blast
qed

text \<open>A variable whose value refers back to itself makes the loader hang: if the value of \<open>v\<close>
  contains \<open>$\<close>\<open>{v}\<close> as its first placeholder, expansion of a text whose first placeholder is
  \<open>$\<close>\<open>{v}\<close> never returns.\<close>

theorem expand_env_vars_diverges:
  assumes "env v = Some (p @ ''${'' @ v @ ''}'' @ q)" and "CHR ''$'' \<notin> set p" and "CHR ''}'' \<notin> set v"
    and "CHR ''$'' \<notin> set a"
  shows "expand_env_vars env (a @ ''${'' @ v @ ''}'' @ b) = None"
proof -
  let ?H = "\<lambda>s. \<exists>a b. CHR ''$'' \<notin> set a \<and> s = a @ ''${'' @ v @ ''}'' @ b"
  have "\<not> ?H s" if "expand_env_vars env s = Some y" for s y
  proof -
    have "env = env \<longrightarrow> \<not> ?H s"
    proof (rule expand_env_vars.raw_induct [where P = "\<lambda>e s y. e = env \<longrightarrow> \<not> ?H s", OF _ that], intro impI notI)
      fix f e s y
      assume IH: "\<And>e s y. f e s = Some y \<Longrightarrow> e = env \<longrightarrow> \<not> ?H s"
        and y: "(case expand_step e s of None \<Rightarrow> Some s | Some s' \<Rightarrow> f e s') = Some y"
        and e: "e = env" and "?H s"
      then obtain a b where a: "CHR ''$'' \<notin> set a" and s: "s = a @ ''${'' @ v @ ''}'' @ b" by blast
      from expand_step_first [OF a assms(3), of env b] assms(1)
      have "expand_step e s = Some ((a @ p) @ ''${'' @ v @ ''}'' @ (q @ b))" by (simp add: s e)
      with y have "f e ((a @ p) @ ''${'' @ v @ ''}'' @ (q @ b)) = Some y" by simp
      from IH [OF this] e a assms(2) show False by (metis set_append UnE)
    qed
    then show ?thesis by simp
  qed
  with assms(4) show ?thesis by (cases "expand_env_vars env (a @ ''${'' @ v @ ''}'' @ b)") blast+
qed

theorem expand_env_vars_total_witness:
  "\<exists>y. expand_env_vars (\<lambda>v. if v = ''T'' then Some ''s3'' else None) ''k: ${T}'' = Some y
     \<and> \<not> (\<exists>a v b. y = a @ ''${'' @ v @ ''}'' @ b)"
  by (rule expand_env_vars_total) simp

theorem expand_env_vars_diverges_witness:
  "expand_env_vars (\<lambda>v. if v = ''A'' then Some ''${A}'' else None) ''x: ${A}'' = None"
  using expand_env_vars_diverges [of "\<lambda>v. if v = ''A'' then Some ''${A}'' else None" "''A''" "[]" "[]" "''x: ''" "[]"]
  by simp

section \<open>Lemmas on deprecated fields\<close>

lemma map_of_y_remove [simp]: "map_of (y_remove k m) = (map_of m)(k := None)"
  by (induction m) (auto simp: y_remove_def fun_eq_iff)

lemma map_of_y_insert [simp]: "map_of (y_insert k v m) = (map_of m)(k \<mapsto> v)"
  by (induction k v m rule: y_insert.induct) (auto simp: fun_eq_iff)

lemma y_insert_same: "map_of m k = Some v \<Longrightarrow> y_insert k v m = m"
  by (induction k v m rule: y_insert.induct) (auto split: if_splits)

interpretation ym: keyed_store map_of y_insert y_remove
  by unfold_locales auto

text \<open>What a tool entry should read as after migration, key by key.\<close>

definition merge_timeouts :: "yaml option \<Rightarrow> yaml option \<Rightarrow> yaml option" where
  "merge_timeouts legacy timeouts =
    (case legacy of
       None \<Rightarrow> timeouts
     | Some l \<Rightarrow>
         (case timeouts of
            None \<Rightarrow> Some (YMap [(YStr ''request_seconds'', l)])
          | Some (YMap t) \<Rightarrow>
              Some (YMap (if map_of t (YStr ''request_seconds'') = None
                          then y_insert (YStr ''request_seconds'') l t else t))
          | Some x \<Rightarrow> Some x))"

definition migrated_tool :: "ymapping \<Rightarrow> yaml \<Rightarrow> yaml option" where
  "migrated_tool m k =
    (if k = YStr ''cloud'' \<or> k = YStr ''timeout_seconds'' then None
     else if k = YStr ''egress'' \<and> map_of m k = None
     then map_option (\<lambda>c. YStr (if c = YBool True then ''proxied'' else ''direct'')) (map_of m (YStr ''cloud''))
     else if k = YStr ''timeouts'' then
       merge_timeouts (map_of m (YStr ''timeout_seconds'')) (map_of m k)
     else map_of m k)"

definition migrate_tool :: "ymapping \<Rightarrow> loader_state \<Rightarrow> ymapping \<times> loader_state" where
  "migrate_tool m st = (let (m1, st1) = translate_cloud m st in translate_timeout_seconds m1 st1)"

lemma map_of_translate_cloud:
  "map_of (fst (translate_cloud m st)) k =
    (if k = YStr ''cloud'' then None
     else if k = YStr ''egress'' \<and> map_of m k = None
     then map_option (\<lambda>c. YStr (if c = YBool True then ''proxied'' else ''direct'')) (map_of m (YStr ''cloud''))
     else map_of m k)"
  by (auto simp: translate_cloud_def Let_def split: option.splits)

lemma map_of_translate_timeout:
  "map_of (fst (translate_timeout_seconds m st)) k =
    (if k = YStr ''timeout_seconds'' then None
     else if k = YStr ''timeouts'' then
       merge_timeouts (map_of m (YStr ''timeout_seconds'')) (map_of m k)
     else map_of m k)"
  by (simp add: translate_timeout_seconds_def merge_timeouts_def Let_def split: option.splits yaml.splits)

lemma map_of_migrate_tool: "map_of (fst (migrate_tool m st)) = migrated_tool m"
proof
  fix k
  consider "k = YStr ''timeouts''" | "k = YStr ''timeout_seconds''"
    | "k = YStr ''egress''"
    | "k \<noteq> YStr ''timeouts''" "k \<noteq> YStr ''timeout_seconds''" "k \<noteq> YStr ''egress''" by blast
  then show "map_of (fst (migrate_tool m st)) k = migrated_tool m k"
    by cases (simp_all add: migrate_tool_def split_beta map_of_translate_timeout map_of_translate_cloud
        migrated_tool_def)
qed

lemma migrate_tool_stable:
  "map_of m (YStr ''cloud'') = None \<Longrightarrow> map_of m (YStr ''timeout_seconds'') = None \<Longrightarrow> migrate_tool m st = (m, st)"
  by (simp add: migrate_tool_def translate_cloud_def translate_timeout_seconds_def)

lemma migrate_tool_idem: "migrate_tool (fst (migrate_tool m st)) st' = (fst (migrate_tool m st), st')"
  by (rule migrate_tool_stable) (simp_all add: map_of_migrate_tool migrated_tool_def)

lemma deprecate_tools_map: "deprecate_tools (YMap m # ts) st =
    (let (m', st') = migrate_tool m st; (ts', st'') = deprecate_tools ts st' in (YMap m' # ts', st''))"
  by (simp add: migrate_tool_def split_beta Let_def)

lemma deprecate_tools_other: "\<nexists>m. t = YMap m \<Longrightarrow>
    deprecate_tools (t # ts) st = (let (ts', st') = deprecate_tools ts st in (t # ts', st'))"
  by (cases t) auto

definition migrated_value :: "yaml \<Rightarrow> yaml \<Rightarrow> bool" where
  "migrated_value t t' \<longleftrightarrow> (case t of YMap m \<Rightarrow> (\<exists>m'. t' = YMap m' \<and> map_of m' = migrated_tool m) | _ \<Rightarrow> t' = t)"

lemma deprecate_tools_migrated: "list_all2 migrated_value ts (fst (deprecate_tools ts st))"
proof (induction ts arbitrary: st)
  case (Cons t ts)
  then show ?case
  proof (cases "\<exists>m. t = YMap m")
    case True
    then obtain m where "t = YMap m" by blast
    with Cons show ?thesis
      by (simp only: deprecate_tools_map) (simp add: split_beta Let_def migrated_value_def map_of_migrate_tool)
  next
    case False
    with Cons show ?thesis
      by (simp add: deprecate_tools_other split_beta Let_def) (cases t; simp add: migrated_value_def)
  qed
qed simp

lemma deprecate_tools_idem:
  "deprecate_tools (fst (deprecate_tools ts st)) st' = (fst (deprecate_tools ts st), st')"
proof (induction ts arbitrary: st st')
  case (Cons t ts)
  show ?case
  proof (cases "\<exists>m. t = YMap m")
    case True
    then obtain m where t: "t = YMap m" by blast
    obtain m1 st1 where m1: "migrate_tool m st = (m1, st1)" by (cases "migrate_tool m st")
    then have "migrate_tool m1 st' = (m1, st')" using migrate_tool_idem [of m st st'] by simp
    then show ?thesis
      using m1 by (simp only: t deprecate_tools_map) (simp add: split_beta Let_def deprecate_tools_map Cons del: deprecate_tools.simps)
  next
    case False
    then show ?thesis by (simp add: deprecate_tools_other split_beta Let_def Cons)
  qed
qed simp

text \<open>Each warning is printed at most once per registry.\<close>

definition warned_ok :: "loader_state \<Rightarrow> bool" where
  "warned_ok st \<longleftrightarrow> distinct (map de_field_path (snd st))
     \<and> de_field_path ` set (snd st) \<subseteq> set (dr_warned_once (fst st))"

lemma registry_lookup_path: "registry_lookup R path = Some e \<Longrightarrow> de_field_path e = path"
  by (auto simp: registry_lookup_def find_Some_iff)

lemma warned_ok_emit [simp]:
  assumes "warned_ok st"
  shows "warned_ok (emit_deprecation path st)"
proof (cases "registry_lookup (fst st) path = None \<or> path \<in> set (dr_warned_once (fst st))")
  case True
  with assms show ?thesis by (auto simp: emit_deprecation_def notice_def)
next
  case False
  then obtain e where e: "registry_lookup (fst st) path = Some e" by auto
  have "registry_lookup (fst st\<lparr>dr_warned_once := w\<rparr>) path = Some e" for w
    using e by (simp add: registry_lookup_def)
  with e assms False registry_lookup_path [OF e] show ?thesis
    by (auto simp: emit_deprecation_def notice_def warned_ok_def)
qed

lemma warned_ok_cloud: "warned_ok st \<Longrightarrow> warned_ok (snd (translate_cloud m st))"
  by (simp add: translate_cloud_def Let_def split: option.splits)

lemma warned_ok_timeout: "warned_ok st \<Longrightarrow> warned_ok (snd (translate_timeout_seconds m st))"
  by (simp add: translate_timeout_seconds_def Let_def split: option.splits yaml.splits)

lemma warned_ok_tools: "warned_ok st \<Longrightarrow> warned_ok (snd (deprecate_tools ts st))"
proof (induction ts arbitrary: st)
  case (Cons t ts)
  then show ?case
    by (cases t) (simp_all add: split_beta Let_def warned_ok_cloud warned_ok_timeout)
qed simp

lemma apply_deprecations_cases:
  obtains (seq) m m1 ts where "v = YMap m" "m1 = y_remove (YStr ''telemetry'') m \<or> m1 = m"
      "map_of m1 (YStr ''telemetry'') = None" "map_of m1 (YStr ''tools'') = Some (YSeq ts)"
      "map_of m (YStr ''tools'') = Some (YSeq ts)"
      "\<exists>st1. (st1 = st \<or> st1 = emit_deprecation ''telemetry'' st)
        \<and> apply_deprecations v st =
          (YMap (y_insert (YStr ''tools'') (YSeq (fst (deprecate_tools ts st1))) m1), snd (deprecate_tools ts st1))"
  | (none) m m1 where "v = YMap m" "m1 = y_remove (YStr ''telemetry'') m \<or> m1 = m"
      "map_of m1 (YStr ''telemetry'') = None" "\<nexists>ts. map_of m1 (YStr ''tools'') = Some (YSeq ts)"
      "\<nexists>ts. map_of m (YStr ''tools'') = Some (YSeq ts)"
      "\<exists>st1. (st1 = st \<or> st1 = emit_deprecation ''telemetry'' st) \<and> apply_deprecations v st = (YMap m1, st1)"
  | (other) "\<nexists>m. v = YMap m" "apply_deprecations v st = (v, st)"
proof (cases "\<exists>m. v = YMap m")
  case False
  then have "apply_deprecations v st = (v, st)" by (cases v) (auto simp: apply_deprecations_def)
  with False show thesis by (rule that(3))
next
  case True
  then obtain m where v: "v = YMap m" by blast
  define m1 where "m1 = (if map_of m (YStr ''telemetry'') \<noteq> None then y_remove (YStr ''telemetry'') m else m)"
  define st1 where "st1 = (if map_of m (YStr ''telemetry'') \<noteq> None then emit_deprecation ''telemetry'' st else st)"
  have b: "m1 = y_remove (YStr ''telemetry'') m \<or> m1 = m" "map_of m1 (YStr ''telemetry'') = None"
    "map_of m1 (YStr ''tools'') = map_of m (YStr ''tools'')" "st1 = st \<or> st1 = emit_deprecation ''telemetry'' st"
    by (auto simp: m1_def st1_def)
  have a: "apply_deprecations v st = (case map_of m1 (YStr ''tools'') of
               Some (YSeq tools) \<Rightarrow>
                 (YMap (y_insert (YStr ''tools'') (YSeq (fst (deprecate_tools tools st1))) m1),
                  snd (deprecate_tools tools st1))
             | _ \<Rightarrow> (YMap m1, st1))"
    by (cases "map_of m (YStr ''telemetry'') = None")
      (simp_all add: v apply_deprecations_def m1_def st1_def split_beta Let_def split: option.splits yaml.splits)
  show thesis
  proof (cases "\<exists>ts. map_of m1 (YStr ''tools'') = Some (YSeq ts)")
    case True
    then obtain ts where ts: "map_of m1 (YStr ''tools'') = Some (YSeq ts)" by blast
    show thesis
      by (rule that(1) [OF v b(1,2) ts], use ts b in simp, rule exI [of _ st1], use ts a b in simp)
  next
    case False
    then have "apply_deprecations v st = (YMap m1, st1)"
      unfolding a by (auto split: option.splits yaml.splits)
    with False b show thesis by (intro that(2) [OF v b(1,2)] exI [of _ st1]) simp_all
  qed
qed

text \<open>Rewriting deprecated fields: \<open>telemetry\<close> is gone, every tool entry reads as the migrated one
  (\<open>cloud\<close> becomes \<open>egress\<close> and \<open>timeout_seconds\<close> becomes \<open>timeouts.request_seconds\<close>, an explicit
  new field wins, nothing else changes), all other top-level fields are kept, rewriting again changes
  nothing and prints nothing, and no warning is printed twice.\<close>

theorem deprecations_migrate:
  assumes "apply_deprecations (YMap doc) (default_registry, []) = (v', st')"
  shows "\<exists>doc'. v' = YMap doc'
    \<and> map_of doc' (YStr ''telemetry'') = None
    \<and> (\<forall>k. k \<noteq> YStr ''telemetry'' \<and> k \<noteq> YStr ''tools'' \<longrightarrow> map_of doc' k = map_of doc k)
    \<and> (case map_of doc (YStr ''tools'') of
         Some (YSeq ts) \<Rightarrow> (\<exists>ts'. map_of doc' (YStr ''tools'') = Some (YSeq ts') \<and> list_all2 migrated_value ts ts')
       | x \<Rightarrow> map_of doc' (YStr ''tools'') = x)
    \<and> apply_deprecations v' st' = (v', st')
    \<and> distinct (map de_field_path (snd st'))"
proof -
  have ok: "warned_ok (default_registry, [])" by (simp add: warned_ok_def)
  show ?thesis
  proof (cases rule: apply_deprecations_cases [of "YMap doc" "(default_registry, [])"])
    case (seq m m1 ts)
    then obtain st1 where st1: "st1 = (default_registry, []) \<or> st1 = emit_deprecation ''telemetry'' (default_registry, [])"
      and r: "v' = YMap (y_insert (YStr ''tools'') (YSeq (fst (deprecate_tools ts st1))) m1)"
        "st' = snd (deprecate_tools ts st1)"
      using assms by auto
    from st1 ok have "warned_ok st'" by (auto simp: r warned_ok_tools)
    moreover have "apply_deprecations v' st' = (v', st')"
      using seq(3) by (simp add: r apply_deprecations_def deprecate_tools_idem y_insert_same)
    ultimately show ?thesis
      using seq(1-5) deprecate_tools_migrated [of ts st1] by (auto simp: r warned_ok_def)
  next
    case (none m m1)
    then have "warned_ok st'" and v': "v' = YMap m1" using assms ok by auto
    moreover have "apply_deprecations v' st' = (v', st')"
      using none by (auto simp: v' apply_deprecations_def split: option.splits yaml.splits)
    ultimately show ?thesis
      using none(1-5) by (auto simp: warned_ok_def split: option.splits yaml.splits)
  qed simp
qed

definition demo_legacy_doc :: ymapping where
  "demo_legacy_doc =
    [(YStr ''telemetry'', YBool True),
     (YStr ''tools'', YSeq [YMap [(YStr ''name'', YStr ''a''), (YStr ''cloud'', YBool True),
        (YStr ''timeout_seconds'', YNum ''5'')], YMap [(YStr ''cloud'', YNull)]])]"

theorem deprecations_migrate_witness:
  "\<exists>doc'. fst (apply_deprecations (YMap demo_legacy_doc) (default_registry, [])) = YMap doc'
    \<and> map_of doc' (YStr ''telemetry'') = None"
  using deprecations_migrate [OF prod.collapse [symmetric], of demo_legacy_doc] by blast

text \<open>A configuration that loads has, per tool, distinct redaction pattern ids whose regexes compile.\<close>

definition patterns_ok :: "(string \<Rightarrow> bool) \<Rightarrow> redaction_pattern_config list \<Rightarrow> bool" where
  "patterns_ok regex_ok ps \<longleftrightarrow> distinct (map rp_id ps) \<and> list_all (\<lambda>p. regex_ok (rp_regex p)) ps"

lemma check_patterns_iff:
  "check_patterns regex_ok tool seen ps = Inr () \<longleftrightarrow>
     patterns_ok regex_ok ps \<and> set (map rp_id ps) \<inter> set seen = {}"
  by (induction regex_ok tool seen ps rule: check_patterns.induct) (auto simp: patterns_ok_def)

lemma check_patterns_then:
  "(case check_patterns regex_ok tool [] ps of Inl e \<Rightarrow> Inl e | Inr _ \<Rightarrow> x) = Inr () \<longleftrightarrow>
     patterns_ok regex_ok ps \<and> x = Inr ()"
  using check_patterns_iff [of regex_ok tool "[]" ps] by (cases "check_patterns regex_ok tool [] ps") auto

lemma validate_response_controls_iff:
  "validate_response_controls regex_ok cfg = Inr () \<longleftrightarrow>
     list_all (\<lambda>t. case tc_response t of None \<Rightarrow> True | Some rc \<Rightarrow> patterns_ok regex_ok (rcc_redaction_patterns rc))
       (cf_tools cfg)"
proof -
  have "validate_tools regex_ok ts = Inr () \<longleftrightarrow>
     list_all (\<lambda>t. case tc_response t of None \<Rightarrow> True | Some rc \<Rightarrow> patterns_ok regex_ok (rcc_redaction_patterns rc)) ts"
    for ts
  proof (induction ts)
    case (Cons t ts)
    then show ?case by (cases "tc_response t") (simp_all add: check_patterns_then)
  qed simp
  then show ?thesis by (simp add: validate_response_controls_def)
qed

lemma parse_with_registry_patterns:
  assumes "parse_with_registry Y regex_ok text st = (Inr cfg, st')" and "t \<in> set (cf_tools cfg)"
    and "tc_response t = Some rc"
  shows "patterns_ok regex_ok (rcc_redaction_patterns rc)"
proof -
  from assms(1) have "validate_response_controls regex_ok cfg = Inr ()"
    by (auto simp: parse_with_registry_def Let_def split_beta split: sum.splits)
  with assms(2,3) show ?thesis by (auto simp: validate_response_controls_iff list_all_iff split: option.splits)
qed

end
