(* ===== verification/Registrations.thy ===== *)
theory Registrations
  imports Store
begin

text \<open>
  \<open>registrations/repo.rs\<close> (the row form of a registration and the repository operations) and
  \<open>registrations/catalog.rs\<close> (the in-memory snapshot the hot path reads).  The headline results:
  what a read returns after a write, and that no grant or account binding survives a change of the
  destination it was given for, over any sequence of registry writes.
\<close>

section \<open>Registrations and their rows\<close>

record registration =
  reg_name :: string
  reg_kind :: kind
  reg_description :: string
  reg_upstream :: string
  reg_auth :: auth_spec
  reg_egress :: egress_mode
  reg_timeouts :: tool_timeouts
  reg_body_limit_bytes :: u64
  reg_metadata :: json
  reg_seed :: bool
  reg_disabled :: bool
  reg_created_at :: int
  reg_updated_at :: int

definition default_timeouts :: tool_timeouts where
  "default_timeouts = \<lparr>request_seconds = 30, idle_seconds = 60\<rparr>"

definition registration_new ::
    "int \<Rightarrow> string \<Rightarrow> kind \<Rightarrow> string \<Rightarrow> string \<Rightarrow> auth_spec \<Rightarrow> registration" where
  "registration_new now name k description upstream auth =
    \<lparr>reg_name = name, reg_kind = k, reg_description = description, reg_upstream = upstream,
     reg_auth = auth, reg_egress = Direct, reg_timeouts = default_timeouts,
     reg_body_limit_bytes = 10 * 1024 * 1024, reg_metadata = JObj [],
     reg_seed = False, reg_disabled = False, reg_created_at = now, reg_updated_at = now\<rparr>"

fun egress_as_str :: "egress_mode \<Rightarrow> string" where
  "egress_as_str Direct = ''direct''"
| "egress_as_str Proxied = ''proxied''"

lemma egress_as_str_inj [simp]: "egress_as_str e = egress_as_str e' \<longleftrightarrow> e = e'"
  by (cases e; cases e') auto

text \<open>The values bound to the thirteen columns, and the read of a row.\<close>

definition registration_to_row :: "registration \<Rightarrow> reg_row" where
  "registration_to_row r =
    \<lparr>rg_name = reg_name r, rg_kind = kind_as_str (reg_kind r), rg_description = reg_description r,
     rg_upstream = reg_upstream r, rg_auth_json = JVal (reg_auth r),
     rg_egress = egress_as_str (reg_egress r), rg_timeouts_json = JVal (reg_timeouts r),
     rg_body_limit_bytes = u64_as_i64 (reg_body_limit_bytes r),
     rg_metadata_json = JVal (reg_metadata r), rg_seed = reg_seed r, rg_disabled = reg_disabled r,
     rg_created_at = reg_created_at r, rg_updated_at = reg_updated_at r\<rparr>"

definition row_kind :: "string \<Rightarrow> registration_error + kind" where
  "row_kind s =
    (if s = ''model'' then Inr Model else if s = ''tool'' then Inr Tool
     else if s = ''infra'' then Inr Infra
     else Inl (RegBackend (''unexpected kind in DB: '' @ s)))"

definition row_egress :: "string \<Rightarrow> registration_error + egress_mode" where
  "row_egress s =
    (if s = ''direct'' then Inr Direct else if s = ''proxied'' then Inr Proxied
     else Inl (RegBackend (''unexpected egress in DB: '' @ s)))"

definition from_json_col :: "string \<Rightarrow> 'a jcol \<Rightarrow> registration_error + 'a" where
  "from_json_col what c = (case c of JVal a \<Rightarrow> Inr a | JBad \<Rightarrow> Inl (RegBackend (''deserialize '' @ what)))"

definition row_to_registration :: "reg_row \<Rightarrow> registration_error + registration" where
  "row_to_registration row =
    result_bind (row_kind (rg_kind row)) (\<lambda>k.
    result_bind (from_json_col ''auth'' (rg_auth_json row)) (\<lambda>auth.
    result_bind (row_egress (rg_egress row)) (\<lambda>egress.
    result_bind (from_json_col ''timeouts'' (rg_timeouts_json row)) (\<lambda>timeouts.
    result_bind (from_json_col ''metadata'' (rg_metadata_json row)) (\<lambda>metadata.
      Inr \<lparr>reg_name = rg_name row, reg_kind = k, reg_description = rg_description row,
           reg_upstream = rg_upstream row, reg_auth = auth, reg_egress = egress,
           reg_timeouts = timeouts,
           reg_body_limit_bytes = word_of_int (max 0 (rg_body_limit_bytes row)),
           reg_metadata = metadata, reg_seed = rg_seed row, reg_disabled = rg_disabled row,
           reg_created_at = rg_created_at row, reg_updated_at = rg_updated_at row\<rparr>)))))"

lemma row_kind_as_str [simp]: "row_kind (kind_as_str k) = Inr k"
  by (cases k) (auto simp: row_kind_def)

lemma row_egress_as_str [simp]: "row_egress (egress_as_str e) = Inr e"
  by (cases e) (auto simp: row_egress_def)

lemma from_json_col_JVal [simp]: "from_json_col w (JVal a) = Inr a"
  by (simp add: from_json_col_def)

text \<open>The body limit survives the signed column exactly when it is below $2^{63}$.\<close>

lemma body_limit_column:
  "(word_of_int (max 0 (u64_as_i64 w)) :: u64) = (if unat w < 2 ^ 63 then w else 0)"
  by (cases "unat w < 2 ^ 63")
    (use sint_u64_small [of w] sint_u64_big [of w] in \<open>simp_all add: u64_as_i64_def\<close>)

lemma row_to_registration_to_row:
  "row_to_registration (registration_to_row r) =
     Inr (if unat (reg_body_limit_bytes r) < 2 ^ 63 then r else r\<lparr>reg_body_limit_bytes := 0\<rparr>)"
  by (simp add: row_to_registration_def registration_to_row_def body_limit_column)

section \<open>Repository\<close>

definition reg_by_name :: "string \<Rightarrow> db \<Rightarrow> reg_row option" where
  "reg_by_name n d = find (\<lambda>r. rg_name r = n) (registrations d)"

definition sqlx_err :: registration_error where
  "sqlx_err = RegBackend ''sqlx''"

definition registration_create :: "registration \<Rightarrow> db \<Rightarrow> (registration_error + unit) \<times> db" where
  "registration_create r d =
    (if db_down d \<or> reg_by_name (reg_name r) d \<noteq> None then (Inl sqlx_err, d)
     else (Inr (), invalidate_authority (reg_name r)
             (d\<lparr>registrations := registrations d @ [registration_to_row r]\<rparr>)))"

definition registration_get :: "string \<Rightarrow> db \<Rightarrow> registration_error + registration option" where
  "registration_get n d =
    (if db_down d then Inl sqlx_err
     else case reg_by_name n d of
       None \<Rightarrow> Inr None
     | Some row \<Rightarrow> result_bind (row_to_registration row) (\<lambda>r. Inr (Some r)))"

definition registration_list :: "kind option \<Rightarrow> db \<Rightarrow> registration_error + registration list" where
  "registration_list k d =
    (if db_down d then Inl sqlx_err
     else collect_results (map row_to_registration (sort_key rg_name
       (case k of
          Some k \<Rightarrow> filter (\<lambda>r. rg_kind r = kind_as_str k) (registrations d)
        | None \<Rightarrow> registrations d))))"

text \<open>The conflict branch of the upsert assigns every column but the key, the kind and the creation
  time; \<open>destination_changed\<close> is the WHEN clause of the update trigger.\<close>

definition upsert_row :: "registration \<Rightarrow> reg_row \<Rightarrow> reg_row" where
  "upsert_row r row =
    (let x = registration_to_row r in
     row\<lparr>rg_description := rg_description x, rg_upstream := rg_upstream x,
         rg_auth_json := rg_auth_json x, rg_egress := rg_egress x,
         rg_timeouts_json := rg_timeouts_json x, rg_body_limit_bytes := rg_body_limit_bytes x,
         rg_metadata_json := rg_metadata_json x, rg_seed := rg_seed x,
         rg_disabled := rg_disabled x, rg_updated_at := rg_updated_at x\<rparr>)"

definition destination_changed :: "reg_row \<Rightarrow> reg_row \<Rightarrow> bool" where
  "destination_changed old new \<longleftrightarrow> rg_upstream old \<noteq> rg_upstream new \<or> rg_egress old \<noteq> rg_egress new"

definition registration_upsert :: "registration \<Rightarrow> db \<Rightarrow> (registration_error + unit) \<times> db" where
  "registration_upsert r d =
    (if db_down d then (Inl sqlx_err, d)
     else case reg_by_name (reg_name r) d of
       None \<Rightarrow> (Inr (), invalidate_authority (reg_name r)
                  (d\<lparr>registrations := registrations d @ [registration_to_row r]\<rparr>))
     | Some old \<Rightarrow>
         let d' = d\<lparr>registrations :=
                    update_where (\<lambda>x. rg_name x = reg_name r) (upsert_row r) (registrations d)\<rparr>
         in (Inr (), if destination_changed old (upsert_row r old)
                     then invalidate_authority (reg_name r) d' else d'))"

definition registration_delete :: "string \<Rightarrow> db \<Rightarrow> (registration_error + bool) \<times> db" where
  "registration_delete n d =
    (if db_down d then (Inl sqlx_err, d)
     else if reg_by_name n d = None then (Inr False, d)
     else (Inr True, invalidate_authority n
             (d\<lparr>registrations := filter (\<lambda>r. rg_name r \<noteq> n) (registrations d)\<rparr>)))"

definition registration_set_disabled ::
    "int \<Rightarrow> string \<Rightarrow> bool \<Rightarrow> db \<Rightarrow> (registration_error + bool) \<times> db" where
  "registration_set_disabled now n b d =
    (if db_down d then (Inl sqlx_err, d)
     else (Inr (0 < count_where (\<lambda>r. rg_name r = n) (registrations d)),
           d\<lparr>registrations := update_where (\<lambda>r. rg_name r = n)
              (\<lambda>r. r\<lparr>rg_disabled := b, rg_updated_at := now\<rparr>) (registrations d)\<rparr>))"

definition get_seed_version :: "db \<Rightarrow> registration_error + string option" where
  "get_seed_version d =
    (if db_down d then Inl sqlx_err else Inr (map_of (registrations_meta d) ''seed_version''))"

definition set_seed_version :: "string \<Rightarrow> db \<Rightarrow> (registration_error + unit) \<times> db" where
  "set_seed_version v d =
    (if db_down d then (Inl sqlx_err, d)
     else (Inr (), d\<lparr>registrations_meta := bt_insert ''seed_version'' v (registrations_meta d)\<rparr>))"

lemmas registry_ops =
  registration_create_def registration_upsert_def registration_delete_def registration_set_disabled_def

lemma upsert_row_keeps [simp]:
  "rg_name (upsert_row r row) = rg_name row"
  "rg_kind (upsert_row r row) = rg_kind row"
  "rg_created_at (upsert_row r row) = rg_created_at row"
  "rg_upstream (upsert_row r row) = reg_upstream r"
  "rg_egress (upsert_row r row) = egress_as_str (reg_egress r)"
  by (simp_all add: upsert_row_def registration_to_row_def Let_def)

lemma registration_to_row_simps [simp]:
  "rg_name (registration_to_row r) = reg_name r"
  "rg_upstream (registration_to_row r) = reg_upstream r"
  "rg_egress (registration_to_row r) = egress_as_str (reg_egress r)"
  "rg_kind (registration_to_row r) = kind_as_str (reg_kind r)"
  by (simp_all add: registration_to_row_def)

lemma kind_as_str_CHECK [simp]: "kind_as_str k = ''model'' \<or> kind_as_str k = ''tool'' \<or> kind_as_str k = ''infra''"
  by (cases k) auto

lemma egress_as_str_CHECK [simp]: "egress_as_str e = ''direct'' \<or> egress_as_str e = ''proxied''"
  by (cases e) auto

lemma reg_by_name_update_where [table_simps]:
  "(\<And>x. rg_name (f x) = rg_name x) \<Longrightarrow>
   reg_by_name m (d\<lparr>registrations := update_where (\<lambda>x. rg_name x = n) f (registrations d)\<rparr>)
     = (if m = n then map_option f (reg_by_name n d) else reg_by_name m d)"
  by (simp add: reg_by_name_def find_key_update)

lemma reg_by_name_append [table_simps]:
  "reg_by_name m (d\<lparr>registrations := registrations d @ [row]\<rparr>) =
     (case reg_by_name m d of Some x \<Rightarrow> Some x | None \<Rightarrow> if rg_name row = m then Some row else None)"
  by (simp add: reg_by_name_def find_append split: option.splits)

lemma reg_by_name_filter [table_simps]:
  "reg_by_name m (d\<lparr>registrations := filter (\<lambda>r. rg_name r \<noteq> n) (registrations d)\<rparr>) =
     (if m = n then None else reg_by_name m d)"
  by (simp add: reg_by_name_def find_key_filter)

lemma reg_by_name_invalidate [simp]: "reg_by_name m (invalidate_authority n d) = reg_by_name m d"
  by (simp add: reg_by_name_def)

section \<open>Authority\<close>

text \<open>What gives an agent access to a registration: an account binding, an entry in the allowlist of a
  reviewed agent, or one in the scope of a reviewed bootstrap token.\<close>

definition grant_names :: "agent_row \<Rightarrow> string list" where
  "grant_names a =
    (if ag_grants_reviewed a then case ag_tool_allowlist a of Some (JVal l) \<Rightarrow> l | _ \<Rightarrow> [] else [])"

definition scope_names :: "bootstrap_row \<Rightarrow> string list" where
  "scope_names b =
    (if bk_grants_reviewed b
     then case bk_scope b of JVal s \<Rightarrow> (case sc_tool_allowlist s of Some l \<Rightarrow> l | None \<Rightarrow> []) | JBad \<Rightarrow> []
     else [])"

definition holds_authority :: "string \<Rightarrow> db \<Rightarrow> bool" where
  "holds_authority n d \<longleftrightarrow>
     list_ex (\<lambda>r. ov_registration r = n) (overrides d)
   \<or> list_ex (\<lambda>a. n \<in> set (grant_names a)) (agents d)
   \<or> list_ex (\<lambda>b. n \<in> set (scope_names b)) (bootstrap_tokens d)"

definition destination :: "string \<Rightarrow> db \<Rightarrow> (string \<times> string) option" where
  "destination n d = map_option (\<lambda>r. (rg_upstream r, rg_egress r)) (reg_by_name n d)"

lemma grant_names_prune: "grant_names (prune_agent n a) = filter (\<lambda>x. x \<noteq> n) (grant_names a)"
proof (cases "ag_grants_reviewed a")
  case True
  then show ?thesis
    by (simp add: grant_names_def prune_agent_def split: option.split jcol.split)
qed (simp add: grant_names_def)

lemma scope_names_prune: "scope_names (prune_token n b) = filter (\<lambda>x. x \<noteq> n) (scope_names b)"
proof (cases "bk_grants_reviewed b")
  case True
  then show ?thesis
    by (cases "bk_scope b") (auto simp: scope_names_def prune_token_def split: option.split)
qed (simp add: scope_names_def)

lemma holds_authority_invalidate [simp]:
  "holds_authority m (invalidate_authority n d) \<longleftrightarrow> m \<noteq> n \<and> holds_authority m d"
  by (auto simp: holds_authority_def invalidate_authority_def list_ex_iff grant_names_prune
      scope_names_prune)

lemma holds_authority_registrations [simp]:
  "holds_authority m (d\<lparr>registrations := rs\<rparr>) = holds_authority m d"
  by (simp add: holds_authority_def)

lemma destination_invalidate [simp]: "destination m (invalidate_authority n d) = destination m d"
  by (simp add: destination_def)

text \<open>Registry writes, as steps of the daemon: an admin or seed write of any of the four forms, at any
  time and whether or not it succeeds.\<close>

inductive registry_step :: "db \<Rightarrow> db \<Rightarrow> bool" where
  step_create: "registry_step d (snd (registration_create r d))"
| step_upsert: "registry_step d (snd (registration_upsert r d))"
| step_delete: "registry_step d (snd (registration_delete n d))"
| step_set_disabled: "registry_step d (snd (registration_set_disabled now n b d))"

inductive registry_run :: "db \<Rightarrow> db \<Rightarrow> bool" where
  run_refl: "registry_run d d"
| run_step: "registry_run d d' \<Longrightarrow> registry_step d' d'' \<Longrightarrow> registry_run d d''"

inductive_cases registry_stepE: "registry_step d d'"

lemma step_pins_destination:
  assumes "registry_step d d'" and "holds_authority n d'"
  shows "holds_authority n d \<and> destination n d' = destination n d"
  using assms
proof (cases rule: registry_step.cases)
  case (step_create r)
  then show ?thesis
    using assms(2) by (auto simp: registration_create_def destination_def reg_by_name_append
        split: if_splits option.splits)
next
  case (step_upsert r)
  then show ?thesis
    using assms(2)
    by (auto simp: registration_upsert_def destination_def reg_by_name_append Let_def
        reg_by_name_update_where destination_changed_def split: if_splits option.splits)
next
  case (step_delete m)
  then show ?thesis
    using assms(2) by (auto simp: registration_delete_def destination_def reg_by_name_filter
        split: if_splits option.splits)
next
  case (step_set_disabled now m b)
  then show ?thesis
    using assms(2) by (auto simp: registration_set_disabled_def destination_def
        reg_by_name_update_where option.map_comp comp_def split: if_splits)
qed

text \<open>C26. Over any sequence of registry writes (create, upsert, delete, enable and disable, in any
  order), if some grant, bootstrap scope or account binding for a name is still in force at the end,
  it was in force at the start and the registration of that name has had the same upstream and
  egress at both ends: authority given for one destination never carries over to another.\<close>

theorem authority_pinned_to_destination:
  assumes "registry_run d d'" and "holds_authority n d'"
  shows "holds_authority n d \<and> destination n d' = destination n d"
  using assms
proof (induction rule: registry_run.induct)
  case (run_refl d)
  then show ?case
    by simp
next
  case (run_step d d' d'')
  then show ?case
    using step_pins_destination by metis
qed

text \<open>A small database used to instantiate results: one tool, one reviewed agent holding a grant and an
  account binding for it.\<close>

definition demo_reg :: registration where
  "demo_reg = registration_new 100 ''github'' Tool ''GitHub API'' ''https://api.github.com'' AuthNone"

definition demo_agent :: agent_row where
  "demo_agent = \<lparr>ag_id = 1, ag_public_id = ''abcdefgh'', ag_name = ''hermes'', ag_description = None,
     ag_secret_hash = ''phc'', ag_tool_allowlist = Some (JVal [''github'']), ag_tool_denylist = None,
     ag_metadata = None, ag_cert_identity = None, ag_registered_at = 90, ag_last_used_at = None,
     ag_expires_at = None, ag_revoked_at = None, ag_grants_reviewed = True\<rparr>"

definition demo_db :: db where
  "demo_db = empty_db\<lparr>registrations := [registration_to_row demo_reg], agents := [demo_agent],
     next_agent_id := 2,
     overrides := [\<lparr>ov_agent_id = 1, ov_registration = ''github'', ov_auth_spec = JVal (Bearer ''GH_TOKEN''),
        ov_created_at = 95, ov_updated_at = 95\<rparr>]\<rparr>"

lemmas demo_defs = demo_db_def demo_agent_def demo_reg_def registration_new_def empty_db_def
  registration_to_row_def

theorem authority_pinned_to_destination_witness:
  "let d' = snd (registration_set_disabled 101 ''github'' True demo_db) in
   registry_run demo_db d' \<and> holds_authority ''github'' d'
   \<and> destination ''github'' d' = destination ''github'' demo_db"
proof -
  let ?d' = "snd (registration_set_disabled 101 ''github'' True demo_db)"
  have run: "registry_run demo_db ?d'"
    by (rule run_step [OF run_refl step_set_disabled])
  have auth: "holds_authority ''github'' ?d'"
    by (simp add: demo_defs registration_set_disabled_def holds_authority_def)
  show ?thesis
    using run auth authority_pinned_to_destination [OF run auth] by (simp add: Let_def)
qed

text \<open>The converse side of the triggers: a write that keeps the destination, and any enable or disable,
  leaves every grant, scope and binding as it was.\<close>

lemma upsert_same_destination_keeps_authority:
  assumes "destination (reg_name r) d = Some (reg_upstream r, egress_as_str (reg_egress r))"
  shows "agents (snd (registration_upsert r d)) = agents d
    \<and> overrides (snd (registration_upsert r d)) = overrides d
    \<and> bootstrap_tokens (snd (registration_upsert r d)) = bootstrap_tokens d"
  using assms by (auto simp: registration_upsert_def destination_def destination_changed_def Let_def)

section \<open>Reads after writes\<close>

text \<open>A read after an upsert returns the written registration, except that an existing row keeps its
  kind and creation time; reads of every other name are unchanged.  The body limit must fit the signed
  column.\<close>

theorem upsert_get:
  assumes "registration_get (reg_name r) d = Inr old" and "unat (reg_body_limit_bytes r) < 2 ^ 63"
  shows "registration_get m (snd (registration_upsert r d)) =
    (if m = reg_name r
     then Inr (Some (case old of None \<Rightarrow> r
            | Some x \<Rightarrow> r\<lparr>reg_kind := reg_kind x, reg_created_at := reg_created_at x\<rparr>))
     else registration_get m d)"
proof (cases "reg_by_name (reg_name r) d")
  case None
  with assms show ?thesis
    by (auto simp: registration_get_def registration_upsert_def reg_by_name_append
        row_to_registration_to_row split: if_splits option.split)
next
  case (Some row)
  then have "rg_name row = reg_name r"
    by (auto simp: reg_by_name_def dest: find_SomeD)
  moreover from assms Some obtain x where "old = Some x" "row_to_registration row = Inr x"
    by (auto simp: registration_get_def split: if_splits)
  ultimately have "row_to_registration (upsert_row r row)
      = Inr (r\<lparr>reg_kind := reg_kind x, reg_created_at := reg_created_at x\<rparr>)"
    using assms(2) by (auto simp: row_to_registration_def upsert_row_def registration_to_row_def
        body_limit_column)
  with Some assms \<open>old = Some x\<close> show ?thesis
    by (auto simp: registration_get_def registration_upsert_def Let_def reg_by_name_update_where
        split: if_splits option.split)
qed

theorem upsert_get_witness:
  "registration_get ''github'' (snd (registration_upsert demo_reg empty_db)) = Inr (Some demo_reg)"
  using upsert_get [of demo_reg empty_db None "''github''"]
  by (simp add: registration_get_def reg_by_name_def empty_db_def demo_reg_def registration_new_def)

section \<open>The registry keeps the integrity constraints\<close>

lemma reg_row_check_to_row [simp]: "reg_row_check (registration_to_row r)"
  by (simp add: reg_row_check_def)

lemma reg_row_check_upsert [simp]: "reg_row_check x \<Longrightarrow> reg_row_check (upsert_row r x)"
  by (simp add: reg_row_check_def)

lemma db_ok_append_registration:
  assumes "db_ok d" and "reg_by_name (reg_name r) d = None"
  shows "db_ok (d\<lparr>registrations := registrations d @ [registration_to_row r]\<rparr>)"
  using assms by (auto simp: db_ok_def reg_by_name_def find_key_None_iff)

lemma db_ok_update_registrations:
  assumes "db_ok d"
    and "\<And>x. rg_name (f x) = rg_name x" and "\<And>x. reg_row_check x \<Longrightarrow> reg_row_check (f x)"
  shows "db_ok (d\<lparr>registrations := update_where P f (registrations d)\<rparr>)"
proof -
  have "map rg_name (update_where P f rs) = map rg_name rs" for rs
    by (auto simp: update_where_def assms(2))
  then show ?thesis
    using assms(1,3) by (auto simp: db_ok_def list_all_iff set_update_where)
qed

lemma db_ok_filter_registrations:
  "db_ok d \<Longrightarrow> db_ok (d\<lparr>registrations := filter P (registrations d)\<rparr>)"
  by (auto simp: db_ok_def list_all_iff distinct_map_filter)

lemma registry_step_keeps:
  assumes "registry_step d d'" and "db_ok d"
  shows "db_ok d'"
  using assms
proof (cases rule: registry_step.cases)
  case (step_create r)
  then show ?thesis
    using assms(2) by (auto simp: registration_create_def
        intro!: db_ok_invalidate_authority db_ok_append_registration)
next
  case (step_upsert r)
  then show ?thesis
    using assms(2)
    by (auto simp: registration_upsert_def Let_def split: option.split
        intro!: db_ok_invalidate_authority db_ok_append_registration db_ok_update_registrations)
next
  case (step_delete m)
  then show ?thesis
    using assms(2) by (auto simp: registration_delete_def
        intro!: db_ok_invalidate_authority db_ok_filter_registrations)
next
  case (step_set_disabled now m b)
  then show ?thesis
    using assms(2)
    by (auto simp: registration_set_disabled_def reg_row_check_def intro!: db_ok_update_registrations)
qed

lemma demo_db_ok [simp]: "db_ok demo_db"
  by (simp add: db_ok_def demo_defs override_key_def reg_row_check_def)

section \<open>Catalog\<close>

text \<open>\<open>by_name\<close> is a hash map; its entries are kept here in key order, which fixes the iteration order the
  source leaves open.\<close>

type_synonym catalog = "(string \<times> registration) list"

definition catalog_of_rows :: "registration list \<Rightarrow> catalog" where
  "catalog_of_rows rows = fold (\<lambda>r m. bt_insert (reg_name r) r m) rows []"

definition catalog_from_repo :: "db \<Rightarrow> registration_error + catalog" where
  "catalog_from_repo d = result_bind (registration_list None d) (\<lambda>rows. Inr (catalog_of_rows rows))"

definition lookup_any :: "catalog \<Rightarrow> string \<Rightarrow> registration option" where
  "lookup_any c n = map_of c n"

definition lookup_active :: "catalog \<Rightarrow> string \<Rightarrow> registration option" where
  "lookup_active c n =
    (case map_of c n of Some r \<Rightarrow> if \<not> reg_disabled r then Some r else None | None \<Rightarrow> None)"

definition iter_enabled_by_kind :: "kind \<Rightarrow> catalog \<Rightarrow> registration list" where
  "iter_enabled_by_kind k c = filter (\<lambda>r. reg_kind r = k \<and> \<not> reg_disabled r) (map snd c)"

definition catalog_len :: "catalog \<Rightarrow> nat" where
  "catalog_len c = length c"

definition catalog_is_empty :: "catalog \<Rightarrow> bool" where
  "catalog_is_empty c \<longleftrightarrow> c = []"

lemma map_of_catalog_fold:
  assumes "distinct (map reg_name rows)"
  shows "map_of (fold (\<lambda>r m. bt_insert (reg_name r) r m) rows m0) n =
    (case find (\<lambda>r. reg_name r = n) rows of Some r \<Rightarrow> Some r | None \<Rightarrow> map_of m0 n)"
  using assms
  by (induction rows arbitrary: m0) (auto simp: find_None_iff split: option.splits dest!: find_SomeD)

lemma row_to_registration_name: "row_to_registration row = Inr r \<Longrightarrow> reg_name r = rg_name row"
  by (auto simp: row_to_registration_def)

lemma readable_rows:
  assumes "map row_to_registration rs = map Inr rows"
  shows "map reg_name rows = map rg_name rs"
    and "find (\<lambda>r. reg_name r = n) rows =
      (case find (\<lambda>r. rg_name r = n) rs of None \<Rightarrow> None
       | Some row \<Rightarrow> (case row_to_registration row of Inr r \<Rightarrow> Some r | Inl _ \<Rightarrow> None))"
  using assms by (induction rs arbitrary: rows) (auto dest: row_to_registration_name simp: Cons_eq_map_conv)

lemma find_sort_key:
  assumes "distinct (map k rs)"
  shows "find (\<lambda>r. k r = n) (sort_key k rs) = find (\<lambda>r. k r = n) rs"
proof (cases "find (\<lambda>r. k r = n) rs")
  case None
  moreover from None have "find (\<lambda>r. k r = n) (sort_key k rs) = None"
    by (simp add: find_None_iff)
  ultimately show ?thesis
    by simp
next
  case (Some r)
  then have "r \<in> set (sort_key k rs)" "k r = n"
    by (auto dest: find_SomeD)
  moreover have "distinct (map k (sort_key k rs))"
    using assms by (simp add: distinct_map)
  ultimately show ?thesis
    using Some find_key_unique [of k "sort_key k rs" r] by simp
qed

lemma catalog_lookup:
  assumes "db_ok d" and "catalog_from_repo d = Inr c"
  shows "registration_get n d = Inr (lookup_any c n)"
proof -
  from assms(2) obtain rows where up: "\<not> db_down d" and c: "c = catalog_of_rows rows"
    and rows: "map row_to_registration (sort_key rg_name (registrations d)) = map Inr rows"
    by (auto simp: catalog_from_repo_def registration_list_def collect_results_Inr_iff split: if_splits)
  have dist: "distinct (map rg_name (registrations d))"
    using assms(1) by (simp add: db_ok_def)
  have "distinct (map reg_name rows)"
    unfolding readable_rows(1) [OF rows] using dist by (simp add: distinct_map)
  then have look: "lookup_any c n = (case reg_by_name n d of None \<Rightarrow> None
      | Some row \<Rightarrow> (case row_to_registration row of Inr r \<Rightarrow> Some r | Inl _ \<Rightarrow> None))"
    unfolding lookup_any_def c catalog_of_rows_def
    by (simp add: map_of_catalog_fold readable_rows(2) [OF rows] find_sort_key dist reg_by_name_def
        split: option.split)
  have "\<exists>r. row_to_registration row = Inr r" if "row \<in> set (registrations d)" for row
  proof -
    have "row_to_registration row \<in> set (map row_to_registration (sort_key rg_name (registrations d)))"
      using that by simp
    then show ?thesis
      unfolding rows by auto
  qed
  then have "\<exists>r. row_to_registration row = Inr r" if "reg_by_name n d = Some row" for row
    using that by (auto simp: reg_by_name_def dest: find_SomeD)
  then show ?thesis
    unfolding look using up by (fastforce simp: registration_get_def split: option.split)
qed

text \<open>C30. The catalog is a faithful snapshot: when it builds, looking a name up in it gives what the
  database read gives, and the active lookup gives it exactly when it is not disabled.\<close>

theorem catalog_snapshot:
  assumes "db_ok d" and "catalog_from_repo d = Inr c"
  shows "registration_get n d = Inr (lookup_any c n)
    \<and> lookup_active c n = (case lookup_any c n of
           Some r \<Rightarrow> if reg_disabled r then None else Some r | None \<Rightarrow> None)"
  using catalog_lookup [OF assms] by (simp add: lookup_active_def lookup_any_def split: option.split)

theorem catalog_snapshot_witness:
  "\<exists>c. catalog_from_repo demo_db = Inr c \<and> db_ok demo_db
     \<and> registration_get ''github'' demo_db = Inr (lookup_any c ''github'')"
proof -
  have "unat (10485760 :: u64) < 2 ^ 63"
    by simp
  then have c: "catalog_from_repo demo_db = Inr [(''github'', demo_reg)]"
    by (simp add: catalog_from_repo_def registration_list_def catalog_of_rows_def demo_db_def
        empty_db_def row_to_registration_to_row demo_reg_def registration_new_def)
  show ?thesis
    using c demo_db_ok catalog_snapshot [OF demo_db_ok c] by blast
qed

end
