(* ===== verification/Agents.thy ===== *)
theory Agents
  imports Registrations
begin

text \<open>
  \<open>repo/agent.rs\<close>: the agent repository.  A freshly minted credential is the structured token of
  \<open>token.rs\<close> with its Argon2 hash; the random bytes, the base64 encoder and the argon2 crate are
  arguments.  \<open>rotate\<close> is split into its read and its compare-and-swap commit, so that interleaved
  rotations of one agent can be stated.
\<close>

section \<open>Minted credentials\<close>

record crypto =
  cr_enc :: "8 word list \<Rightarrow> string"
  cr_argon2 :: argon2_lib

record rng_bytes =
  rng_id :: "8 word list"
  rng_secret :: "8 word list"
  rng_salt :: "8 word list"

record minted =
  mt_public_id :: string
  mt_secret :: string
  mt_hash :: string

definition mint_credential :: "crypto \<Rightarrow> rng_bytes \<Rightarrow> token_namespace \<Rightarrow> repo_error + minted" where
  "mint_credential C R ns =
    (let token = generate (cr_enc C) (rng_id R) (rng_secret R) ns in
     case argon2_hash (cr_argon2 C) (rng_salt R) (st_secret token) of
       Inl e \<Rightarrow> Inl (Hash e)
     | Inr h \<Rightarrow> Inr \<lparr>mt_public_id = st_public_id token, mt_secret = st_secret token, mt_hash = h\<rparr>)"

section \<open>Records\<close>

record agent_record =
  ar_id :: int
  ar_public_id :: string
  ar_name :: string
  ar_description :: "string option"
  ar_secret_hash :: string
  ar_tool_allowlist :: "string list option"
  ar_grants_reviewed :: bool
  ar_tool_denylist :: "string list option"
  ar_metadata :: "json option"
  ar_cert_identity :: "string option"
  ar_registered_at :: int
  ar_last_used_at :: "int option"
  ar_expires_at :: "int option"
  ar_revoked_at :: "int option"

definition effective_allowlist :: "agent_record \<Rightarrow> string list option" where
  "effective_allowlist a =
    Some (if ar_grants_reviewed a
          then (case ar_tool_allowlist a of Some l \<Rightarrow> l | None \<Rightarrow> []) else [])"

definition is_active :: "agent_record \<Rightarrow> bool" where
  "is_active a \<longleftrightarrow> ar_revoked_at a = None"

definition json_opt :: "'a jcol option \<Rightarrow> repo_error + 'a option" where
  "json_opt c = (case c of None \<Rightarrow> Inr None | Some (JVal a) \<Rightarrow> Inr (Some a) | Some JBad \<Rightarrow> Inl Json)"

definition into_record :: "agent_row \<Rightarrow> repo_error + agent_record" where
  "into_record r =
    result_bind (json_opt (ag_tool_allowlist r)) (\<lambda>allow.
    result_bind (json_opt (ag_tool_denylist r)) (\<lambda>deny.
    result_bind (json_opt (ag_metadata r)) (\<lambda>metadata.
      Inr \<lparr>ar_id = ag_id r, ar_public_id = ag_public_id r, ar_name = ag_name r,
           ar_description = ag_description r, ar_secret_hash = ag_secret_hash r,
           ar_tool_allowlist = allow, ar_grants_reviewed = ag_grants_reviewed r,
           ar_tool_denylist = deny, ar_metadata = metadata, ar_cert_identity = ag_cert_identity r,
           ar_registered_at = ag_registered_at r, ar_last_used_at = ag_last_used_at r,
           ar_expires_at = ag_expires_at r, ar_revoked_at = ag_revoked_at r\<rparr>)))"

section \<open>Operations\<close>

definition valid_grant_target :: "db \<Rightarrow> string \<Rightarrow> bool" where
  "valid_grant_target d n \<longleftrightarrow>
     list_ex (\<lambda>r. rg_name r = n \<and> rg_kind r \<in> {''tool'', ''model''} \<and> \<not> rg_disabled r) (registrations d)"

fun validate_grants :: "db \<Rightarrow> string list \<Rightarrow> repo_error + unit" where
  "validate_grants d [] = Inr ()"
| "validate_grants d (n # ns) =
    (if db_down d then Inl Sqlx
     else if \<not> valid_grant_target d n then Inl InvalidGrantTarget else validate_grants d ns)"

definition new_agent_row ::
    "int \<Rightarrow> minted \<Rightarrow> int \<Rightarrow> string \<Rightarrow> string option \<Rightarrow> string list \<Rightarrow> string list option \<Rightarrow>
     json option \<Rightarrow> int option \<Rightarrow> agent_row" where
  "new_agent_row i t now name description allow denylist metadata expires_at =
    \<lparr>ag_id = i, ag_public_id = mt_public_id t, ag_name = name,
     ag_description = description, ag_secret_hash = mt_hash t,
     ag_tool_allowlist = Some (JVal allow), ag_tool_denylist = map_option JVal denylist,
     ag_metadata = map_option JVal metadata, ag_cert_identity = None,
     ag_registered_at = now, ag_last_used_at = None, ag_expires_at = expires_at,
     ag_revoked_at = None, ag_grants_reviewed = True\<rparr>"

definition create_inner ::
    "crypto \<Rightarrow> rng_bytes \<Rightarrow> int \<Rightarrow> string \<Rightarrow> string option \<Rightarrow> string list option \<Rightarrow> string list option \<Rightarrow>
     json option \<Rightarrow> int option \<Rightarrow> bool \<Rightarrow> db \<Rightarrow> (repo_error + string \<times> string) \<times> db" where
  "create_inner C R now name description allowlist denylist metadata expires_at checked d =
    (case mint_credential C R NsAgent of
       Inl e \<Rightarrow> (Inl e, d)
     | Inr t \<Rightarrow>
         let allow = (case allowlist of Some l \<Rightarrow> l | None \<Rightarrow> []) in
         if db_down d then (Inl Sqlx, d)
         else if checked \<and> \<not> list_all (valid_grant_target d) allow then (Inl InvalidGrantTarget, d)
         else if list_ex (\<lambda>a. ag_name a = name \<or> ag_public_id a = mt_public_id t) (agents d)
         then (Inl (AgentNameConflict name), d)
         else (Inr (mt_public_id t, mt_secret t),
               d\<lparr>agents := agents d @
                   [new_agent_row (next_agent_id d) t now name description allow denylist metadata
                      expires_at],
                 next_agent_id := next_agent_id d + 1\<rparr>))"

definition agent_create ::
    "crypto \<Rightarrow> rng_bytes \<Rightarrow> int \<Rightarrow> string \<Rightarrow> string option \<Rightarrow> string list option \<Rightarrow> string list option \<Rightarrow>
     json option \<Rightarrow> int option \<Rightarrow> db \<Rightarrow> (repo_error + string \<times> string) \<times> db" where
  "agent_create C R now name description allowlist denylist metadata expires_at d =
    create_inner C R now name description allowlist denylist metadata expires_at False d"

definition create_reviewed ::
    "crypto \<Rightarrow> rng_bytes \<Rightarrow> int \<Rightarrow> string \<Rightarrow> string option \<Rightarrow> string list option \<Rightarrow> string list option \<Rightarrow>
     json option \<Rightarrow> int option \<Rightarrow> db \<Rightarrow> (repo_error + string \<times> string) \<times> db" where
  "create_reviewed C R now name description allowlist denylist metadata expires_at d =
    create_inner C R now name description allowlist denylist metadata expires_at True d"

definition fetch_agent :: "(agent_row \<Rightarrow> bool) \<Rightarrow> db \<Rightarrow> repo_error + agent_record option" where
  "fetch_agent P d =
    (if db_down d then Inl Sqlx
     else case find P (agents d) of
       None \<Rightarrow> Inr None
     | Some r \<Rightarrow> result_bind (into_record r) (\<lambda>a. Inr (Some a)))"

definition get_active_by_public_id :: "string \<Rightarrow> db \<Rightarrow> repo_error + agent_record option" where
  "get_active_by_public_id pid = fetch_agent (\<lambda>a. ag_public_id a = pid \<and> ag_revoked_at a = None)"

definition get_by_name :: "string \<Rightarrow> db \<Rightarrow> repo_error + agent_record option" where
  "get_by_name n = fetch_agent (\<lambda>a. ag_name a = n)"

definition get_by_cert_identity :: "string \<Rightarrow> db \<Rightarrow> repo_error + agent_record option" where
  "get_by_cert_identity i = fetch_agent (\<lambda>a. ag_cert_identity a = Some i \<and> ag_revoked_at a = None)"

definition agent_list :: "bool \<Rightarrow> db \<Rightarrow> repo_error + agent_record list" where
  "agent_list include_revoked d =
    (if db_down d then Inl Sqlx
     else collect_results (map into_record (sort_key (\<lambda>a. - ag_registered_at a)
       (if include_revoked then agents d else filter (\<lambda>a. ag_revoked_at a = None) (agents d)))))"

definition update_agent ::
    "(agent_row \<Rightarrow> bool) \<Rightarrow> (agent_row \<Rightarrow> agent_row) \<Rightarrow> repo_error \<Rightarrow> db \<Rightarrow> (repo_error + unit) \<times> db" where
  "update_agent P f none_error d =
    (if db_down d then (Inl Sqlx, d)
     else (if count_where P (agents d) = 0 then Inl none_error else Inr (),
           d\<lparr>agents := update_where P f (agents d)\<rparr>))"

definition set_cert_identity :: "string \<Rightarrow> string option \<Rightarrow> db \<Rightarrow> (repo_error + unit) \<times> db" where
  "set_cert_identity pid i =
    update_agent (\<lambda>a. ag_public_id a = pid) (\<lambda>a. a\<lparr>ag_cert_identity := i\<rparr>) AgentNotFound"

definition agent_revoke :: "int \<Rightarrow> string \<Rightarrow> db \<Rightarrow> (repo_error + unit) \<times> db" where
  "agent_revoke now pid =
    update_agent (\<lambda>a. ag_public_id a = pid) (\<lambda>a. a\<lparr>ag_revoked_at := Some now\<rparr>) AgentNotFound"

definition touch_last_used :: "int \<Rightarrow> string \<Rightarrow> db \<Rightarrow> (repo_error + unit) \<times> db" where
  "touch_last_used now pid d =
    (if db_down d then (Inl Sqlx, d)
     else (Inr (), d\<lparr>agents := update_where (\<lambda>a. ag_public_id a = pid)
                       (\<lambda>a. a\<lparr>ag_last_used_at := Some now\<rparr>) (agents d)\<rparr>))"

text \<open>Rotation: the read verifies the presented secret against the stored hash, the commit replaces the
  hash only if it is still the one that was read.\<close>

definition rotate_read :: "argon2_lib \<Rightarrow> string \<Rightarrow> string \<Rightarrow> db \<Rightarrow> repo_error + string" where
  "rotate_read L pid current_secret d =
    (if db_down d then Inl Sqlx
     else case find (\<lambda>a. ag_public_id a = pid \<and> ag_revoked_at a = None) (agents d) of
       None \<Rightarrow> Inl InvalidCredential
     | Some a \<Rightarrow>
         (case argon2_verify L (ag_secret_hash a) current_secret of
            Inl e \<Rightarrow> Inl (Hash e)
          | Inr ok \<Rightarrow> if ok then Inr (ag_secret_hash a) else Inl InvalidCredential))"

definition rotate_commit :: "string \<Rightarrow> string \<Rightarrow> minted \<Rightarrow> db \<Rightarrow> (repo_error + string) \<times> db" where
  "rotate_commit pid current_hash new d =
    (if db_down d then (Inl Sqlx, d)
     else let P = (\<lambda>a. ag_public_id a = pid \<and> ag_secret_hash a = current_hash \<and> ag_revoked_at a = None)
          in (if count_where P (agents d) = 0 then Inl (RotationInProgress pid) else Inr (mt_secret new),
              d\<lparr>agents := update_where P (\<lambda>a. a\<lparr>ag_secret_hash := mt_hash new\<rparr>) (agents d)\<rparr>))"

definition agent_rotate ::
    "crypto \<Rightarrow> rng_bytes \<Rightarrow> string \<Rightarrow> string \<Rightarrow> db \<Rightarrow> (repo_error + string) \<times> db" where
  "agent_rotate C R pid current_secret d =
    (case rotate_read (cr_argon2 C) pid current_secret d of
       Inl e \<Rightarrow> (Inl e, d)
     | Inr h \<Rightarrow>
         (case mint_credential C R NsAgent of
            Inl e \<Rightarrow> (Inl e, d)
          | Inr new \<Rightarrow> rotate_commit pid h new d))"

text \<open>Policy updates: an absent argument leaves the column, \<open>Some None\<close> clears it; clearing the
  allowlist stores the empty list.  The target check is part of the UPDATE's WHERE clause.\<close>

definition policy_row ::
    "string list option option \<Rightarrow> string list option option \<Rightarrow> json option option \<Rightarrow> int option option \<Rightarrow>
     agent_row \<Rightarrow> agent_row" where
  "policy_row allowlist denylist metadata expires_at a =
    (let a1 = (case allowlist of None \<Rightarrow> a
               | Some v \<Rightarrow> a\<lparr>ag_tool_allowlist := Some (JVal (case v of Some l \<Rightarrow> l | None \<Rightarrow> [])),
                            ag_grants_reviewed := True\<rparr>);
         a2 = (case denylist of None \<Rightarrow> a1 | Some v \<Rightarrow> a1\<lparr>ag_tool_denylist := map_option JVal v\<rparr>);
         a3 = (case metadata of None \<Rightarrow> a2 | Some v \<Rightarrow> a2\<lparr>ag_metadata := map_option JVal v\<rparr>)
     in (case expires_at of None \<Rightarrow> a3 | Some v \<Rightarrow> a3\<lparr>ag_expires_at := v\<rparr>))"

definition update_policy_inner ::
    "string \<Rightarrow> string list option option \<Rightarrow> string list option option \<Rightarrow> json option option \<Rightarrow>
     int option option \<Rightarrow> bool \<Rightarrow> db \<Rightarrow> (repo_error + unit) \<times> db" where
  "update_policy_inner pid allowlist denylist metadata expires_at checked d =
    (let check_targets = (checked \<and> allowlist \<noteq> None);
         targets = (case allowlist of Some (Some l) \<Rightarrow> l | _ \<Rightarrow> [])
     in
     if allowlist = None \<and> denylist = None \<and> metadata = None \<and> expires_at = None then (Inr (), d)
     else if db_down d then (Inl Sqlx, d)
     else
       let P = (\<lambda>a. ag_public_id a = pid
                   \<and> (\<not> check_targets \<or> list_all (valid_grant_target d) targets));
           d' = d\<lparr>agents := update_where P (policy_row allowlist denylist metadata expires_at) (agents d)\<rparr>
       in
       if count_where P (agents d) = 0
       then (if check_targets
             then (case get_active_by_public_id pid d' of
                     Inl e \<Rightarrow> Inl e
                   | Inr (Some _) \<Rightarrow> Inl InvalidGrantTarget
                   | Inr None \<Rightarrow> Inl AgentNotFound)
             else Inl AgentNotFound, d')
       else (Inr (), d'))"

definition update_policy ::
    "string \<Rightarrow> string list option option \<Rightarrow> string list option option \<Rightarrow> json option option \<Rightarrow>
     int option option \<Rightarrow> db \<Rightarrow> (repo_error + unit) \<times> db" where
  "update_policy pid allowlist denylist metadata expires_at d =
    update_policy_inner pid allowlist denylist metadata expires_at False d"

definition update_policy_reviewed ::
    "string \<Rightarrow> string list option option \<Rightarrow> string list option option \<Rightarrow> json option option \<Rightarrow>
     int option option \<Rightarrow> db \<Rightarrow> (repo_error + unit) \<times> db" where
  "update_policy_reviewed pid allowlist denylist metadata expires_at d =
    update_policy_inner pid allowlist denylist metadata expires_at True d"

section \<open>Lemmas\<close>

lemma policy_row_keeps [simp]:
  "ag_id (policy_row al de me ex a) = ag_id a"
  "ag_public_id (policy_row al de me ex a) = ag_public_id a"
  "ag_name (policy_row al de me ex a) = ag_name a"
  "ag_secret_hash (policy_row al de me ex a) = ag_secret_hash a"
  "ag_revoked_at (policy_row al de me ex a) = ag_revoked_at a"
  "ag_cert_identity (policy_row al de me ex a) = ag_cert_identity a"
  by (simp_all add: policy_row_def Let_def split: option.split)

lemma validate_grants_iff:
  "validate_grants d ns = Inr () \<longleftrightarrow> ns = [] \<or> (\<not> db_down d \<and> list_all (valid_grant_target d) ns)"
  by (induction ns) auto

lemma db_ok_update_agents:
  assumes "db_ok d"
    and "\<And>a. ag_id (f a) = ag_id a" "\<And>a. ag_public_id (f a) = ag_public_id a"
      "\<And>a. ag_name (f a) = ag_name a"
  shows "db_ok (d\<lparr>agents := update_where P f (agents d)\<rparr>)"
proof -
  have keys: "map ag_id (update_where P f rs) = map ag_id rs"
    "map ag_public_id (update_where P f rs) = map ag_public_id rs"
    "map ag_name (update_where P f rs) = map ag_name rs" for rs
    by (auto simp: update_where_def assms)
  have "ag_id ` set (update_where P f rs) = ag_id ` set rs" for rs
    using arg_cong [OF keys(1) [of rs], of set] by simp
  then show ?thesis
    using assms(1) by (auto simp: db_ok_def keys list_all_iff set_update_where assms)
qed

lemma create_inner_cases:
  obtains (refused) e where "create_inner C R now name de al dn me ex chk d = (Inl e, d)"
  | (created) t allow where "mint_credential C R NsAgent = Inr t"
      "allow = (case al of Some l \<Rightarrow> l | None \<Rightarrow> [])" "\<not> db_down d"
      "chk \<Longrightarrow> list_all (valid_grant_target d) allow"
      "name \<notin> ag_name ` set (agents d)" "mt_public_id t \<notin> ag_public_id ` set (agents d)"
      "create_inner C R now name de al dn me ex chk d =
         (Inr (mt_public_id t, mt_secret t),
          d\<lparr>agents := agents d @ [new_agent_row (next_agent_id d) t now name de allow dn me ex],
            next_agent_id := next_agent_id d + 1\<rparr>)"
proof (cases "mint_credential C R NsAgent")
  case (Inl e)
  then show thesis
    using refused by (simp add: create_inner_def)
next
  case (Inr t)
  let ?allow = "case al of Some l \<Rightarrow> l | None \<Rightarrow> []"
  let ?clash = "list_ex (\<lambda>a. ag_name a = name \<or> ag_public_id a = mt_public_id t) (agents d)"
  consider "db_down d" | "\<not> db_down d" "chk \<and> \<not> list_all (valid_grant_target d) ?allow"
    | "\<not> db_down d" "\<not> (chk \<and> \<not> list_all (valid_grant_target d) ?allow)" "?clash"
    | "\<not> db_down d" "\<not> (chk \<and> \<not> list_all (valid_grant_target d) ?allow)" "\<not> ?clash"
    by blast
  then show thesis
  proof cases
    case 1
    then show thesis
      by (intro refused [of Sqlx]) (simp add: create_inner_def Inr Let_def)
  next
    case 2
    then show thesis
      by (intro refused [of InvalidGrantTarget]) (simp add: create_inner_def Inr Let_def)
  next
    case 3
    then show thesis
      by (intro refused [of "AgentNameConflict name"]) (simp add: create_inner_def Inr Let_def)
  next
    case 4
    then have "create_inner C R now name de al dn me ex chk d =
         (Inr (mt_public_id t, mt_secret t),
          d\<lparr>agents := agents d @ [new_agent_row (next_agent_id d) t now name de ?allow dn me ex],
            next_agent_id := next_agent_id d + 1\<rparr>)"
      by (simp add: create_inner_def Inr Let_def)
    with 4 show thesis
      by (intro created [OF Inr refl]) (auto simp: list_ex_iff)
  qed
qed

lemma new_agent_row_simps [simp]:
  "ag_id (new_agent_row i t now name de al dn me ex) = i"
  "ag_public_id (new_agent_row i t now name de al dn me ex) = mt_public_id t"
  "ag_name (new_agent_row i t now name de al dn me ex) = name"
  "ag_secret_hash (new_agent_row i t now name de al dn me ex) = mt_hash t"
  "ag_revoked_at (new_agent_row i t now name de al dn me ex) = None"
  by (simp_all add: new_agent_row_def)

section \<open>Runs of agent writes\<close>

text \<open>One write of the agent repository, a registry write, or a change of the availability of the
  database.  \<open>F\<close> restricts the hashes that newly minted credentials may have.\<close>

inductive agent_step :: "(string \<Rightarrow> bool) \<Rightarrow> db \<Rightarrow> db \<Rightarrow> bool" for F where
  ag_create: "(\<And>t. mint_credential C R NsAgent = Inr t \<Longrightarrow> F (mt_hash t)) \<Longrightarrow>
    agent_step F d (snd (create_inner C R now name de al dn me ex chk d))"
| ag_cert: "agent_step F d (snd (set_cert_identity pid i d))"
| ag_revoke: "agent_step F d (snd (agent_revoke now pid d))"
| ag_touch: "agent_step F d (snd (touch_last_used now pid d))"
| ag_rotate: "F (mt_hash m) \<Longrightarrow> agent_step F d (snd (rotate_commit pid h m d))"
| ag_policy: "agent_step F d (snd (update_policy_inner pid al dn me ex chk d))"
| ag_registry: "registry_step d d' \<Longrightarrow> agent_step F d d'"
| ag_fault: "agent_step F d (d\<lparr>db_down := b\<rparr>)"

inductive agent_run :: "(string \<Rightarrow> bool) \<Rightarrow> db \<Rightarrow> db \<Rightarrow> bool" for F where
  agrun_refl: "agent_run F d d"
| agrun_step: "agent_run F d d' \<Longrightarrow> agent_step F d' d'' \<Longrightarrow> agent_run F d d''"

text \<open>How a write transforms the agents table: it appends one row with a new public id, or rewrites
  rows by a function that keeps keys, or prunes.\<close>

lemma agents_registry_step:
  assumes "registry_step d d'"
  shows "agents d' = agents d \<or> (\<exists>n. agents d' = map (prune_agent n) (agents d))"
  using assms
  by (cases rule: registry_step.cases)
    (auto simp: registry_ops invalidate_authority_def Let_def split: option.split)

lemma agents_update_policy:
  "agents (snd (update_policy_inner pid al dn me ex chk d)) = agents d \<or>
   (\<exists>P. agents (snd (update_policy_inner pid al dn me ex chk d))
        = update_where P (policy_row al dn me ex) (agents d))"
  by (auto simp: update_policy_inner_def Let_def)

lemma agents_agent_step:
  assumes "agent_step F d d'"
  obtains (same) "agents d' = agents d"
  | (insert) a where "agents d' = agents d @ [a]" "F (ag_secret_hash a)" "ag_revoked_at a = None"
      "ag_public_id a \<notin> ag_public_id ` set (agents d)"
  | (map) f where "agents d' = map f (agents d)" "\<And>a. ag_public_id (f a) = ag_public_id a"
      "\<And>a. ag_secret_hash (f a) = ag_secret_hash a \<or> F (ag_secret_hash (f a))"
      "\<And>a. ag_revoked_at a \<noteq> None \<Longrightarrow> ag_revoked_at (f a) \<noteq> None"
proof -
  have upd: thesis
    if or: "agents d' = agents d \<or> (\<exists>P. agents d' = update_where P f (agents d))"
      and f: "\<And>a. ag_public_id (f a) = ag_public_id a"
        "\<And>a. ag_secret_hash (f a) = ag_secret_hash a \<or> F (ag_secret_hash (f a))"
        "\<And>a. ag_revoked_at a \<noteq> None \<Longrightarrow> ag_revoked_at (f a) \<noteq> None" for f
    using or
  proof (elim disjE exE)
    fix P assume "agents d' = update_where P f (agents d)"
    then show thesis
      using f by (intro map [of "\<lambda>r. if P r then f r else r"]) (auto simp: update_where_def)
  qed (rule same)
  show thesis
    using assms
  proof (cases rule: agent_step.cases)
    case (ag_create C R now name de al dn me ex chk)
    show thesis
    proof (cases rule: create_inner_cases [of C R now name de al dn me ex chk d])
      case (refused e)
      then show thesis
        using ag_create same by simp
    next
      case (created t allow)
      then show thesis
        using ag_create
        by (intro insert [of "new_agent_row (next_agent_id d) t now name de allow dn me ex"]) simp_all
    qed
  next
    case (ag_policy pid al dn me ex chk)
    show thesis
      by (rule upd [of "policy_row al dn me ex"])
        (use ag_policy agents_update_policy [of pid al dn me ex chk d] in simp_all)
  next
    case ag_registry
    from agents_registry_step [OF ag_registry] show thesis
    proof (elim disjE exE)
      fix n assume "agents d' = List.map (prune_agent n) (agents d)"
      then show thesis
        by (rule map) simp_all
    qed (rule same)
  next
    case (ag_cert pid i)
    show thesis
      by (rule upd [of "\<lambda>a. a\<lparr>ag_cert_identity := i\<rparr>"])
        (use ag_cert in \<open>auto simp: set_cert_identity_def update_agent_def\<close>)
  next
    case (ag_revoke now pid)
    show thesis
      by (rule upd [of "\<lambda>a. a\<lparr>ag_revoked_at := Some now\<rparr>"])
        (use ag_revoke in \<open>auto simp: agent_revoke_def update_agent_def\<close>)
  next
    case (ag_touch now pid)
    show thesis
      by (rule upd [of "\<lambda>a. a\<lparr>ag_last_used_at := Some now\<rparr>"])
        (use ag_touch in \<open>auto simp: touch_last_used_def\<close>)
  next
    case (ag_rotate m pid h)
    show thesis
      by (rule upd [of "\<lambda>a. a\<lparr>ag_secret_hash := mt_hash m\<rparr>"])
        (use ag_rotate in \<open>auto simp: rotate_commit_def Let_def\<close>)
  next
    case (ag_fault b)
    then show thesis
      by (intro same) simp
  qed
qed

section \<open>Rotation\<close>

definition current_hash :: "string \<Rightarrow> string \<Rightarrow> db \<Rightarrow> bool" where
  "current_hash pid h d \<longleftrightarrow>
     list_ex (\<lambda>a. ag_public_id a = pid \<and> ag_secret_hash a = h \<and> ag_revoked_at a = None) (agents d)"

lemma rotate_commit_result:
  "fst (rotate_commit pid h m d) =
     (if db_down d then Inl Sqlx
      else if current_hash pid h d then Inr (mt_secret m) else Inl (RotationInProgress pid))"
  by (simp add: rotate_commit_def Let_def current_hash_def count_where_zero_list_ex)

lemma rotate_commit_replaces:
  assumes "mt_hash m \<noteq> h" and "\<not> db_down d"
  shows "\<not> current_hash pid h (snd (rotate_commit pid h m d))"
  using assms
  by (simp add: rotate_commit_def Let_def current_hash_def list_ex_update_where)
    (auto simp: list_ex_iff)

lemma superseded_hash_stays:
  assumes "agent_step (\<lambda>x. x \<noteq> h) d d'" and "\<not> current_hash pid h d"
  shows "\<not> current_hash pid h d'"
  using assms(1)
proof (cases rule: agents_agent_step)
  case same
  then show ?thesis
    using assms(2) by (simp add: current_hash_def)
next
  case (insert a)
  then show ?thesis
    using assms(2) by (simp add: current_hash_def)
next
  case (map f)
  have "current_hash pid h d" if "current_hash pid h d'"
  proof -
    from that obtain a where a: "a \<in> set (agents d)" "ag_public_id (f a) = pid"
      "ag_secret_hash (f a) = h" "ag_revoked_at (f a) = None"
      by (auto simp: current_hash_def list_ex_iff map(1))
    then have "ag_secret_hash a = h" "ag_revoked_at a = None" "ag_public_id a = pid"
      using map(2-4) [of a] by (cases "ag_revoked_at a"; simp)+
    with a(1) show ?thesis
      by (auto simp: current_hash_def list_ex_iff)
  qed
  then show ?thesis
    using assms(2) by blast
qed

text \<open>C28. Concurrent rotations have at most one winner: once a rotation that read hash \<open>h\<close> has committed,
  every other rotation that read \<open>h\<close> is refused, whatever agent and registry writes, and outages,
  happen in between; newly minted hashes only have to differ from \<open>h\<close>.\<close>

theorem rotation_single_winner:
  assumes "fst (rotate_commit pid h m d) = Inr s" and "mt_hash m \<noteq> h"
    and "agent_run (\<lambda>x. x \<noteq> h) (snd (rotate_commit pid h m d)) d'"
  shows "fst (rotate_commit pid h m' d') = (if db_down d' then Inl Sqlx else Inl (RotationInProgress pid))"
proof -
  have "\<not> db_down d"
    using assms(1) by (auto simp: rotate_commit_result split: if_splits)
  with assms(2) have "\<not> current_hash pid h (snd (rotate_commit pid h m d))"
    by (rule rotate_commit_replaces)
  with assms(3) have "\<not> current_hash pid h d'"
    by (induction rule: agent_run.induct) (auto dest: superseded_hash_stays)
  then show ?thesis
    by (simp add: rotate_commit_result)
qed

theorem rotation_single_winner_witness:
  "let m = \<lparr>mt_public_id = ''x'', mt_secret = ''s2'', mt_hash = ''phc2''\<rparr>;
       m' = \<lparr>mt_public_id = ''y'', mt_secret = ''s3'', mt_hash = ''phc3''\<rparr>;
       d' = snd (rotate_commit ''abcdefgh'' ''phc'' m demo_db)
   in fst (rotate_commit ''abcdefgh'' ''phc'' m demo_db) = Inr ''s2''
      \<and> fst (rotate_commit ''abcdefgh'' ''phc'' m' d') = Inl (RotationInProgress ''abcdefgh'')"
proof -
  let ?m = "\<lparr>mt_public_id = ''x'', mt_secret = ''s2'', mt_hash = ''phc2''\<rparr> :: minted"
  let ?m' = "\<lparr>mt_public_id = ''y'', mt_secret = ''s3'', mt_hash = ''phc3''\<rparr> :: minted"
  let ?d' = "snd (rotate_commit ''abcdefgh'' ''phc'' ?m demo_db)"
  have first: "fst (rotate_commit ''abcdefgh'' ''phc'' ?m demo_db) = Inr ''s2''"
    by (simp add: rotate_commit_result current_hash_def demo_defs)
  have up: "\<not> db_down ?d'"
    by (simp add: rotate_commit_def Let_def demo_defs)
  show ?thesis
    using first up rotation_single_winner [OF first _ agrun_refl, of ?m'] by (simp add: Let_def)
qed

section \<open>Revocation\<close>

definition revoked :: "string \<Rightarrow> db \<Rightarrow> bool" where
  "revoked pid d \<longleftrightarrow> pid \<in> ag_public_id ` set (agents d)
     \<and> list_all (\<lambda>a. ag_public_id a = pid \<longrightarrow> ag_revoked_at a \<noteq> None) (agents d)"

lemma revoked_stays:
  assumes "agent_step F d d'" and "revoked pid d"
  shows "revoked pid d'"
  using assms(1)
proof (cases rule: agents_agent_step)
  case same
  then show ?thesis
    using assms(2) by (simp add: revoked_def)
next
  case (insert a)
  then show ?thesis
    using assms(2) by (auto simp: revoked_def)
next
  case (map f)
  then show ?thesis
    using assms(2) by (auto simp: revoked_def list_all_iff image_image)
qed

lemma revoke_revokes:
  assumes "fst (agent_revoke now pid d) = Inr ()"
  shows "revoked pid (snd (agent_revoke now pid d))"
proof -
  let ?as = "update_where (\<lambda>a. ag_public_id a = pid) (\<lambda>a. a\<lparr>ag_revoked_at := Some now\<rparr>) (agents d)"
  from assms have ex: "list_ex (\<lambda>a. ag_public_id a = pid) (agents d)"
    and d': "agents (snd (agent_revoke now pid d)) = ?as"
    by (simp_all add: agent_revoke_def update_agent_def count_where_zero_list_ex split: if_splits)
  have "list_ex (\<lambda>a. ag_public_id a = pid) ?as"
    using ex by (simp add: list_ex_update_where if_distrib cong: if_cong)
  then have "pid \<in> ag_public_id ` set ?as"
    by (auto simp: list_ex_iff)
  moreover have "list_all (\<lambda>a. ag_public_id a = pid \<longrightarrow> ag_revoked_at a \<noteq> None) ?as"
    by (simp add: list_all_update_where) (simp add: list_all_iff)
  ultimately show ?thesis
    unfolding revoked_def d' by blast
qed

lemma revoked_not_found:
  assumes "revoked pid d"
  shows "find (\<lambda>a. ag_public_id a = pid \<and> ag_revoked_at a = None) (agents d) = None"
  using assms by (auto simp: revoked_def find_None_iff list_all_iff)

text \<open>Revocation is permanent: after a successful revoke, over any sequence of agent and registry
  writes and outages, the agent is never found again by its public id, and a rotation of its secret
  is refused whatever secret is presented.\<close>

theorem revocation_permanent:
  assumes "fst (agent_revoke now pid d) = Inr ()"
    and "agent_run F (snd (agent_revoke now pid d)) d'"
  shows "get_active_by_public_id pid d' = (if db_down d' then Inl Sqlx else Inr None)
    \<and> rotate_read L pid s d' = (if db_down d' then Inl Sqlx else Inl InvalidCredential)"
proof -
  have "revoked pid (snd (agent_revoke now pid d))"
    using assms(1) by (rule revoke_revokes)
  with assms(2) have "revoked pid d'"
    by (induction rule: agent_run.induct) (auto dest: revoked_stays)
  then show ?thesis
    by (simp add: get_active_by_public_id_def fetch_agent_def rotate_read_def revoked_not_found)
qed

theorem revocation_permanent_witness:
  "let d' = snd (agent_revoke 200 ''abcdefgh'' demo_db) in
   fst (agent_revoke 200 ''abcdefgh'' demo_db) = Inr ()
   \<and> get_active_by_public_id ''abcdefgh'' d' = Inr None"
proof -
  have ok: "fst (agent_revoke 200 ''abcdefgh'' demo_db) = Inr ()"
    by (simp add: agent_revoke_def update_agent_def count_where_def demo_defs)
  have "\<not> db_down (snd (agent_revoke 200 ''abcdefgh'' demo_db))"
    by (simp add: agent_revoke_def update_agent_def demo_defs)
  then show ?thesis
    using ok revocation_permanent [OF ok agrun_refl] by (simp add: Let_def)
qed

section \<open>Creation\<close>

lemma json_opt_simps [simp]: "json_opt (Some (JVal a)) = Inr (Some a)" "json_opt (map_option JVal x) = Inr x"
  by (simp_all add: json_opt_def split: option.split)

lemma find_new_agent:
  assumes "P a" and "\<not> list_ex P as"
  shows "find P (as @ [a]) = Some a"
  using assms by (induction as) auto

text \<open>Creating an agent: on success the new agent is active under the returned public id with exactly
  the requested grants (none when no list is given), denylist and expiry, its id is one no agent had
  before, all existing agents are untouched, and in the reviewed form every granted name is a
  currently enabled tool or model.  On failure nothing changes.\<close>

theorem create_agent_grants:
  assumes "db_ok d"
    and "create_inner C R now name de al dn me ex chk d = (r, d')"
  shows "case r of
      Inl e \<Rightarrow> d' = d
    | Inr (pid, secret) \<Rightarrow>
        (\<exists>a. get_active_by_public_id pid d' = Inr (Some a)
           \<and> ar_name a = name \<and> ar_id a \<notin> ag_id ` set (agents d)
           \<and> effective_allowlist a = Some (case al of Some l \<Rightarrow> l | None \<Rightarrow> [])
           \<and> ar_tool_denylist a = dn \<and> ar_expires_at a = ex)
        \<and> take (length (agents d)) (agents d') = agents d
        \<and> (chk \<and> al \<noteq> None \<longrightarrow> list_all (valid_grant_target d) (the al))"
proof (cases rule: create_inner_cases [of C R now name de al dn me ex chk d])
  case (refused e)
  then show ?thesis
    using assms(2) by simp
next
  case (created t allow)
  let ?a = "new_agent_row (next_agent_id d) t now name de allow dn me ex"
  have r: "r = Inr (mt_public_id t, mt_secret t)" and ag: "agents d' = agents d @ [?a]"
    and up: "\<not> db_down d'"
    using assms(2) created by auto
  have "find (\<lambda>a. ag_public_id a = mt_public_id t \<and> ag_revoked_at a = None) (agents d') = Some ?a"
    unfolding ag using created(6) by (intro find_new_agent) (simp, force simp: list_ex_iff)
  then have "get_active_by_public_id (mt_public_id t) d' = Inr (Some
      \<lparr>ar_id = next_agent_id d, ar_public_id = mt_public_id t, ar_name = name, ar_description = de,
       ar_secret_hash = mt_hash t, ar_tool_allowlist = Some allow, ar_grants_reviewed = True,
       ar_tool_denylist = dn, ar_metadata = me, ar_cert_identity = None, ar_registered_at = now,
       ar_last_used_at = None, ar_expires_at = ex, ar_revoked_at = None\<rparr>)"
    using up by (simp add: get_active_by_public_id_def fetch_agent_def into_record_def new_agent_row_def)
  moreover have "next_agent_id d \<notin> ag_id ` set (agents d)"
    using assms(1) by (auto simp: db_ok_def list_all_iff)
  moreover have "chk \<and> al \<noteq> None \<longrightarrow> list_all (valid_grant_target d) (the al)"
    using created(2,4) by (auto split: option.splits)
  ultimately show ?thesis
    using created(2) ag by (simp add: r effective_allowlist_def)
qed

text \<open>A concrete stand-in for the cryptographic libraries: bytes encode as characters, the hash of a
  secret is the secret marked.\<close>

definition demo_crypto :: crypto where
  "demo_crypto = \<lparr>cr_enc = map (\<lambda>b. char_of (unat b)), cr_argon2 =
     \<lparr>lib_params = (\<lambda>m t p l. True), lib_parse = (\<lambda>h. starts_with ''phc'' h),
      lib_verify = (\<lambda>s h. if h = ''phc'' @ s then PwOk else PwMismatch),
      lib_salt = (\<lambda>bs. Some []), lib_hash = (\<lambda>s salt. Some (''phc'' @ s))\<rparr>\<rparr>"

definition demo_rng :: rng_bytes where
  "demo_rng = \<lparr>rng_id = [65, 66], rng_secret = [67, 68], rng_salt = []\<rparr>"

lemma demo_mint:
  "mint_credential demo_crypto demo_rng ns = Inr \<lparr>mt_public_id = ''AB'', mt_secret = ''CD'', mt_hash = ''phcCD''\<rparr>"
  by (simp add: mint_credential_def demo_crypto_def demo_rng_def argon2_hash_def argon2_params_def
      generate_def char_of_def bit_0)

theorem create_agent_grants_witness:
  "\<exists>d' a. create_inner demo_crypto demo_rng 300 ''openclaw'' None (Some [''github'']) None None (Some 999) True demo_db
      = (Inr (''AB'', ''CD''), d')
    \<and> get_active_by_public_id ''AB'' d' = Inr (Some a) \<and> effective_allowlist a = Some [''github'']"
proof -
  have ok: "db_ok demo_db"
    by (simp add: db_ok_def demo_defs override_key_def reg_row_check_def)
  obtain d' where c: "create_inner demo_crypto demo_rng 300 ''openclaw'' None (Some [''github'']) None None
      (Some 999) True demo_db = (Inr (''AB'', ''CD''), d')"
    by (simp add: create_inner_def demo_mint Let_def demo_defs valid_grant_target_def)
  show ?thesis
    using create_agent_grants [OF ok c] c by auto
qed

section \<open>Integrity\<close>

lemma db_ok_new_agent:
  assumes "db_ok d" and "name \<notin> ag_name ` set (agents d)"
    and "mt_public_id t \<notin> ag_public_id ` set (agents d)"
  shows "db_ok (d\<lparr>agents := agents d @ [new_agent_row (next_agent_id d) t now name de allow dn me ex],
            next_agent_id := next_agent_id d + 1\<rparr>)"
proof -
  have "next_agent_id d \<notin> ag_id ` set (agents d)"
    using assms(1) by (auto simp: db_ok_def list_all_iff)
  moreover have "list_all (\<lambda>a. ag_id a < next_agent_id d + 1) (agents d)"
    using assms(1) by (auto simp: db_ok_def list_all_iff)
  ultimately show ?thesis
    using assms by (auto simp: db_ok_def list_all_iff)
qed

lemma agent_step_db_ok:
  assumes "agent_step F d d'" and "db_ok d"
  shows "db_ok d'"
  using assms(1)
proof (cases rule: agent_step.cases)
  case (ag_create C R now name de al dn me ex chk)
  show ?thesis
  proof (cases rule: create_inner_cases [of C R now name de al dn me ex chk d])
    case (refused e)
    then show ?thesis
      using ag_create assms(2) by simp
  next
    case (created t allow)
    then show ?thesis
      using ag_create db_ok_new_agent [OF assms(2) created(5,6)] by simp
  qed
next
  case (ag_policy pid al dn me ex chk)
  then show ?thesis
    using assms(2) by (auto simp: update_policy_inner_def Let_def intro!: db_ok_update_agents)
next
  case ag_registry
  then show ?thesis
    using assms(2) by (rule registry_step_keeps)
next
  case (ag_fault b)
  then show ?thesis
    using assms(2) by (simp add: db_ok_def)
qed (use assms(2) in \<open>auto simp: set_cert_identity_def agent_revoke_def touch_last_used_def
      rotate_commit_def update_agent_def Let_def intro!: db_ok_update_agents\<close>)

end
