(* ===== verification/Bootstrap.thy ===== *)
theory Bootstrap
  imports Agents
begin

text \<open>
  \<open>repo/bootstrap.rs\<close>: bootstrap tokens, the one-time credentials with which an agent registers
  itself.  \<open>consume\<close> is its read (secret verification against a snapshot of the row) followed by a
  committing UPDATE that re-checks the snapshot; the two are separate so that interleavings can be
  stated.
\<close>

datatype bootstrap_status = Active | Used | Revoked | Expired | Unknown

record bootstrap_record =
  br_id :: int
  br_public_id :: string
  br_scope :: bootstrap_scope
  br_created_by :: string
  br_created_at :: int
  br_expires_at :: "int option"
  br_used_at :: "int option"
  br_used_by_agent_id :: "int option"
  br_revoked_at :: "int option"
  br_grants_reviewed :: bool

definition mint_inner ::
    "crypto \<Rightarrow> rng_bytes \<Rightarrow> int \<Rightarrow> bootstrap_scope \<Rightarrow> string \<Rightarrow> bool \<Rightarrow> db \<Rightarrow>
     (repo_error + string \<times> string) \<times> db" where
  "mint_inner C R now scope created_by checked d =
    (case mint_credential C R NsBootstrap of
       Inl e \<Rightarrow> (Inl e, d)
     | Inr t \<Rightarrow>
         let allow = (case sc_tool_allowlist scope of Some l \<Rightarrow> l | None \<Rightarrow> []);
             scope' = scope\<lparr>sc_tool_allowlist := Some allow\<rparr> in
         if db_down d then (Inl Sqlx, d)
         else if checked \<and> \<not> list_all (valid_grant_target d) allow then (Inl InvalidGrantTarget, d)
         else if list_ex (\<lambda>b. bk_public_id b = mt_public_id t) (bootstrap_tokens d) then (Inl Sqlx, d)
         else (Inr (mt_public_id t, mt_secret t),
               d\<lparr>bootstrap_tokens := bootstrap_tokens d @
                   [\<lparr>bk_id = next_bootstrap_id d, bk_public_id = mt_public_id t,
                     bk_secret_hash = mt_hash t, bk_scope = JVal scope', bk_created_by = created_by,
                     bk_created_at = now, bk_expires_at = sc_expires_at scope', bk_used_at = None,
                     bk_used_by_agent_id = None, bk_revoked_at = None, bk_grants_reviewed = True\<rparr>],
                 next_bootstrap_id := next_bootstrap_id d + 1\<rparr>))"

definition mint ::
    "crypto \<Rightarrow> rng_bytes \<Rightarrow> int \<Rightarrow> bootstrap_scope \<Rightarrow> string \<Rightarrow> db \<Rightarrow> (repo_error + string \<times> string) \<times> db" where
  "mint C R now scope created_by d = mint_inner C R now scope created_by False d"

definition mint_reviewed ::
    "crypto \<Rightarrow> rng_bytes \<Rightarrow> int \<Rightarrow> bootstrap_scope \<Rightarrow> string \<Rightarrow> db \<Rightarrow> (repo_error + string \<times> string) \<times> db" where
  "mint_reviewed C R now scope created_by d = mint_inner C R now scope created_by True d"

definition reviewed_token :: "string \<Rightarrow> db \<Rightarrow> bootstrap_row option" where
  "reviewed_token pid d = find (\<lambda>b. bk_public_id b = pid \<and> bk_grants_reviewed b) (bootstrap_tokens d)"

definition expired_before :: "int \<Rightarrow> int option \<Rightarrow> bool" where
  "expired_before now e = (case e of Some t \<Rightarrow> t < now | None \<Rightarrow> False)"

definition diagnose :: "int \<Rightarrow> string \<Rightarrow> db \<Rightarrow> repo_error + bootstrap_status" where
  "diagnose now pid d =
    (if db_down d then Inl Sqlx
     else case reviewed_token pid d of
       None \<Rightarrow> Inr Unknown
     | Some b \<Rightarrow>
         if bk_revoked_at b \<noteq> None then Inr Revoked
         else if bk_used_at b \<noteq> None then Inr Used
         else if expired_before now (bk_expires_at b) then Inr Expired
         else Inr Active)"

definition preview_scope :: "int \<Rightarrow> string \<Rightarrow> db \<Rightarrow> repo_error + bootstrap_scope" where
  "preview_scope now pid d =
    (if db_down d then Inl Sqlx
     else case reviewed_token pid d of
       None \<Rightarrow> Inl InvalidCredential
     | Some b \<Rightarrow>
         if bk_used_at b \<noteq> None \<or> bk_revoked_at b \<noteq> None then Inl InvalidCredential
         else if expired_before now (bk_expires_at b) then Inl InvalidCredential
         else (case bk_scope b of JVal s \<Rightarrow> Inr s | JBad \<Rightarrow> Inl Json))"

definition bootstrap_into_record :: "bootstrap_row \<Rightarrow> repo_error + bootstrap_record" where
  "bootstrap_into_record b =
    (case bk_scope b of
       JBad \<Rightarrow> Inl Json
     | JVal s \<Rightarrow> Inr \<lparr>br_id = bk_id b, br_public_id = bk_public_id b, br_scope = s,
         br_created_by = bk_created_by b, br_created_at = bk_created_at b,
         br_expires_at = bk_expires_at b, br_used_at = bk_used_at b,
         br_used_by_agent_id = bk_used_by_agent_id b, br_revoked_at = bk_revoked_at b,
         br_grants_reviewed = bk_grants_reviewed b\<rparr>)"

definition bootstrap_list :: "db \<Rightarrow> repo_error + bootstrap_record list" where
  "bootstrap_list d =
    (if db_down d then Inl Sqlx
     else collect_results (map bootstrap_into_record
            (sort_key (\<lambda>b. - bk_created_at b) (bootstrap_tokens d))))"

definition bootstrap_revoke :: "int \<Rightarrow> string \<Rightarrow> db \<Rightarrow> (repo_error + unit) \<times> db" where
  "bootstrap_revoke now pid d =
    (if db_down d then (Inl Sqlx, d)
     else (if count_where (\<lambda>b. bk_public_id b = pid) (bootstrap_tokens d) = 0
           then Inl AgentNotFound else Inr (),
           d\<lparr>bootstrap_tokens := update_where (\<lambda>b. bk_public_id b = pid)
               (\<lambda>b. b\<lparr>bk_revoked_at := Some now\<rparr>) (bootstrap_tokens d)\<rparr>))"

definition consume_read :: "argon2_lib \<Rightarrow> int \<Rightarrow> string \<Rightarrow> string \<Rightarrow> db \<Rightarrow> repo_error + bootstrap_scope" where
  "consume_read L now pid secret d =
    (if db_down d then Inl Sqlx
     else case reviewed_token pid d of
       None \<Rightarrow> Inl InvalidCredential
     | Some b \<Rightarrow>
         if bk_used_at b \<noteq> None \<or> bk_revoked_at b \<noteq> None then Inl InvalidCredential
         else if expired_before now (bk_expires_at b) then Inl InvalidCredential
         else (case argon2_verify L (bk_secret_hash b) secret of
                 Inl e \<Rightarrow> Inl (Hash e)
               | Inr ok \<Rightarrow>
                   if \<not> ok then Inl InvalidCredential
                   else (case bk_scope b of JVal s \<Rightarrow> Inr s | JBad \<Rightarrow> Inl Json)))"

text \<open>The commit: \<open>now\<close> is the time of the read (the recorded use), \<open>later\<close> the time bound to the expiry
  test.  The foreign key on \<open>used_by_agent_id\<close> is checked when a row is updated.\<close>

definition consumable :: "int \<Rightarrow> bootstrap_scope \<Rightarrow> string \<Rightarrow> bootstrap_row \<Rightarrow> bool" where
  "consumable later scope pid b \<longleftrightarrow>
     bk_public_id b = pid \<and> bk_used_at b = None \<and> bk_revoked_at b = None \<and> bk_grants_reviewed b
   \<and> bk_scope b = JVal scope \<and> (case bk_expires_at b of None \<Rightarrow> True | Some e \<Rightarrow> later < e)"

definition consume_commit ::
    "int \<Rightarrow> int \<Rightarrow> bootstrap_scope \<Rightarrow> int \<Rightarrow> string \<Rightarrow> db \<Rightarrow> (repo_error + bootstrap_scope) \<times> db" where
  "consume_commit now later scope agent_id pid d =
    (let P = consumable later scope pid in
     if db_down d then (Inl Sqlx, d)
     else if count_where P (bootstrap_tokens d) = 0 then (Inl InvalidCredential, d)
     else if agent_id \<notin> ag_id ` set (agents d) then (Inl Sqlx, d)
     else (Inr scope,
           d\<lparr>bootstrap_tokens := update_where P
               (\<lambda>b. b\<lparr>bk_used_at := (if sc_single_use scope then Some now else bk_used_at b),
                      bk_used_by_agent_id := Some agent_id\<rparr>) (bootstrap_tokens d)\<rparr>))"

definition consume ::
    "argon2_lib \<Rightarrow> int \<Rightarrow> int \<Rightarrow> string \<Rightarrow> string \<Rightarrow> int \<Rightarrow> db \<Rightarrow> (repo_error + bootstrap_scope) \<times> db" where
  "consume L now later pid secret agent_id d =
    (case consume_read L now pid secret d of
       Inl e \<Rightarrow> (Inl e, d)
     | Inr scope \<Rightarrow> consume_commit now later scope agent_id pid d)"

section \<open>Runs\<close>

inductive bootstrap_step :: "db \<Rightarrow> db \<Rightarrow> bool" where
  bs_mint: "bootstrap_step d (snd (mint_inner C R now scope who chk d))"
| bs_revoke: "bootstrap_step d (snd (bootstrap_revoke now pid d))"
| bs_consume: "bootstrap_step d (snd (consume_commit now later scope aid pid d))"
| bs_agent: "agent_step F d d' \<Longrightarrow> bootstrap_step d d'"

inductive bootstrap_run :: "db \<Rightarrow> db \<Rightarrow> bool" where
  bsrun_refl: "bootstrap_run d d"
| bsrun_step: "bootstrap_run d d' \<Longrightarrow> bootstrap_step d' d'' \<Longrightarrow> bootstrap_run d d''"

text \<open>A token that can no longer be used: it exists and every row of it is used or revoked.\<close>

definition spent :: "string \<Rightarrow> db \<Rightarrow> bool" where
  "spent pid d \<longleftrightarrow> list_ex (\<lambda>b. bk_public_id b = pid) (bootstrap_tokens d)
     \<and> list_all (\<lambda>b. bk_public_id b = pid \<longrightarrow> bk_used_at b \<noteq> None \<or> bk_revoked_at b \<noteq> None)
         (bootstrap_tokens d)"

lemma spent_map:
  assumes "spent pid d" and "bootstrap_tokens d' = map f (bootstrap_tokens d)"
    and "\<And>b. bk_public_id (f b) = bk_public_id b"
    and "\<And>b. bk_used_at b \<noteq> None \<or> bk_revoked_at b \<noteq> None \<Longrightarrow>
           bk_used_at (f b) \<noteq> None \<or> bk_revoked_at (f b) \<noteq> None"
  shows "spent pid d'"
  using assms by (auto simp: spent_def list_ex_iff list_all_iff)

lemma tokens_agent_step:
  assumes "agent_step F d d'"
  shows "bootstrap_tokens d' = bootstrap_tokens d
       \<or> (\<exists>n. bootstrap_tokens d' = map (prune_token n) (bootstrap_tokens d))"
  using assms
proof (cases rule: agent_step.cases)
  case (ag_create C R now name de al dn me ex chk)
  then show ?thesis
    by (cases rule: create_inner_cases [of C R now name de al dn me ex chk d]) auto
next
  case ag_registry
  then show ?thesis
    by (cases rule: registry_step.cases)
      (auto simp: registry_ops invalidate_authority_def Let_def split: option.split)
qed (simp_all add: set_cert_identity_def agent_revoke_def touch_last_used_def rotate_commit_def
    update_agent_def Let_def update_policy_inner_def)

lemma spent_stays:
  assumes "bootstrap_step d d'" and "spent pid d"
  shows "spent pid d'"
  using assms(1)
proof (cases rule: bootstrap_step.cases)
  case (bs_mint C R now scope who chk)
  then show ?thesis
    using assms(2) by (auto simp: mint_inner_def Let_def spent_def list_ex_iff list_all_iff
        split: sum.splits if_splits)
next
  case (bs_revoke now p)
  show ?thesis
  proof (cases "db_down d")
    case True
    then show ?thesis
      using bs_revoke assms(2) by (simp add: bootstrap_revoke_def)
  next
    case False
    then have "bootstrap_tokens d' =
        map (\<lambda>b. if bk_public_id b = p then b\<lparr>bk_revoked_at := Some now\<rparr> else b) (bootstrap_tokens d)"
      using bs_revoke by (simp add: bootstrap_revoke_def update_where_def)
    then show ?thesis
      by (rule spent_map [OF assms(2)]) auto
  qed
next
  case (bs_consume now later scope aid p)
  show ?thesis
  proof (cases "bootstrap_tokens d' = bootstrap_tokens d")
    case True
    then show ?thesis
      using assms(2) by (simp add: spent_def)
  next
    case False
    let ?f = "\<lambda>b. if consumable later scope p b
      then b\<lparr>bk_used_at := (if sc_single_use scope then Some now else bk_used_at b),
             bk_used_by_agent_id := Some aid\<rparr> else b"
    have "bootstrap_tokens d' = map ?f (bootstrap_tokens d)"
      using bs_consume False by (auto simp: consume_commit_def Let_def update_where_def split: if_splits)
    then show ?thesis
      by (rule spent_map [OF assms(2)]) (auto simp: consumable_def)
  qed
next
  case (bs_agent F)
  from tokens_agent_step [OF bs_agent] show ?thesis
  proof (elim disjE exE)
    assume "bootstrap_tokens d' = bootstrap_tokens d"
    then show ?thesis
      using assms(2) by (simp add: spent_def)
  next
    fix n assume "bootstrap_tokens d' = map (prune_token n) (bootstrap_tokens d)"
    then show ?thesis
      by (rule spent_map [OF assms(2)]) simp_all
  qed
qed

lemma spent_refuses:
  assumes "spent pid d"
  shows "consume_read L now pid s d = (if db_down d then Inl Sqlx else Inl InvalidCredential)"
    and "consume_commit now later scope aid pid d = (if db_down d then Inl Sqlx else Inl InvalidCredential, d)"
proof -
  have "\<not> list_ex (consumable later scope pid) (bootstrap_tokens d)"
    using assms by (auto simp: spent_def list_ex_iff list_all_iff consumable_def)
  then show "consume_commit now later scope aid pid d
      = (if db_down d then Inl Sqlx else Inl InvalidCredential, d)"
    by (simp add: consume_commit_def Let_def count_where_zero_list_ex)
  show "consume_read L now pid s d = (if db_down d then Inl Sqlx else Inl InvalidCredential)"
    using assms
    by (auto simp: consume_read_def reviewed_token_def spent_def list_all_iff
        split: option.split dest!: find_SomeD)
qed

lemma consume_commit_InrD:
  "fst (consume_commit now later scope aid pid d) = Inr s \<Longrightarrow>
   s = scope \<and> list_ex (consumable later scope pid) (bootstrap_tokens d)
   \<and> aid \<in> ag_id ` set (agents d) \<and> \<not> db_down d"
  by (simp add: consume_commit_def Let_def count_where_zero_list_ex split: if_splits)

lemma consume_spends:
  assumes "db_ok d" and "fst (consume_commit now later scope aid pid d) = Inr s" and "sc_single_use scope"
  shows "spent pid (snd (consume_commit now later scope aid pid d))"
proof -
  let ?P = "consumable later scope pid"
  from consume_commit_InrD [OF assms(2)] obtain b where b: "b \<in> set (bootstrap_tokens d)" "?P b"
    by (auto simp: list_ex_iff)
  have uniq: "b' = b" if "b' \<in> set (bootstrap_tokens d)" "bk_public_id b' = pid" for b'
    using assms(1) b that by (auto simp: db_ok_def distinct_map inj_on_def consumable_def)
  have "bootstrap_tokens (snd (consume_commit now later scope aid pid d)) =
      update_where ?P (\<lambda>b. b\<lparr>bk_used_at := Some now, bk_used_by_agent_id := Some aid\<rparr>) (bootstrap_tokens d)"
    using assms(2,3) by (auto simp: consume_commit_def Let_def split: if_splits)
  moreover have "list_ex (\<lambda>b. bk_public_id b = pid) (update_where ?P
      (\<lambda>b. b\<lparr>bk_used_at := Some now, bk_used_by_agent_id := Some aid\<rparr>) (bootstrap_tokens d))"
    unfolding list_ex_update_where using b by (auto simp: list_ex_iff consumable_def)
  moreover have "list_all (\<lambda>b. bk_public_id b = pid \<longrightarrow> bk_used_at b \<noteq> None \<or> bk_revoked_at b \<noteq> None)
     (update_where ?P (\<lambda>b. b\<lparr>bk_used_at := Some now, bk_used_by_agent_id := Some aid\<rparr>) (bootstrap_tokens d))"
    unfolding list_all_update_where using b(2) uniq by (auto simp: list_all_iff)
  ultimately show ?thesis
    by (simp add: spent_def)
qed

section \<open>Properties\<close>

text \<open>C27. A single-use bootstrap token is consumed at most once: after one successful consumption, over any
  sequence of bootstrap, agent and registry writes and outages, both the read and the commit of any
  other consumption are refused, also when that consumption had read the token before the first one
  committed.\<close>

theorem bootstrap_single_use:
  assumes "db_ok d" and "fst (consume_commit now later scope aid pid d) = Inr s" and "sc_single_use scope"
    and "bootstrap_run (snd (consume_commit now later scope aid pid d)) d'"
  shows "consume_read L now' pid secret d' = (if db_down d' then Inl Sqlx else Inl InvalidCredential)
    \<and> consume_commit now' later' scope' aid' pid d'
        = (if db_down d' then Inl Sqlx else Inl InvalidCredential, d')"
proof -
  have "spent pid (snd (consume_commit now later scope aid pid d))"
    using assms(1-3) by (rule consume_spends)
  with assms(4) have "spent pid d'"
    by (induction rule: bootstrap_run.induct) (auto dest: spent_stays)
  then show ?thesis
    using spent_refuses by blast
qed

text \<open>Concrete instance: a single-use token for the tool of \<open>demo_db\<close>.\<close>

definition demo_scope :: bootstrap_scope where
  "demo_scope = \<lparr>sc_tool_allowlist = Some [''github''], sc_expires_at = Some 500, sc_single_use = True\<rparr>"

definition demo_token_db :: db where
  "demo_token_db = snd (mint_reviewed demo_crypto demo_rng 100 demo_scope ''ops'' demo_db)"

lemma demo_token_tokens:
  "bootstrap_tokens demo_token_db = [\<lparr>bk_id = 1, bk_public_id = ''AB'', bk_secret_hash = ''phcCD'',
     bk_scope = JVal demo_scope, bk_created_by = ''ops'', bk_created_at = 100, bk_expires_at = Some 500,
     bk_used_at = None, bk_used_by_agent_id = None, bk_revoked_at = None, bk_grants_reviewed = True\<rparr>]"
  "\<not> db_down demo_token_db" "agents demo_token_db = [demo_agent]"
  by (simp_all add: demo_token_db_def mint_reviewed_def mint_inner_def demo_mint Let_def demo_defs
      valid_grant_target_def demo_scope_def)

lemma demo_token_ok: "db_ok demo_token_db"
  by (simp add: demo_token_db_def mint_reviewed_def mint_inner_def demo_mint Let_def demo_defs
      valid_grant_target_def demo_scope_def db_ok_def override_key_def reg_row_check_def)

theorem bootstrap_single_use_witness:
  "let d' = snd (consume_commit 200 200 demo_scope 1 ''AB'' demo_token_db) in
   fst (consume_commit 200 200 demo_scope 1 ''AB'' demo_token_db) = Inr demo_scope
   \<and> consume_commit 200 200 demo_scope 1 ''AB'' d' = (Inl InvalidCredential, d')"
proof -
  have c: "fst (consume_commit 200 200 demo_scope 1 ''AB'' demo_token_db) = Inr demo_scope"
    by (simp add: consume_commit_def Let_def demo_token_tokens count_where_def consumable_def demo_agent_def)
  have "\<not> db_down (snd (consume_commit 200 200 demo_scope 1 ''AB'' demo_token_db))"
    by (simp add: consume_commit_def Let_def demo_token_tokens)
  then show ?thesis
    using c bootstrap_single_use [OF demo_token_ok c _ bsrun_refl, where aid' = 1 and later' = 200]
    by (simp add: Let_def demo_scope_def)
qed

text \<open>The two expiry tests disagree in the second of expiry: there the token is reported active and its
  scope previewed, the secret verifies, and yet it cannot be consumed.\<close>

lemma bootstrap_expiry_boundary:
  "diagnose 500 ''AB'' demo_token_db = Inr Active
   \<and> preview_scope 500 ''AB'' demo_token_db = Inr demo_scope
   \<and> consume_read (cr_argon2 demo_crypto) 500 ''AB'' ''CD'' demo_token_db = Inr demo_scope
   \<and> fst (consume (cr_argon2 demo_crypto) 500 500 ''AB'' ''CD'' 1 demo_token_db) = Inl InvalidCredential"
  by (simp add: diagnose_def preview_scope_def consume_read_def reviewed_token_def demo_token_tokens
      expired_before_def demo_crypto_def argon2_verify_def argon2_params_def consume_def
      consume_commit_def Let_def count_where_def consumable_def starts_with_def)

text \<open>A consumption hands out exactly the scope the operator's token holds at the commit: when the
  read succeeded with a scope and the commit succeeds later, the token still holds that scope, so a
  name pruned from it in between (its registration was replaced or deleted) is never granted.\<close>

theorem consume_scope_current:
  assumes "fst (consume_commit now later scope aid pid d) = Inr s"
  shows "s = scope \<and> (\<exists>b \<in> set (bootstrap_tokens d). bk_public_id b = pid \<and> bk_scope b = JVal s
      \<and> bk_used_at b = None \<and> bk_revoked_at b = None \<and> bk_grants_reviewed b
      \<and> (case bk_expires_at b of None \<Rightarrow> True | Some e \<Rightarrow> later < e)
      \<and> set (case sc_tool_allowlist s of Some l \<Rightarrow> l | None \<Rightarrow> []) = set (scope_names b))"
proof -
  from consume_commit_InrD [OF assms] obtain b
    where s: "s = scope" and b: "b \<in> set (bootstrap_tokens d)" "consumable later scope pid b"
    by (auto simp: list_ex_iff)
  have "set (case sc_tool_allowlist s of Some l \<Rightarrow> l | None \<Rightarrow> []) = set (scope_names b)"
    using b(2) s by (simp add: consumable_def scope_names_def)
  then show ?thesis
    using b s by (intro conjI bexI [of _ b]) (simp_all add: consumable_def)
qed

theorem consume_scope_current_witness:
  "\<exists>b \<in> set (bootstrap_tokens demo_token_db). bk_public_id b = ''AB'' \<and> bk_scope b = JVal demo_scope"
proof -
  have c: "fst (consume_commit 200 200 demo_scope 1 ''AB'' demo_token_db) = Inr demo_scope"
    by (simp add: consume_commit_def Let_def demo_token_tokens count_where_def consumable_def demo_agent_def)
  show ?thesis
    using consume_scope_current [OF c] by auto
qed

lemma db_ok_new_token:
  assumes "db_ok d" and "\<not> list_ex (\<lambda>x. bk_public_id x = bk_public_id b) (bootstrap_tokens d)"
    and "bk_id b = next_bootstrap_id d"
  shows "db_ok (d\<lparr>bootstrap_tokens := bootstrap_tokens d @ [b],
            next_bootstrap_id := next_bootstrap_id d + 1\<rparr>)"
proof -
  have "next_bootstrap_id d \<notin> bk_id ` set (bootstrap_tokens d)"
    using assms(1) by (auto simp: db_ok_def list_all_iff)
  moreover have "bk_public_id b \<notin> bk_public_id ` set (bootstrap_tokens d)"
    using assms(2) by (auto simp: list_ex_iff)
  moreover have "list_all (\<lambda>b. bk_id b < next_bootstrap_id d + 1) (bootstrap_tokens d)"
    using assms(1) by (auto simp: db_ok_def list_all_iff)
  ultimately show ?thesis
    using assms(1,3) by (simp add: db_ok_def)
qed

lemma db_ok_update_tokens:
  assumes "db_ok d" and "\<And>b. bk_public_id (f b) = bk_public_id b" "\<And>b. bk_id (f b) = bk_id b"
  shows "db_ok (d\<lparr>bootstrap_tokens := update_where P f (bootstrap_tokens d)\<rparr>)"
proof -
  have "map bk_public_id (update_where P f rs) = map bk_public_id rs"
    "map bk_id (update_where P f rs) = map bk_id rs"
    "list_all (\<lambda>b. bk_id b < n) (update_where P f rs) = list_all (\<lambda>b. bk_id b < n) rs" for rs n
    by (induction rs) (auto simp: update_where_def assms)
  then show ?thesis
    using assms(1) by (simp add: db_ok_def)
qed

lemma bootstrap_step_db_ok:
  assumes "bootstrap_step d d'" and "db_ok d"
  shows "db_ok d'"
  using assms(1)
proof (cases rule: bootstrap_step.cases)
  case (bs_mint C R now scope who chk)
  then show ?thesis
    using assms(2) by (simp add: mint_inner_def Let_def db_ok_new_token split: sum.split)
next
  case (bs_agent F)
  then show ?thesis
    using assms(2) by (rule agent_step_db_ok)
qed (use assms(2) in \<open>simp_all add: bootstrap_revoke_def consume_commit_def Let_def db_ok_update_tokens\<close>)

end
