(* ===== verification/SecretStore.thy ===== *)
theory SecretStore
  imports Bootstrap
begin

text \<open>
  \<open>repo/agent_creds.rs\<close> (the account bindings of agents, one per agent and registration) and
  \<open>repo/credential_secrets.rs\<close> (the sealed credential rows that stored-custody auth
  specifications point at).  Rows are never overwritten: a rotation inserts a new row and tombstones
  the old one, a sweep deletes tombstoned rows after a grace period.
\<close>

section \<open>Account bindings\<close>

record agent_credential_override =
  co_agent_id :: int
  co_registration :: string
  co_auth_spec :: auth_spec
  co_created_at :: int
  co_updated_at :: int

definition row_to_override :: "override_row \<Rightarrow> repo_error + agent_credential_override" where
  "row_to_override r =
    (case ov_auth_spec r of
       JBad \<Rightarrow> Inl InvalidAccountBinding
     | JVal a \<Rightarrow> Inr \<lparr>co_agent_id = ov_agent_id r, co_registration = ov_registration r,
                      co_auth_spec = a, co_created_at = ov_created_at r, co_updated_at = ov_updated_at r\<rparr>)"

definition binding_key_is :: "int \<Rightarrow> string \<Rightarrow> override_row \<Rightarrow> bool" where
  "binding_key_is agent_id reg r \<longleftrightarrow> ov_agent_id r = agent_id \<and> ov_registration r = reg"

definition creds_set :: "int \<Rightarrow> int \<Rightarrow> string \<Rightarrow> auth_spec \<Rightarrow> db \<Rightarrow> (repo_error + unit) \<times> db" where
  "creds_set now agent_id reg spec d =
    (if db_down d then (Inl Sqlx, d)
     else if \<not> valid_grant_target d reg then (Inl InvalidGrantTarget, d)
     else if list_ex (binding_key_is agent_id reg) (overrides d)
     then (Inr (), d\<lparr>overrides := update_where (binding_key_is agent_id reg)
                       (\<lambda>r. r\<lparr>ov_auth_spec := JVal spec, ov_updated_at := now\<rparr>) (overrides d)\<rparr>)
     else if agent_id \<notin> ag_id ` set (agents d) then (Inl Sqlx, d)
     else (Inr (), d\<lparr>overrides := overrides d @
             [\<lparr>ov_agent_id = agent_id, ov_registration = reg, ov_auth_spec = JVal spec,
               ov_created_at = now, ov_updated_at = now\<rparr>]\<rparr>))"

definition creds_get :: "int \<Rightarrow> string \<Rightarrow> db \<Rightarrow> repo_error + agent_credential_override option" where
  "creds_get agent_id reg d =
    (if db_down d then Inl Sqlx
     else case find (binding_key_is agent_id reg) (overrides d) of
       None \<Rightarrow> Inr None
     | Some r \<Rightarrow> result_bind (row_to_override r) (\<lambda>co. Inr (Some co)))"

definition creds_delete :: "int \<Rightarrow> string \<Rightarrow> db \<Rightarrow> (repo_error + bool) \<times> db" where
  "creds_delete agent_id reg d =
    (if db_down d then (Inl Sqlx, d)
     else (Inr (0 < count_where (binding_key_is agent_id reg) (overrides d)),
           d\<lparr>overrides := filter (\<lambda>r. \<not> binding_key_is agent_id reg r) (overrides d)\<rparr>))"

definition list_for_agent :: "int \<Rightarrow> db \<Rightarrow> repo_error + agent_credential_override list" where
  "list_for_agent agent_id d =
    (if db_down d then Inl Sqlx
     else collect_results (map row_to_override
            (sort_key ov_registration (filter (\<lambda>r. ov_agent_id r = agent_id) (overrides d)))))"

definition creds_list_all :: "db \<Rightarrow> repo_error + agent_credential_override list" where
  "creds_list_all d =
    (if db_down d then Inl Sqlx
     else collect_results (map row_to_override
            (sort_key ov_agent_id (sort_key ov_registration (overrides d)))))"

section \<open>Sealed credentials\<close>

record sealed_secret =
  ss_secret_ref :: string
  ss_sealed_value :: string
  ss_nonce :: string
  ss_set_at :: int

definition hex_digit :: "nat \<Rightarrow> char" where
  "hex_digit n = ''0123456789abcdef'' ! n"

definition hex_byte :: "8 word \<Rightarrow> string" where
  "hex_byte b = [hex_digit (unat b div 16), hex_digit (unat b mod 16)]"

definition new_secret_ref :: "8 word list \<Rightarrow> string" where
  "new_secret_ref bytes = ''cs_'' @ concat (map hex_byte bytes)"

definition secret_insert ::
    "8 word list \<Rightarrow> int \<Rightarrow> string \<Rightarrow> string \<Rightarrow> db \<Rightarrow> (repo_error + string) \<times> db" where
  "secret_insert bytes now sealed nonce d =
    (let secret_ref = new_secret_ref bytes in
     if db_down d \<or> secret_ref \<in> cs_secret_ref ` set (credential_secrets d) then (Inl Sqlx, d)
     else (Inr secret_ref, d\<lparr>credential_secrets := credential_secrets d @
             [\<lparr>cs_secret_ref = secret_ref, cs_sealed_value = sealed, cs_nonce = nonce,
               cs_set_at = now, cs_tombstoned_at = None\<rparr>]\<rparr>))"

definition secret_get :: "string \<Rightarrow> db \<Rightarrow> repo_error + sealed_secret option" where
  "secret_get secret_ref d =
    (if db_down d then Inl Sqlx
     else Inr (map_option
       (\<lambda>r. \<lparr>ss_secret_ref = cs_secret_ref r, ss_sealed_value = cs_sealed_value r,
             ss_nonce = cs_nonce r, ss_set_at = cs_set_at r\<rparr>)
       (find (\<lambda>r. cs_secret_ref r = secret_ref \<and> cs_tombstoned_at r = None) (credential_secrets d))))"

definition tombstone_where ::
    "int \<Rightarrow> (secret_row \<Rightarrow> bool) \<Rightarrow> db \<Rightarrow> nat \<times> db" where
  "tombstone_where now P d =
    (count_where P (credential_secrets d),
     d\<lparr>credential_secrets := update_where P (\<lambda>r. r\<lparr>cs_tombstoned_at := Some now\<rparr>) (credential_secrets d)\<rparr>)"

definition tombstone :: "int \<Rightarrow> string \<Rightarrow> db \<Rightarrow> (repo_error + bool) \<times> db" where
  "tombstone now secret_ref d =
    (if db_down d then (Inl Sqlx, d)
     else let (n, d') = tombstone_where now
                (\<lambda>r. cs_secret_ref r = secret_ref \<and> cs_tombstoned_at r = None) d
          in (Inr (0 < n), d'))"

definition sweep :: "int \<Rightarrow> db \<Rightarrow> (repo_error + nat) \<times> db" where
  "sweep cutoff d =
    (let P = (\<lambda>r. case cs_tombstoned_at r of Some t \<Rightarrow> t < cutoff | None \<Rightarrow> False) in
     if db_down d then (Inl Sqlx, d)
     else (Inr (count_where P (credential_secrets d)),
           d\<lparr>credential_secrets := filter (\<lambda>r. \<not> P r) (credential_secrets d)\<rparr>))"

text \<open>The UNREFERENCED predicate.  \<open>json_extract\<close> fails on text that is not JSON, and then so does the
  statement, provided some row reaches the predicate.\<close>

definition referenced_refs :: "db \<Rightarrow> string list" where
  "referenced_refs d =
     List.map_filter (\<lambda>r. case rg_auth_json r of JVal a \<Rightarrow> stored_secret_ref a | JBad \<Rightarrow> None) (registrations d)
   @ List.map_filter (\<lambda>r. case ov_auth_spec r of JVal a \<Rightarrow> stored_secret_ref a | JBad \<Rightarrow> None) (overrides d)"

definition auth_columns_json :: "db \<Rightarrow> bool" where
  "auth_columns_json d \<longleftrightarrow> list_all (\<lambda>r. rg_auth_json r \<noteq> JBad) (registrations d)
     \<and> list_all (\<lambda>r. ov_auth_spec r \<noteq> JBad) (overrides d)"

definition unreferenced :: "db \<Rightarrow> secret_row \<Rightarrow> bool" where
  "unreferenced d r \<longleftrightarrow> cs_secret_ref r \<notin> set (referenced_refs d)"

definition tombstone_if_unreferenced :: "int \<Rightarrow> string \<Rightarrow> db \<Rightarrow> (repo_error + bool) \<times> db" where
  "tombstone_if_unreferenced now secret_ref d =
    (let P = (\<lambda>r. cs_secret_ref r = secret_ref \<and> cs_tombstoned_at r = None) in
     if db_down d \<or> (list_ex P (credential_secrets d) \<and> \<not> auth_columns_json d) then (Inl Sqlx, d)
     else let (n, d') = tombstone_where now (\<lambda>r. P r \<and> unreferenced d r) d in (Inr (0 < n), d'))"

definition tombstone_unreferenced :: "int \<Rightarrow> int \<Rightarrow> db \<Rightarrow> (repo_error + nat) \<times> db" where
  "tombstone_unreferenced now set_before d =
    (let P = (\<lambda>r. cs_tombstoned_at r = None \<and> cs_set_at r < set_before) in
     if db_down d \<or> (list_ex P (credential_secrets d) \<and> \<not> auth_columns_json d) then (Inl Sqlx, d)
     else let (n, d') = tombstone_where now (\<lambda>r. P r \<and> unreferenced d r) d in (Inr n, d'))"

section \<open>Lemmas\<close>

lemma tombstone_where_keeps [simp]:
  "registrations (snd (tombstone_where now P d)) = registrations d"
  "overrides (snd (tombstone_where now P d)) = overrides d"
  "agents (snd (tombstone_where now P d)) = agents d"
  "db_down (snd (tombstone_where now P d)) = db_down d"
  by (simp_all add: tombstone_where_def)

lemma find_where_update_disjoint:
  assumes "\<And>r. Q r \<Longrightarrow> \<not> P r" and "\<And>r. P r \<Longrightarrow> \<not> Q (f r)"
  shows "find Q (update_where P f rs) = find Q rs"
proof (induction rs)
  case (Cons r rs)
  then show ?case
    using assms [of r] by (auto simp: update_where_def)
qed (simp add: update_where_def)

lemma hex_digit_inj: "m < 16 \<Longrightarrow> n < 16 \<Longrightarrow> hex_digit m = hex_digit n \<longleftrightarrow> m = n"
  unfolding hex_digit_def by (subst nth_eq_iff_index_eq) auto

lemma unat_byte: "unat (w :: 8 word) < 256"
proof -
  have "unat w < 2 ^ LENGTH(8)"
    by (rule unsigned_less)
  then show ?thesis
    by simp
qed

lemma hex_byte_inj: "hex_byte a = hex_byte b \<longleftrightarrow> a = b"
proof
  assume "hex_byte a = hex_byte b"
  moreover have "unat a < 256" "unat b < 256"
    by (simp_all add: unat_byte)
  ultimately have "unat a div 16 = unat b div 16" "unat a mod 16 = unat b mod 16"
    by (auto simp: hex_byte_def hex_digit_inj)
  then have "unat a = unat b"
    by (metis div_mult_mod_eq)
  then show "a = b"
    by (simp add: word_unat_eq_iff)
qed simp

lemma new_secret_ref_inj: "new_secret_ref xs = new_secret_ref ys \<longleftrightarrow> xs = ys"
proof -
  have "concat (map hex_byte xs) = concat (map hex_byte ys) \<Longrightarrow> xs = ys" for xs ys
  proof (induction xs arbitrary: ys)
    case Nil
    then show ?case
      by (cases ys) (auto simp: hex_byte_def)
  next
    case (Cons x xs)
    then obtain y ys' where ys: "ys = y # ys'"
      by (cases ys) (auto simp: hex_byte_def)
    have "length (hex_byte x) = length (hex_byte y)"
      by (simp add: hex_byte_def)
    with Cons.prems ys have "hex_byte x = hex_byte y" "concat (map hex_byte xs) = concat (map hex_byte ys')"
      by simp_all
    with Cons.IH ys show ?case
      by (simp add: hex_byte_inj)
  qed
  then show ?thesis
    by (auto simp: new_secret_ref_def)
qed

section \<open>Runs of the sealed store\<close>

text \<open>The writes production code performs on the sealed store; a plain \<open>tombstone\<close> is called by nothing.\<close>

inductive secret_step :: "db \<Rightarrow> db \<Rightarrow> bool" where
  ss_insert: "secret_step d (snd (secret_insert bytes now sealed nonce d))"
| ss_tombstone: "secret_step d (snd (tombstone_if_unreferenced now r d))"
| ss_collect: "secret_step d (snd (tombstone_unreferenced now set_before d))"
| ss_sweep: "secret_step d (snd (sweep cutoff d))"
| ss_fault: "secret_step d (d\<lparr>db_down := b\<rparr>)"

inductive secret_run :: "db \<Rightarrow> db \<Rightarrow> bool" where
  ssrun_refl: "secret_run d d"
| ssrun_step: "secret_run d d' \<Longrightarrow> secret_step d' d'' \<Longrightarrow> secret_run d d''"

definition live_secret :: "string \<Rightarrow> db \<Rightarrow> secret_row option" where
  "live_secret ref d = find (\<lambda>r. cs_secret_ref r = ref \<and> cs_tombstoned_at r = None) (credential_secrets d)"

lemma secret_get_live:
  "secret_get ref d = (if db_down d then Inl Sqlx else Inr (map_option
       (\<lambda>r. \<lparr>ss_secret_ref = cs_secret_ref r, ss_sealed_value = cs_sealed_value r,
             ss_nonce = cs_nonce r, ss_set_at = cs_set_at r\<rparr>) (live_secret ref d)))"
  by (simp add: secret_get_def live_secret_def)

lemma live_secret_tombstone_where:
  assumes "\<And>r. cs_secret_ref r = ref \<Longrightarrow> cs_tombstoned_at r = None \<Longrightarrow> \<not> P r"
  shows "live_secret ref (snd (tombstone_where now P d)) = live_secret ref d"
  unfolding live_secret_def tombstone_where_def
  by (simp, rule find_where_update_disjoint) (auto simp: assms)

lemma live_secret_sweep: "live_secret ref (snd (sweep cutoff d)) = live_secret ref d"
proof -
  have "find (\<lambda>r. cs_secret_ref r = ref \<and> cs_tombstoned_at r = None)
      (filter (\<lambda>r. \<not> (case cs_tombstoned_at r of Some t \<Rightarrow> t < cutoff | None \<Rightarrow> False)) rs)
    = find (\<lambda>r. cs_secret_ref r = ref \<and> cs_tombstoned_at r = None) rs" for rs :: "secret_row list"
    by (induction rs) (auto split: option.split)
  then show ?thesis
    by (simp add: live_secret_def sweep_def Let_def)
qed

lemma secret_step_keeps_referenced:
  assumes "secret_step d d'" and "ref \<in> set (referenced_refs d)" and "live_secret ref d = Some r"
  shows "referenced_refs d' = referenced_refs d \<and> live_secret ref d' = Some r"
  using assms(1)
proof (cases rule: secret_step.cases)
  case (ss_insert bytes now sealed nonce)
  then show ?thesis
    using assms(3) by (simp add: secret_insert_def Let_def referenced_refs_def live_secret_def find_append)
next
  case (ss_tombstone now x)
  then show ?thesis
    using assms(2,3)
    by (simp add: tombstone_if_unreferenced_def Let_def split_beta unreferenced_def
        live_secret_tombstone_where referenced_refs_def)
next
  case (ss_collect now set_before)
  then show ?thesis
    using assms(2,3)
    by (simp add: tombstone_unreferenced_def Let_def split_beta unreferenced_def
        live_secret_tombstone_where referenced_refs_def)
next
  case (ss_sweep cutoff)
  then show ?thesis
    using assms(3) live_secret_sweep [of ref cutoff d] by (simp add: sweep_def Let_def referenced_refs_def)
next
  case (ss_fault b)
  then show ?thesis
    using assms(3) by (simp add: referenced_refs_def live_secret_def)
qed

text \<open>C29. A sealed credential that some registration or account binding references is never lost to
  rotation clean-up, garbage collection or the retention sweep: over any sequence of those writes a
  read of it returns the same sealed value.\<close>

theorem referenced_secret_survives:
  assumes "secret_run d d'" and "ref \<in> set (referenced_refs d)"
    and "secret_get ref d = Inr (Some x)"
  shows "secret_get ref d' = (if db_down d' then Inl Sqlx else Inr (Some x))"
proof -
  from assms(3) obtain r where r: "live_secret ref d = Some r"
    "x = \<lparr>ss_secret_ref = cs_secret_ref r, ss_sealed_value = cs_sealed_value r,
          ss_nonce = cs_nonce r, ss_set_at = cs_set_at r\<rparr>"
    by (auto simp: secret_get_live split: if_splits)
  from assms(1,2) r(1) have "referenced_refs d' = referenced_refs d \<and> live_secret ref d' = Some r"
  proof (induction rule: secret_run.induct)
    case (ssrun_step d d' d'')
    then show ?case
      using secret_step_keeps_referenced [of d' d'' ref r] by simp
  qed simp
  then show ?thesis
    using r(2) by (simp add: secret_get_live)
qed

text \<open>An unreferenced sealed row in a database whose tool uses another, referenced one.\<close>

definition demo_secrets_db :: db where
  "demo_secrets_db = demo_db\<lparr>
     overrides := [\<lparr>ov_agent_id = 1, ov_registration = ''github'', ov_auth_spec = JVal (StoredBearer ''cs_a''),
        ov_created_at = 95, ov_updated_at = 95\<rparr>],
     credential_secrets :=
       [\<lparr>cs_secret_ref = ''cs_a'', cs_sealed_value = ''sealed'', cs_nonce = ''n'', cs_set_at = 10,
         cs_tombstoned_at = None\<rparr>,
        \<lparr>cs_secret_ref = ''cs_b'', cs_sealed_value = ''old'', cs_nonce = ''n'', cs_set_at = 5,
         cs_tombstoned_at = None\<rparr>]\<rparr>"

theorem referenced_secret_survives_witness:
  "let d' = snd (tombstone_unreferenced 100 50 demo_secrets_db) in
   ''cs_a'' \<in> set (referenced_refs demo_secrets_db)
   \<and> fst (tombstone_unreferenced 100 50 demo_secrets_db) = Inr 1
   \<and> secret_get ''cs_a'' d' = secret_get ''cs_a'' demo_secrets_db
   \<and> secret_get ''cs_b'' d' = Inr None"
proof -
  let ?d' = "snd (tombstone_unreferenced 100 50 demo_secrets_db)"
  have run: "secret_run demo_secrets_db ?d'"
    by (rule ssrun_step [OF ssrun_refl ss_collect])
  have ref: "''cs_a'' \<in> set (referenced_refs demo_secrets_db)"
    by (simp add: referenced_refs_def demo_secrets_db_def demo_defs List.map_filter_def)
  have get: "secret_get ''cs_a'' demo_secrets_db =
      Inr (Some \<lparr>ss_secret_ref = ''cs_a'', ss_sealed_value = ''sealed'', ss_nonce = ''n'', ss_set_at = 10\<rparr>)"
    by (simp add: secret_get_def demo_secrets_db_def demo_defs)
  have eval: "\<not> db_down ?d'" "fst (tombstone_unreferenced 100 50 demo_secrets_db) = Inr 1"
    "secret_get ''cs_b'' ?d' = Inr None"
    by (simp_all add: tombstone_unreferenced_def tombstone_where_def demo_secrets_db_def demo_defs
        auth_columns_json_def unreferenced_def referenced_refs_def List.map_filter_def count_where_def
        update_where_def secret_get_def)
  show ?thesis
    using ref eval get referenced_secret_survives [OF run ref get] by (simp add: Let_def)
qed

section \<open>Bindings after writes\<close>

lemma binding_key_is_key: "binding_key_is a r = (\<lambda>x. override_key x = (a, r))"
  by (auto simp: binding_key_is_def override_key_def fun_eq_iff)

lemma find_binding_update:
  assumes "\<And>x. override_key (f x) = override_key x"
  shows "find (binding_key_is a r) (update_where (binding_key_is a' r') f rs) =
    (if (a, r) = (a', r') then map_option f (find (binding_key_is a r) rs) else find (binding_key_is a r) rs)"
  unfolding binding_key_is_key by (subst find_key_update) (simp_all add: assms)

lemma find_binding_filter:
  "find (binding_key_is a r) (filter (\<lambda>x. \<not> binding_key_is a' r' x) rs) =
    (if (a, r) = (a', r') then None else find (binding_key_is a r) rs)"
  unfolding binding_key_is_key by (rule find_key_filter)

lemma override_key_update [simp]:
  "override_key (x\<lparr>ov_auth_spec := s, ov_updated_at := t\<rparr>) = override_key x"
  by (simp add: override_key_def)

lemma find_None_list_ex: "find P xs = None \<longleftrightarrow> \<not> list_ex P xs"
  by (induction xs) auto

lemma creds_set_other:
  assumes "creds_set now aid reg spec d = (res, d')" and ne: "(a, r) \<noteq> (aid, reg)"
  shows "creds_get a r d' = creds_get a r d"
proof -
  have "find (binding_key_is a r) (rs @ [x]) = find (binding_key_is a r) rs"
    if "ov_agent_id x = aid" "ov_registration x = reg" for rs x
    using ne that by (auto simp: find_append binding_key_is_def split: option.split)
  then have "find (binding_key_is a r) (overrides d') = find (binding_key_is a r) (overrides d)"
    using assms by (auto simp: creds_set_def find_binding_update split: if_splits)
  moreover have "db_down d' = db_down d"
    using assms by (auto simp: creds_set_def split: if_splits)
  ultimately show ?thesis
    by (simp add: creds_get_def)
qed

lemma creds_set_get:
  assumes "creds_set now aid reg spec d = (Inr (), d')"
  shows "\<exists>co. creds_get aid reg d' = Inr (Some co) \<and> co_auth_spec co = spec"
proof (cases "find (binding_key_is aid reg) (overrides d)")
  case None
  then have "\<not> list_ex (binding_key_is aid reg) (overrides d)"
    by (simp add: find_None_list_ex)
  with assms None show ?thesis
    by (auto simp: creds_set_def creds_get_def find_append row_to_override_def split: if_splits)
      (auto simp: binding_key_is_def)
next
  case (Some x)
  then have "list_ex (binding_key_is aid reg) (overrides d)"
    using find_None_list_ex [of "binding_key_is aid reg" "overrides d"] by simp
  with assms Some show ?thesis
    by (auto simp: creds_set_def creds_get_def find_binding_update row_to_override_def split: if_splits)
qed

text \<open>Account bindings are per agent and registration: a successful write makes exactly the written
  specification the binding of that agent for that registration, which is then an enabled tool or
  model; a delete removes it; no write or delete changes the binding of any other agent or for any
  other registration.\<close>

theorem binding_isolated:
  assumes "creds_set now aid reg spec d = (res, d')"
  shows "((a, r) \<noteq> (aid, reg) \<longrightarrow> creds_get a r d' = creds_get a r d)
    \<and> (res = Inr () \<longrightarrow> valid_grant_target d reg
        \<and> (\<exists>co. creds_get aid reg d' = Inr (Some co) \<and> co_auth_spec co = spec))
    \<and> creds_get a r (snd (creds_delete aid reg d)) =
        (if (a, r) = (aid, reg) \<and> \<not> db_down d then Inr None else creds_get a r d)"
proof (intro conjI impI)
  show "creds_get a r d' = creds_get a r d" if "(a, r) \<noteq> (aid, reg)"
    using assms that by (rule creds_set_other)
  show "valid_grant_target d reg" if "res = Inr ()"
    using assms that by (auto simp: creds_set_def split: if_splits)
  show "\<exists>co. creds_get aid reg d' = Inr (Some co) \<and> co_auth_spec co = spec" if "res = Inr ()"
    using assms that by (simp add: creds_set_get)
  show "creds_get a r (snd (creds_delete aid reg d)) =
        (if (a, r) = (aid, reg) \<and> \<not> db_down d then Inr None else creds_get a r d)"
    by (simp add: creds_delete_def creds_get_def find_binding_filter)
qed

theorem binding_isolated_witness:
  "\<exists>co d'. creds_set 120 1 ''github'' (Bearer ''OTHER'') demo_db = (Inr (), d')
     \<and> creds_get 1 ''github'' d' = Inr (Some co) \<and> co_auth_spec co = Bearer ''OTHER''
     \<and> creds_get 2 ''github'' d' = creds_get 2 ''github'' demo_db"
proof -
  obtain d' where c: "creds_set 120 1 ''github'' (Bearer ''OTHER'') demo_db = (Inr (), d')"
    by (simp add: creds_set_def demo_defs valid_grant_target_def binding_key_is_def)
  show ?thesis
    using binding_isolated [OF c, of 2 "''github''"] c by auto
qed

section \<open>Integrity\<close>

inductive binding_step :: "db \<Rightarrow> db \<Rightarrow> bool" where
  bd_set: "binding_step d (snd (creds_set now aid reg spec d))"
| bd_delete: "binding_step d (snd (creds_delete aid reg d))"

lemma binding_step_db_ok:
  assumes "binding_step d d'" and "db_ok d"
  shows "db_ok d'"
  using assms(1)
proof (cases rule: binding_step.cases)
  case (bd_set now aid reg spec)
  let ?f = "\<lambda>r. r\<lparr>ov_auth_spec := JVal spec, ov_updated_at := now\<rparr>"
  let ?u = "update_where (binding_key_is aid reg) ?f (overrides d)"
  have "map override_key ?u = map override_key (overrides d)"
    by (simp add: map_update_where override_key_def)
  moreover have "list_all (\<lambda>r. ov_agent_id r \<in> ag_id ` set (agents d)) ?u"
    unfolding list_all_update_where using assms(2) by (auto simp: db_ok_def list_all_iff)
  ultimately have upd: "db_ok (d\<lparr>overrides := ?u\<rparr>)"
    using assms(2) by (simp add: db_ok_def)
  have ins: "db_ok (d\<lparr>overrides := overrides d @ [r]\<rparr>)"
    if "\<not> list_ex (binding_key_is (ov_agent_id r) (ov_registration r)) (overrides d)"
      "ov_agent_id r \<in> ag_id ` set (agents d)" for r
  proof -
    have "override_key r \<notin> override_key ` set (overrides d)"
      using that(1) by (auto simp: list_ex_iff binding_key_is_def override_key_def)
    then show ?thesis
      using assms(2) that(2) by (simp add: db_ok_def)
  qed
  show ?thesis
    using bd_set assms(2) upd by (simp add: creds_set_def ins)
next
  case (bd_delete aid reg)
  then show ?thesis
    using assms(2) by (auto simp: creds_delete_def db_ok_def list_all_iff distinct_map_filter)
qed

lemma db_ok_secrets:
  "db_ok d \<Longrightarrow> distinct (map cs_secret_ref cs) \<Longrightarrow> db_ok (d\<lparr>credential_secrets := cs\<rparr>)"
  by (simp add: db_ok_def)

lemma secret_step_db_ok:
  assumes "secret_step d d'" and "db_ok d"
  shows "db_ok d'"
proof -
  have dist: "distinct (map cs_secret_ref (credential_secrets d))"
    using assms(2) by (simp add: db_ok_def)
  have tomb: "db_ok (snd (tombstone_where now P d))" for now P
    using assms(2) dist by (simp add: tombstone_where_def db_ok_secrets map_update_where)
  show ?thesis
    using assms(1)
  proof (cases rule: secret_step.cases)
    case (ss_insert bytes now sealed nonce)
    then show ?thesis
      using assms(2) dist by (simp add: secret_insert_def Let_def db_ok_secrets)
  next
    case (ss_sweep cutoff)
    then show ?thesis
      using assms(2) dist by (simp add: sweep_def Let_def db_ok_secrets distinct_map_filter)
  next
    case (ss_fault b)
    then show ?thesis
      using assms(2) by (simp add: db_ok_def)
  qed (use assms(2) tomb in \<open>simp_all add: tombstone_if_unreferenced_def tombstone_unreferenced_def
      Let_def split_beta\<close>)
qed

end
