(* ===== verification/Identity.thy ===== *)
theory Identity
  imports AuditSink Config SecretStore
begin

text \<open>
  Who is calling: \<open>auth_v2/mod.rs\<close>, \<open>auth_v2/agent.rs\<close>, \<open>auth_v2/operator.rs\<close>, \<open>mtls/\<close> and the
  middleware of \<open>auth.rs\<close>.  The X.509 reader, the chain verifier, the PEM and CRL readers and the
  header decoder of the \<open>http\<close> crate are parameters.  A failed authentication writes its audit row
  to the same database; the clock readings are arguments.
\<close>

section \<open>Errors and responses\<close>

datatype auth_error =
    AuthMissingCredential
  | AuthInvalidCredential
  | AuthRevoked
  | AuthExpired
  | AuthRateLimited nat
  | AuthBackend
  | AuthMtlsMisconfigured

fun auth_status :: "auth_error \<Rightarrow> nat" where
  "auth_status AuthMissingCredential = 401"
| "auth_status AuthInvalidCredential = 401"
| "auth_status AuthRevoked = 401"
| "auth_status AuthExpired = 401"
| "auth_status (AuthRateLimited _) = 429"
| "auth_status AuthBackend = 500"
| "auth_status AuthMtlsMisconfigured = 500"

fun auth_code :: "auth_error \<Rightarrow> string" where
  "auth_code AuthMissingCredential = ''invalid_credential''"
| "auth_code AuthInvalidCredential = ''invalid_credential''"
| "auth_code AuthRevoked = ''revoked''"
| "auth_code AuthExpired = ''expired''"
| "auth_code (AuthRateLimited _) = ''rate_limited''"
| "auth_code AuthBackend = ''backend_error''"
| "auth_code AuthMtlsMisconfigured = ''internal_error''"

fun auth_message :: "auth_error \<Rightarrow> string" where
  "auth_message AuthMissingCredential = ''missing credential''"
| "auth_message AuthInvalidCredential = ''invalid credential''"
| "auth_message AuthRevoked = ''revoked''"
| "auth_message AuthExpired = ''expired''"
| "auth_message (AuthRateLimited _) = ''rate limited''"
| "auth_message AuthBackend = ''internal error''"
| "auth_message AuthMtlsMisconfigured = ''internal error''"

datatype resp_body = RJson json | RBytes string

record http_response =
  hr_status :: nat
  hr_headers :: "(string \<times> string) list"
  hr_body :: resp_body

definition auth_error_response :: "auth_error \<Rightarrow> http_response" where
  "auth_error_response e =
    \<lparr>hr_status = auth_status e,
     hr_headers = (case e of AuthRateLimited secs \<Rightarrow> [(''retry-after'', dec_digits secs)] | _ \<Rightarrow> []),
     hr_body = RJson (JObj [(''error'', JObj [(''code'', JStr (auth_code e)),
       (''message'', JStr (auth_message e)), (''type'', JStr ''auth_error'')])])\<rparr>"

section \<open>Agents\<close>

record agent_identity =
  ai_id :: int
  ai_public_id :: string
  ai_name :: string
  ai_tool_allowlist :: "string list option"
  ai_tool_denylist :: "string list option"

definition allows_tool :: "agent_identity \<Rightarrow> string \<Rightarrow> string + unit" where
  "allows_tool i tool_name =
    (if (case ai_tool_denylist i of Some deny \<Rightarrow> tool_name \<in> set deny | None \<Rightarrow> False)
     then Inl ''in_denylist''
     else if \<not> (case ai_tool_allowlist i of Some allow \<Rightarrow> tool_name \<in> set allow | None \<Rightarrow> False)
     then Inl ''not_in_allowlist''
     else Inr ())"

definition identity_of :: "agent_record \<Rightarrow> agent_identity" where
  "identity_of r = \<lparr>ai_id = ar_id r, ai_public_id = ar_public_id r, ai_name = ar_name r,
     ai_tool_allowlist = effective_allowlist r, ai_tool_denylist = ar_tool_denylist r\<rparr>"

record bearer_authenticator =
  ba_argon2 :: argon2_lib
  ba_decodes :: "string \<Rightarrow> bool"
  ba_decoy_hash :: string
  ba_audit :: bool

record auth_clock =
  cl_secs :: int
  cl_ms :: int

definition with_audit ::
    "argon2_lib \<Rightarrow> (string \<Rightarrow> bool) \<Rightarrow> 8 word list \<Rightarrow> bool \<Rightarrow> auth_error + bearer_authenticator" where
  "with_audit L decodes salt audit_on =
    (case argon2_hash L salt ''decoy-secret-for-constant-time-on-miss-do-not-use-in-production'' of
       Inl _ \<Rightarrow> Inl AuthBackend
     | Inr h \<Rightarrow> Inr \<lparr>ba_argon2 = L, ba_decodes = decodes, ba_decoy_hash = h, ba_audit = audit_on\<rparr>)"

definition note_event :: "bool \<Rightarrow> audit_event \<Rightarrow> db \<Rightarrow> db" where
  "note_event attached e d = (if attached then fst (snd (audit_record False e d)) else d)"

definition audit_failure :: "bearer_authenticator \<Rightarrow> int \<Rightarrow> string option \<Rightarrow> string \<Rightarrow> db \<Rightarrow> db" where
  "audit_failure B ms public_id reason =
    note_event (ba_audit B) (default_event\<lparr>ae_ts_ms := ms, ae_event_class := EcSecurity,
      ae_event := ''auth_failure'', ae_agent_public_id := public_id, ae_decision := Denied,
      ae_auth_method := Some ''bearer'', ae_details := Some (JObj [(''reason'', JStr reason)])\<rparr>)"

definition bearer_resolve ::
    "bearer_authenticator \<Rightarrow> auth_clock \<Rightarrow> string \<Rightarrow> string \<Rightarrow> db \<Rightarrow> (auth_error + agent_identity) \<times> db" where
  "bearer_resolve B t public_id secret d =
    (case get_active_by_public_id public_id d of
       Inl _ \<Rightarrow> (Inl AuthBackend, d)
     | Inr None \<Rightarrow> (Inl AuthInvalidCredential, audit_failure B (cl_ms t) None ''unknown_public_id'' d)
     | Inr (Some record) \<Rightarrow>
         if (case ar_expires_at record of Some e \<Rightarrow> e < cl_secs t | None \<Rightarrow> False)
         then (Inl AuthExpired, audit_failure B (cl_ms t) (Some (ar_public_id record)) ''expired'' d)
         else
           (case argon2_verify (ba_argon2 B) (ar_secret_hash record) secret of
              Inl _ \<Rightarrow> (Inl AuthBackend, d)
            | Inr False \<Rightarrow>
                (Inl AuthInvalidCredential,
                 audit_failure B (cl_ms t) (Some (ar_public_id record)) ''secret_mismatch'' d)
            | Inr True \<Rightarrow>
                (Inr (identity_of record), snd (touch_last_used (cl_secs t) (ar_public_id record) d))))"

definition authenticate_bearer ::
    "bearer_authenticator \<Rightarrow> auth_clock \<Rightarrow> string \<Rightarrow> db \<Rightarrow> (auth_error + agent_identity) \<times> db" where
  "authenticate_bearer B t header d =
    (case strip_prefix ''Bearer '' header of
       None \<Rightarrow> (Inl AuthMissingCredential, audit_failure B (cl_ms t) None ''missing_credential'' d)
     | Some raw \<Rightarrow>
         (case parse (ba_decodes B) raw of
            Inl _ \<Rightarrow> (Inl AuthInvalidCredential, audit_failure B (cl_ms t) None ''malformed_token'' d)
          | Inr (ns, public_id, secret) \<Rightarrow>
              if ns \<noteq> NsAgent
              then (Inl AuthInvalidCredential, audit_failure B (cl_ms t) (Some public_id) ''wrong_namespace'' d)
              else bearer_resolve B t public_id secret d))"

section \<open>Operators\<close>

record operator_identity =
  oi_name :: string
  oi_scope :: "json option"
  oi_auth_method :: "string option"

record operator_record =
  or_name :: string
  or_public_id :: string
  or_token_hash :: string
  or_scope :: "json option"
  or_cert_identity :: "string option"

record operator_authenticator =
  oa_records :: "operator_record list"
  oa_argon2 :: argon2_lib
  oa_decodes :: "string \<Rightarrow> bool"
  oa_decoy_hash :: string
  oa_audit :: bool

definition load_with_audit ::
    "argon2_lib \<Rightarrow> (string \<Rightarrow> bool) \<Rightarrow> 8 word list \<Rightarrow> (string \<Rightarrow> operator_record list option) \<Rightarrow> string option
       \<Rightarrow> bool \<Rightarrow> auth_error + operator_authenticator" where
  "load_with_audit L decodes salt yaml file audit_on =
    result_bind (ok_or file AuthBackend) (\<lambda>txt.
    result_bind (ok_or (yaml txt) AuthBackend) (\<lambda>records.
    case argon2_hash L salt ''decoy-operator-secret-for-constant-time-on-miss'' of
      Inl _ \<Rightarrow> Inl AuthBackend
    | Inr h \<Rightarrow> Inr \<lparr>oa_records = records, oa_argon2 = L, oa_decodes = decodes, oa_decoy_hash = h,
                    oa_audit = audit_on\<rparr>))"

definition operator_audit_failure :: "operator_authenticator \<Rightarrow> int \<Rightarrow> string option \<Rightarrow> string \<Rightarrow> db \<Rightarrow> db" where
  "operator_audit_failure A ms operator_name reason =
    note_event (oa_audit A) (default_event\<lparr>ae_ts_ms := ms, ae_event_class := EcSecurity,
      ae_event := ''operator_auth_failure'', ae_operator_name := operator_name, ae_decision := Denied,
      ae_auth_method := Some ''bearer'', ae_details := Some (JObj [(''reason'', JStr reason)])\<rparr>)"

definition operator_authenticate_bearer ::
    "operator_authenticator \<Rightarrow> int \<Rightarrow> string \<Rightarrow> db \<Rightarrow> (auth_error + operator_identity) \<times> db" where
  "operator_authenticate_bearer A ms header d =
    (case strip_prefix ''Bearer '' header of
       None \<Rightarrow> (Inl AuthMissingCredential, d)
     | Some raw \<Rightarrow>
         (case parse (oa_decodes A) raw of
            Inl _ \<Rightarrow> (Inl AuthInvalidCredential, operator_audit_failure A ms None ''malformed_token'' d)
          | Inr (ns, public_id, secret) \<Rightarrow>
              if ns \<noteq> NsOperator
              then (Inl AuthInvalidCredential, operator_audit_failure A ms None ''wrong_namespace'' d)
              else
                (case find (\<lambda>r. or_public_id r = public_id) (oa_records A) of
                   None \<Rightarrow> (Inl AuthInvalidCredential, operator_audit_failure A ms None ''unknown_public_id'' d)
                 | Some r \<Rightarrow>
                     (case argon2_verify (oa_argon2 A) (or_token_hash r) secret of
                        Inr True \<Rightarrow> (Inr \<lparr>oi_name = or_name r, oi_scope = or_scope r, oi_auth_method = None\<rparr>, d)
                      | Inr False \<Rightarrow>
                          (Inl AuthInvalidCredential,
                           operator_audit_failure A ms (Some (or_name r)) ''secret_mismatch'' d)
                      | Inl _ \<Rightarrow> (Inl AuthBackend, d)))))"

definition authenticate_cert_identity ::
    "operator_authenticator \<Rightarrow> int \<Rightarrow> string \<Rightarrow> db \<Rightarrow> (auth_error + operator_identity) \<times> db" where
  "authenticate_cert_identity A ms cert_identity d =
    (case find (\<lambda>r. or_cert_identity r = Some cert_identity) (oa_records A) of
       Some r \<Rightarrow> (Inr \<lparr>oi_name = or_name r, oi_scope = or_scope r, oi_auth_method = Some ''mtls''\<rparr>, d)
     | None \<Rightarrow>
         (Inl AuthInvalidCredential,
          note_event (oa_audit A) (default_event\<lparr>ae_ts_ms := ms, ae_event_class := EcSecurity,
            ae_event := ''operator_auth_failure'', ae_decision := Denied, ae_auth_method := Some ''mtls'',
            ae_details := Some (JObj [(''cert_identity'', JStr cert_identity),
              (''reason'', JStr ''unknown_cert_identity'')])\<rparr>) d))"

section \<open>Client certificates\<close>

datatype mtls_error =
    UntrustedChain
  | CertExpired
  | NotYetValid
  | MalformedCert
  | NoIdentity
  | RevokedByCRL string
  | RevokedByBlocklist string

record mtls_identity =
  mi_value :: string
  mi_kind :: string
  mi_serial_hex :: string

record blocklist =
  bl_serials :: "string list"
  bl_mtime_secs :: int

definition blocklist_of_text :: "string \<Rightarrow> int \<Rightarrow> blocklist" where
  "blocklist_of_text raw mtime =
    \<lparr>bl_serials = map to_lower (filter (\<lambda>l. l \<noteq> [] \<and> \<not> starts_with ''#'' l)
       (map str_trim (split_by (\<lambda>c. c = CHR 10) raw))), bl_mtime_secs = mtime\<rparr>"

text \<open>The file as the calls see it: its modification time (\<open>None\<close> when it cannot be inspected) and its
  text (\<open>None\<close> when it cannot be read).\<close>

definition blocklist_read :: "int option \<Rightarrow> string option \<Rightarrow> blocklist option" where
  "blocklist_read mtime raw =
    map_option (\<lambda>t. blocklist_of_text t (case mtime of Some m \<Rightarrow> m | None \<Rightarrow> 0)) raw"

definition blocklist_open :: "int option \<Rightarrow> string option \<Rightarrow> blocklist" where
  "blocklist_open mtime raw =
    (case blocklist_read mtime raw of Some b \<Rightarrow> b | None \<Rightarrow> \<lparr>bl_serials = [], bl_mtime_secs = 0\<rparr>)"

definition reload_if_changed :: "int option \<Rightarrow> string option \<Rightarrow> blocklist \<Rightarrow> bool \<times> blocklist" where
  "reload_if_changed mtime raw b =
    (case mtime of
       None \<Rightarrow> (False, b)
     | Some m \<Rightarrow>
         if m = bl_mtime_secs b then (False, b)
         else (case blocklist_read mtime raw of Some b' \<Rightarrow> (True, b') | None \<Rightarrow> (False, b)))"

definition blocklist_contains :: "blocklist \<Rightarrow> string \<Rightarrow> bool" where
  "blocklist_contains b serial_hex \<longleftrightarrow> to_lower serial_hex \<in> set (bl_serials b)"

record crl_store =
  crl_revoked_serials :: "string list"
  crl_last_success :: int
  crl_failures :: u64

definition crl_new :: crl_store where
  "crl_new = \<lparr>crl_revoked_serials = [], crl_last_success = 0, crl_failures = 0\<rparr>"

definition crl_contains :: "crl_store \<Rightarrow> string \<Rightarrow> bool" where
  "crl_contains c serial_hex \<longleftrightarrow> to_lower serial_hex \<in> set (crl_revoked_serials c)"

definition crl_age_secs :: "int \<Rightarrow> crl_store \<Rightarrow> int" where
  "crl_age_secs now c = (if crl_last_success c = 0 then 2 ^ 63 - 1 else now - crl_last_success c)"

definition serial_hex_of :: "8 word list \<Rightarrow> string" where
  "serial_hex_of bytes = concat (map hex_byte bytes)"

datatype crl_parse_error = CrlPem | CrlDer

fun crl_blocks ::
    "(string \<Rightarrow> 8 word list list option) \<Rightarrow> (string \<times> string) list \<Rightarrow> crl_parse_error + (nat \<times> string list)" where
  "crl_blocks der [] = Inr (0, [])"
| "crl_blocks der ((tag, contents) # bs) =
    (if tag \<noteq> ''X509 CRL'' then crl_blocks der bs
     else case der contents of
       None \<Rightarrow> Inl CrlDer
     | Some serials \<Rightarrow>
         result_bind (crl_blocks der bs) (\<lambda>(n, rest). Inr (Suc n, map serial_hex_of serials @ rest)))"

definition apply_pem ::
    "(string \<Rightarrow> (string \<times> string) list option) \<Rightarrow> (string \<Rightarrow> 8 word list list option) \<Rightarrow> int \<Rightarrow> string
       \<Rightarrow> crl_store \<Rightarrow> (crl_parse_error + nat) \<times> crl_store" where
  "apply_pem pem der now pem_bytes c =
    (case pem pem_bytes of
       None \<Rightarrow> (Inl CrlPem, c)
     | Some blocks \<Rightarrow>
         (case crl_blocks der blocks of
            Inl e \<Rightarrow> (Inl e, c)
          | Inr (seen, serials) \<Rightarrow>
              if seen = 0 then (Inl CrlPem, c)
              else (Inr (card (set serials)),
                    c\<lparr>crl_revoked_serials := remdups serials, crl_last_success := now\<rparr>)))"

datatype crl_fetch = CrlClientFail | CrlSendFail | CrlStatus nat | CrlBodyFail | CrlBody string

definition crl_note_failure :: "crl_store \<Rightarrow> crl_store" where
  "crl_note_failure c = c\<lparr>crl_failures := crl_failures c + 1\<rparr>"

definition crl_refresh_once ::
    "(string \<Rightarrow> (string \<times> string) list option) \<Rightarrow> (string \<Rightarrow> 8 word list list option) \<Rightarrow> int \<Rightarrow> crl_fetch
       \<Rightarrow> crl_store \<Rightarrow> crl_store" where
  "crl_refresh_once pem der now reply c =
    (case reply of
       CrlBody bytes \<Rightarrow>
         (case apply_pem pem der now bytes c of
            (Inr _, c') \<Rightarrow> c'
          | (Inl _, c') \<Rightarrow> crl_note_failure c')
     | _ \<Rightarrow> crl_note_failure c)"

datatype general_name = DNSName string | URI string | OtherName

record parsed_cert =
  pc_not_before :: int
  pc_not_after :: int
  pc_serial :: "8 word list"
  pc_common_name :: "string option"
  pc_sans :: "general_name list option"

record x509_lib =
  xl_parse :: "string \<Rightarrow> parsed_cert option"
  xl_end_entity :: "string \<Rightarrow> bool"
  xl_anchor :: "string \<Rightarrow> bool"
  xl_verify :: "string \<Rightarrow> string list \<Rightarrow> int \<Rightarrow> bool"
  xl_pem :: "string \<Rightarrow> (string \<times> string) list option"

record mtls_validator =
  mv_roots :: "string list"
  mv_crl :: "crl_store option"
  mv_blocklist :: "blocklist option"

definition mtls_validator_new :: "x509_lib \<Rightarrow> string \<Rightarrow> mtls_error + mtls_validator" where
  "mtls_validator_new X ca_bundle_pem =
    result_bind (ok_or (xl_pem X ca_bundle_pem) MalformedCert) (\<lambda>blocks.
    let roots = map snd (filter (\<lambda>(tag, _). tag = ''CERTIFICATE'') blocks) in
    if roots = [] then Inl MalformedCert
    else Inr \<lparr>mv_roots = roots, mv_crl = None, mv_blocklist = None\<rparr>)"

fun first_dns :: "general_name list \<Rightarrow> string option" where
  "first_dns [] = None"
| "first_dns (DNSName s # ns) = (if s \<noteq> [] then Some s else first_dns ns)"
| "first_dns (_ # ns) = first_dns ns"

fun first_uri :: "general_name list \<Rightarrow> string option" where
  "first_uri [] = None"
| "first_uri (URI s # ns) = (if s \<noteq> [] then Some s else first_uri ns)"
| "first_uri (_ # ns) = first_uri ns"

definition extract_identity :: "string \<Rightarrow> parsed_cert \<Rightarrow> mtls_error + mtls_identity" where
  "extract_identity serial_hex p =
    (if pc_common_name p \<noteq> None \<and> pc_common_name p \<noteq> Some []
     then Inr \<lparr>mi_value = the (pc_common_name p), mi_kind = ''cn'', mi_serial_hex = serial_hex\<rparr>
     else case pc_sans p of
       None \<Rightarrow> Inl NoIdentity
     | Some names \<Rightarrow>
         (case first_dns names of
            Some s \<Rightarrow> Inr \<lparr>mi_value = s, mi_kind = ''san_dns'', mi_serial_hex = serial_hex\<rparr>
          | None \<Rightarrow>
              (case first_uri names of
                 Some s \<Rightarrow> Inr \<lparr>mi_value = s, mi_kind = ''san_uri'', mi_serial_hex = serial_hex\<rparr>
               | None \<Rightarrow> Inl NoIdentity)))"

definition mtls_validate :: "x509_lib \<Rightarrow> int \<Rightarrow> mtls_validator \<Rightarrow> string \<Rightarrow> mtls_error + mtls_identity" where
  "mtls_validate X now V cert_der =
    (case xl_parse X cert_der of
       None \<Rightarrow> Inl MalformedCert
     | Some parsed \<Rightarrow>
         if now < pc_not_before parsed then Inl NotYetValid
         else if now > pc_not_after parsed then Inl CertExpired
         else if \<not> xl_end_entity X cert_der then Inl MalformedCert
         else
           let anchors = filter (xl_anchor X) (mv_roots V) in
           if anchors = [] then Inl UntrustedChain
           else if \<not> xl_verify X cert_der anchors now then Inl UntrustedChain
           else
             let serial_hex = serial_hex_of (pc_serial parsed) in
             if (case mv_blocklist V of Some b \<Rightarrow> blocklist_contains b serial_hex | None \<Rightarrow> False)
             then Inl (RevokedByBlocklist serial_hex)
             else if (case mv_crl V of Some c \<Rightarrow> crl_contains c serial_hex | None \<Rightarrow> False)
             then Inl (RevokedByCRL serial_hex)
             else extract_identity serial_hex parsed)"

record mtls_authenticator =
  ma_validator :: mtls_validator
  ma_audit :: bool

fun mtls_error_kind :: "mtls_error \<Rightarrow> string" where
  "mtls_error_kind UntrustedChain = ''untrusted_chain''"
| "mtls_error_kind CertExpired = ''cert_expired''"
| "mtls_error_kind NotYetValid = ''cert_not_yet_valid''"
| "mtls_error_kind MalformedCert = ''malformed_cert''"
| "mtls_error_kind NoIdentity = ''no_identity''"
| "mtls_error_kind (RevokedByCRL _) = ''revoked_by_crl''"
| "mtls_error_kind (RevokedByBlocklist _) = ''revoked_by_blocklist''"

definition mtls_failure_event :: "(mtls_error \<Rightarrow> string) \<Rightarrow> int \<Rightarrow> mtls_error \<Rightarrow> audit_event" where
  "mtls_failure_event message ms e =
    default_event\<lparr>ae_ts_ms := ms, ae_event_class := EcSecurity, ae_event := ''mtls_auth_failure'',
      ae_decision := Denied, ae_auth_method := Some ''mtls'',
      ae_details := Some (JObj [(''message'', JStr (message e)), (''reason'', JStr (mtls_error_kind e)),
        (''serial_hex'', JNull)])\<rparr>"

definition mtls_unknown_event :: "int \<Rightarrow> mtls_identity \<Rightarrow> audit_event" where
  "mtls_unknown_event ms i =
    default_event\<lparr>ae_ts_ms := ms, ae_event_class := EcSecurity, ae_event := ''mtls_unknown_identity'',
      ae_decision := Denied, ae_auth_method := Some ''mtls'',
      ae_details := Some (JObj [(''identity'', JStr (mi_value i)), (''kind'', JStr (mi_kind i)),
        (''serial_hex'', JStr (mi_serial_hex i))])\<rparr>"

text \<open>The audit writes run on spawned tasks; they touch only the audit table, so they are taken here at
  the point where they are spawned.\<close>

definition authenticate_cert ::
    "x509_lib \<Rightarrow> (mtls_error \<Rightarrow> string) \<Rightarrow> mtls_authenticator \<Rightarrow> auth_clock \<Rightarrow> string \<Rightarrow> db
       \<Rightarrow> (auth_error + agent_identity) \<times> db" where
  "authenticate_cert X message M t cert_der d =
    (case mtls_validate X (cl_secs t) (ma_validator M) cert_der of
       Inl e \<Rightarrow> (Inl AuthInvalidCredential, note_event (ma_audit M) (mtls_failure_event message (cl_ms t) e) d)
     | Inr i \<Rightarrow>
         (case get_by_cert_identity (mi_value i) d of
            Inr (Some agent) \<Rightarrow> (Inr (identity_of agent), d)
          | Inr None \<Rightarrow> (Inl AuthInvalidCredential, note_event (ma_audit M) (mtls_unknown_event (cl_ms t) i) d)
          | Inl _ \<Rightarrow> (Inl AuthBackend, d)))"

section \<open>Middleware\<close>

datatype authenticated_as = AsBearer | AsMtls

record http_request =
  rq_method :: string
  rq_path :: string
  rq_headers :: "(string \<times> string) list"
  rq_body :: string
  rq_peer_cert :: "string option"

definition header_get :: "string \<Rightarrow> (string \<times> string) list \<Rightarrow> string option" where
  "header_get name hs = map_of hs name"

record listener =
  ls_config :: app_config
  ls_agent_auth :: "bearer_authenticator option"
  ls_mtls :: "mtls_authenticator option"
  ls_x509 :: x509_lib
  ls_mtls_message :: "mtls_error \<Rightarrow> string"
  ls_to_str :: "string \<Rightarrow> string option"

datatype admitted = Forward "authenticated_as option" "agent_identity option" | Respond http_response

definition unauthorized_response :: http_response where
  "unauthorized_response = \<lparr>hr_status = 401, hr_headers = [],
     hr_body = RJson (JObj [(''error'', JObj [(''message'', JStr ''Unauthorized''), (''type'', JStr ''auth_error'')])])\<rparr>"

definition authorization_header :: "listener \<Rightarrow> http_request \<Rightarrow> string option" where
  "authorization_header S req = Option.bind (header_get ''authorization'' (rq_headers req)) (ls_to_str S)"

definition run_bearer_branch ::
    "listener \<Rightarrow> bearer_authenticator \<Rightarrow> auth_clock \<Rightarrow> http_request \<Rightarrow> db \<Rightarrow> admitted \<times> db" where
  "run_bearer_branch S B t req d =
    (let header = (case authorization_header S req of Some h \<Rightarrow> h | None \<Rightarrow> []) in
     case authenticate_bearer B t header d of
       (Inr i, d') \<Rightarrow> (Forward (Some AsBearer) (Some i), d')
     | (Inl e, d') \<Rightarrow> (Respond (auth_error_response e), d'))"

definition shared_bearer :: "listener \<Rightarrow> http_request \<Rightarrow> admitted" where
  "shared_bearer S req =
    (case cf_inbound_auth (ls_config S) of
       None \<Rightarrow> Forward (Some AsBearer) None
     | Some auth \<Rightarrow>
         if ia_mode auth \<noteq> ''bearer'' then Forward (Some AsBearer) None
         else (case ia_token auth of
            None \<Rightarrow> Forward (Some AsBearer) None
          | Some expected \<Rightarrow>
              (case Option.bind (authorization_header S req) (strip_prefix ''Bearer '') of
                 Some tok \<Rightarrow> if tok = expected then Forward (Some AsBearer) None else Respond unauthorized_response
               | None \<Rightarrow> Respond unauthorized_response)))"

definition auth_middleware :: "listener \<Rightarrow> auth_clock \<Rightarrow> http_request \<Rightarrow> db \<Rightarrow> admitted \<times> db" where
  "auth_middleware S t req d =
    (if rq_path req \<in> {''/livez'', ''/readyz'', ''/version'', ''/health''} then (Forward None None, d)
     else if rq_path req = ''/skill'' \<and> header_get ''authorization'' (rq_headers req) = None
     then (Forward None None, d)
     else
       let mode = ln_auth_mode (cf_listen (ls_config S)) in
       if mode \<noteq> ModeBearer \<and> rq_peer_cert req \<noteq> None then
         (case ls_mtls S of
            None \<Rightarrow> (Respond (auth_error_response AuthMtlsMisconfigured), d)
          | Some authn \<Rightarrow>
              (case authenticate_cert (ls_x509 S) (ls_mtls_message S) authn t (the (rq_peer_cert req)) d of
                 (Inr i, d') \<Rightarrow> (Forward (Some AsMtls) (Some i), d')
               | (Inl e, d') \<Rightarrow> (Respond (auth_error_response e), d')))
       else if mode = ModeMtls then (Respond (auth_error_response AuthMissingCredential), d)
       else (case ls_agent_auth S of
          Some B \<Rightarrow> run_bearer_branch S B t req d
        | None \<Rightarrow> (shared_bearer S req, d)))"

section \<open>An interface for agent authentication\<close>

text \<open>What the listener relies on, whichever transport produced the identity: the identity is that of an
  unrevoked agent row, its allowlist is the row's reviewed grants, and an attempt leaves everything but
  the audit table and \<open>last_used_at\<close> alone.\<close>

definition reviewed_grants :: "agent_row \<Rightarrow> string list" where
  "reviewed_grants a = (case ag_tool_allowlist a of
     Some (JVal l) \<Rightarrow> if ag_grants_reviewed a then l else [] | _ \<Rightarrow> [])"

definition identifies :: "agent_row \<Rightarrow> agent_identity \<Rightarrow> bool" where
  "identifies a i \<longleftrightarrow> ai_id i = ag_id a \<and> ai_public_id i = ag_public_id a \<and> ai_name i = ag_name a
     \<and> ag_revoked_at a = None \<and> ai_tool_allowlist i = Some (reviewed_grants a)
     \<and> (case ag_tool_denylist a of None \<Rightarrow> ai_tool_denylist i = None | Some c \<Rightarrow> map_option JVal (ai_tool_denylist i) = Some c)"

definition same_authority :: "db \<Rightarrow> db \<Rightarrow> bool" where
  "same_authority d d' \<longleftrightarrow> d' = d\<lparr>audit := audit d', next_audit_id := next_audit_id d', agents := agents d'\<rparr>
     \<and> map (\<lambda>a. a\<lparr>ag_last_used_at := None\<rparr>) (agents d') = map (\<lambda>a. a\<lparr>ag_last_used_at := None\<rparr>) (agents d)"

lemma same_authority_refl [simp]: "same_authority d d"
  by (simp add: same_authority_def)

lemma same_authority_note [simp]: "same_authority d (note_event on e d)"
  by (simp add: same_authority_def note_event_def audit_record_def)

lemma same_authority_failure [simp]: "same_authority d (audit_failure B ms p r d)"
  by (simp add: audit_failure_def)

lemma same_authority_touch [simp]: "same_authority d (snd (touch_last_used t p d))"
  by (simp add: same_authority_def touch_last_used_def update_where_def comp_def if_distrib [where f = "\<lambda>a. a\<lparr>ag_last_used_at := None\<rparr>"] cong: if_cong)

lemma same_authority_find:
  assumes "same_authority d d'" and "\<And>a. P (a\<lparr>ag_last_used_at := None\<rparr>) = P a"
  shows "list_ex P (agents d') = list_ex P (agents d)"
proof -
  have "list_ex P (map (\<lambda>a. a\<lparr>ag_last_used_at := None\<rparr>) (agents d')) = list_ex P (map (\<lambda>a. a\<lparr>ag_last_used_at := None\<rparr>) (agents d))"
    using assms(1) by (simp add: same_authority_def)
  then show ?thesis by (simp add: list_ex_iff assms(2))
qed

locale agent_authenticator =
  fixes authenticate :: "'c \<Rightarrow> db \<Rightarrow> (auth_error + agent_identity) \<times> db"
  assumes accepted: "authenticate c d = (Inr i, d') \<Longrightarrow> \<exists>a \<in> set (agents d). identifies a i"
    and keeps: "authenticate c d = (r, d') \<Longrightarrow> same_authority d d'"
begin

lemma allowed_tool_is_granted:
  assumes "authenticate c d = (Inr i, d')" and "allows_tool i n = Inr ()"
  shows "\<exists>a \<in> set (agents d). identifies a i \<and> n \<in> set (reviewed_grants a)"
  using accepted [OF assms(1)] assms(2) by (auto simp: allows_tool_def identifies_def split: if_splits)

lemma revoked_never_accepted:
  assumes "authenticate c d = (Inr i, d')" and "list_all (\<lambda>a. ag_public_id a = p \<longrightarrow> ag_revoked_at a \<noteq> None) (agents d)"
  shows "ai_public_id i \<noteq> p"
  using accepted [OF assms(1)] assms(2) by (auto simp: identifies_def list_all_iff)

end

lemma fetch_agent_SomeD:
  assumes "fetch_agent P d = Inr (Some a)"
  shows "\<exists>row \<in> set (agents d). P row \<and> into_record row = Inr a"
  using assms by (auto simp: fetch_agent_def dest: find_SomeD split: if_splits option.splits)

lemma identifies_record:
  assumes "into_record row = Inr a" and "ag_revoked_at row = None"
  shows "identifies row (identity_of a)"
  using assms
  by (auto simp: into_record_def identifies_def identity_of_def effective_allowlist_def reviewed_grants_def json_opt_def
      split: option.splits jcol.splits)

lemma bearer_resolve_InrD:
  assumes "bearer_resolve B t pid secret d = (Inr i, d')"
  obtains a where "get_active_by_public_id pid d = Inr (Some a)" and "i = identity_of a"
    and "\<forall>e. ar_expires_at a = Some e \<longrightarrow> cl_secs t \<le> e"
    and "argon2_verify (ba_argon2 B) (ar_secret_hash a) secret = Inr True"
    and "d' = snd (touch_last_used (cl_secs t) (ar_public_id a) d)"
proof -
  from assms obtain a where a: "get_active_by_public_id pid d = Inr (Some a)"
    by (auto simp: bearer_resolve_def split: sum.splits option.splits)
  have e: "\<not> (case ar_expires_at a of Some e \<Rightarrow> e < cl_secs t | None \<Rightarrow> False)"
    using assms a by (auto simp: bearer_resolve_def)
  with assms a have "argon2_verify (ba_argon2 B) (ar_secret_hash a) secret = Inr True"
    "i = identity_of a" "d' = snd (touch_last_used (cl_secs t) (ar_public_id a) d)"
    by (auto simp: bearer_resolve_def split: sum.splits bool.splits)
  with a e that show thesis by (auto split: option.splits)
qed

lemma bearer_resolve_keeps: "bearer_resolve B t pid secret d = (r, d') \<Longrightarrow> same_authority d d'"
  by (auto simp: bearer_resolve_def split: sum.splits option.splits if_splits bool.splits)

lemma authenticate_bearer_InrD:
  assumes "authenticate_bearer B t h d = (Inr i, d')"
  obtains pid secret where "h = ''Bearer '' @ wire_format \<lparr>st_namespace = NsAgent, st_public_id = pid, st_secret = secret\<rparr>"
    and "parse (ba_decodes B) (wire_format \<lparr>st_namespace = NsAgent, st_public_id = pid, st_secret = secret\<rparr>)
      = Inr (NsAgent, pid, secret)"
    and "bearer_resolve B t pid secret d = (Inr i, d')"
proof -
  from assms obtain raw pid secret where raw: "strip_prefix ''Bearer '' h = Some raw"
    and p: "parse (ba_decodes B) raw = Inr (NsAgent, pid, secret)" and r: "bearer_resolve B t pid secret d = (Inr i, d')"
    by (auto simp: authenticate_bearer_def split: option.splits sum.splits if_splits)
  from raw have "h = ''Bearer '' @ raw" by (simp add: strip_prefix_eq_Some_iff)
  with parse_InrD(1) [OF p] p r that show thesis by simp
qed

interpretation bearer: agent_authenticator "authenticate_bearer B t"
proof
  fix c d i d'
  assume "authenticate_bearer B t c d = (Inr i, d')"
  then obtain pid secret where "bearer_resolve B t pid secret d = (Inr i, d')"
    by (rule authenticate_bearer_InrD)
  then obtain a where a: "get_active_by_public_id pid d = Inr (Some a)" and i: "i = identity_of a"
    by (rule bearer_resolve_InrD)
  from a obtain row where "row \<in> set (agents d)" "ag_revoked_at row = None" "into_record row = Inr a"
    unfolding get_active_by_public_id_def by (auto dest: fetch_agent_SomeD)
  then show "\<exists>a \<in> set (agents d). identifies a i" using identifies_record i by blast
next
  fix c d r d'
  assume "authenticate_bearer B t c d = (r, d')"
  then show "same_authority d d'"
    by (auto simp: authenticate_bearer_def bearer_resolve_keeps split: option.splits sum.splits if_splits)
qed

interpretation mtls: agent_authenticator "authenticate_cert X message M t"
proof
  fix c d i d'
  assume "authenticate_cert X message M t c d = (Inr i, d')"
  then obtain v a where a: "get_by_cert_identity v d = Inr (Some a)" and i: "i = identity_of a"
    by (auto simp: authenticate_cert_def split: sum.splits option.splits)
  from a obtain row where "row \<in> set (agents d)" "ag_revoked_at row = None" "into_record row = Inr a"
    unfolding get_by_cert_identity_def by (auto dest: fetch_agent_SomeD)
  then show "\<exists>a \<in> set (agents d). identifies a i" using identifies_record i by blast
next
  fix c d r d'
  assume "authenticate_cert X message M t c d = (r, d')"
  then show "same_authority d d'"
    by (auto simp: authenticate_cert_def split: option.splits sum.splits)
qed

lemma allows_tool_iff:
  "allows_tool i n = Inr () \<longleftrightarrow>
     (\<forall>deny. ai_tool_denylist i = Some deny \<longrightarrow> n \<notin> set deny)
     \<and> (\<exists>allow. ai_tool_allowlist i = Some allow \<and> n \<in> set allow)"
  by (auto simp: allows_tool_def split: option.splits)

section \<open>Properties\<close>


text \<open>Every rejected bearer attempt leaves exactly one security row in the audit table (backend errors
  aside), and the response does not tell an unknown public id from a wrong secret or a malformed token:
  all of them are 401 with code \<open>invalid_credential\<close>; only an expired agent is named as such.\<close>

theorem auth_failure_audited:
  assumes "authenticate_bearer B t h d = (Inl e, d')" and "e \<noteq> AuthBackend" and "ba_audit B" and "\<not> db_down d"
  shows "(\<exists>row. audit d' = audit d @ [row] \<and> au_event_class row = ''security'' \<and> au_decision row = ''denied''
      \<and> au_auth_method row = Some ''bearer'' \<and> au_ts row = cl_ms t)
    \<and> auth_status e = 401 \<and> (auth_code e = ''invalid_credential'' \<or> e = AuthExpired)"
proof -
  have row: "\<exists>row. audit (audit_failure B (cl_ms t) p r d) = audit d @ [row] \<and> au_event_class row = ''security''
      \<and> au_decision row = ''denied'' \<and> au_auth_method row = Some ''bearer'' \<and> au_ts row = cl_ms t" for p r
    using assms(3,4) by (simp add: audit_failure_def note_event_def audit_record_def event_to_row_def default_event_def)
  from assms(1,2) obtain p r where "d' = audit_failure B (cl_ms t) p r d"
    "e \<in> {AuthMissingCredential, AuthInvalidCredential, AuthExpired}"
    by (auto simp: authenticate_bearer_def bearer_resolve_def split: option.splits sum.splits if_splits bool.splits)
  with row show ?thesis by auto
qed

definition demo_bearer :: bearer_authenticator where
  "demo_bearer = \<lparr>ba_argon2 = cr_argon2 demo_crypto, ba_decodes = (\<lambda>s. True), ba_decoy_hash = ''phc'', ba_audit = True\<rparr>"

definition demo_clock :: auth_clock where
  "demo_clock = \<lparr>cl_secs = 200, cl_ms = 200000\<rparr>"

theorem auth_failure_audited_witness:
  "\<exists>row. audit (snd (authenticate_bearer demo_bearer demo_clock ''Basic x'' demo_db)) = audit demo_db @ [row]
     \<and> au_event_class row = ''security''"
proof -
  have "authenticate_bearer demo_bearer demo_clock ''Basic x'' demo_db
      = (Inl AuthMissingCredential, snd (authenticate_bearer demo_bearer demo_clock ''Basic x'' demo_db))"
    by (simp add: authenticate_bearer_def strip_prefix_def starts_with_def)
  from auth_failure_audited [OF this] show ?thesis by (auto simp: demo_bearer_def demo_defs)
qed

lemma ascii_lower_hex_digit: "n < 16 \<Longrightarrow> ascii_lower (hex_digit n) = hex_digit n"
  by (auto simp: hex_digit_def ascii_lower_def less_Suc_eq numeral_eq_Suc)

lemma to_lower_serial_hex [simp]: "to_lower (serial_hex_of bs) = serial_hex_of bs"
proof (induction bs)
  case (Cons b bs)
  have "unat b < 256" using unsigned_less [of b] by simp
  then have "unat b div 16 < 16" "unat b mod 16 < 16" by simp_all
  with Cons show ?case by (simp add: serial_hex_of_def to_lower_def hex_byte_def ascii_lower_hex_digit)
qed (simp add: serial_hex_of_def to_lower_def)

lemma first_dns_Some: "first_dns ns = Some s \<Longrightarrow> s \<noteq> [] \<and> DNSName s \<in> set ns"
  by (induction ns rule: first_dns.induct) (auto split: if_splits)

lemma first_uri_Some: "first_uri ns = Some s \<Longrightarrow> s \<noteq> [] \<and> URI s \<in> set ns"
  by (induction ns rule: first_uri.induct) (auto split: if_splits)

lemma first_dns_None: "first_dns ns = None \<Longrightarrow> DNSName s \<in> set ns \<Longrightarrow> s = []"
  by (induction ns rule: first_dns.induct) (auto split: if_splits)

text \<open>A client certificate is accepted only within its validity period, when its chain verifies against
  the configured roots, and when its serial is neither on the loaded blocklist nor on the loaded CRL;
  the identity is never empty, is the common name when there is a non-empty one, and a URI name only
  when there is no non-empty DNS name.  After a reload of a changed blocklist file no certificate whose
  serial it lists, in whatever case and with surrounding blanks, is accepted.\<close>

theorem mtls_accepts:
  assumes "mtls_validate X now (V\<lparr>mv_blocklist := Some b'\<rparr>) der = Inr i"
    and "reload_if_changed (Some m) (Some raw) b = (True, b')"
  shows "\<exists>p. xl_parse X der = Some p \<and> pc_not_before p \<le> now \<and> now \<le> pc_not_after p
    \<and> xl_verify X der (filter (xl_anchor X) (mv_roots V)) now
    \<and> (case mv_crl V of Some c \<Rightarrow> serial_hex_of (pc_serial p) \<notin> set (crl_revoked_serials c) | None \<Rightarrow> True)
    \<and> mi_value i \<noteq> []
    \<and> (mi_kind i = ''cn'' \<and> pc_common_name p = Some (mi_value i)
       \<or> (pc_common_name p = None \<or> pc_common_name p = Some []) \<and> (\<exists>ns. pc_sans p = Some ns
            \<and> (mi_kind i = ''san_dns'' \<and> DNSName (mi_value i) \<in> set ns
               \<or> mi_kind i = ''san_uri'' \<and> URI (mi_value i) \<in> set ns \<and> first_dns ns = None)))
    \<and> (\<forall>line \<in> set (split_by (\<lambda>c. c = CHR 10) raw).
         str_trim line \<noteq> [] \<and> \<not> starts_with ''#'' (str_trim line) \<longrightarrow>
         to_lower (str_trim line) \<noteq> to_lower (serial_hex_of (pc_serial p)))"
proof -
  from assms(1) obtain p where p: "xl_parse X der = Some p" "pc_not_before p \<le> now" "now \<le> pc_not_after p"
    "xl_verify X der (filter (xl_anchor X) (mv_roots V)) now"
    and bl: "\<not> blocklist_contains b' (serial_hex_of (pc_serial p))"
    and crl: "\<not> (case mv_crl V of Some c \<Rightarrow> crl_contains c (serial_hex_of (pc_serial p)) | None \<Rightarrow> False)"
    and i: "extract_identity (serial_hex_of (pc_serial p)) p = Inr i"
    by (auto simp: mtls_validate_def Let_def split: option.splits if_splits)
  have b': "b' = blocklist_of_text raw m"
    using assms(2) by (auto simp: reload_if_changed_def blocklist_read_def split: if_splits option.splits)
  have lines: "\<forall>line \<in> set (split_by (\<lambda>c. c = CHR 10) raw).
         str_trim line \<noteq> [] \<and> \<not> starts_with ''#'' (str_trim line) \<longrightarrow>
         to_lower (str_trim line) \<noteq> to_lower (serial_hex_of (pc_serial p))"
  proof (intro ballI impI notI)
    fix line
    assume line: "line \<in> set (split_by (\<lambda>c. c = CHR 10) raw)" "str_trim line \<noteq> [] \<and> \<not> starts_with ''#'' (str_trim line)"
      and eq: "to_lower (str_trim line) = to_lower (serial_hex_of (pc_serial p))"
    from line have "to_lower (str_trim line) \<in> set (bl_serials b')" by (auto simp: b' blocklist_of_text_def)
    with bl show False unfolding blocklist_contains_def eq by blast
  qed
  have id: "mi_value i \<noteq> []
    \<and> (mi_kind i = ''cn'' \<and> pc_common_name p = Some (mi_value i)
       \<or> (pc_common_name p = None \<or> pc_common_name p = Some []) \<and> (\<exists>ns. pc_sans p = Some ns
            \<and> (mi_kind i = ''san_dns'' \<and> DNSName (mi_value i) \<in> set ns
               \<or> mi_kind i = ''san_uri'' \<and> URI (mi_value i) \<in> set ns \<and> first_dns ns = None)))"
    using i by (auto simp: extract_identity_def dest: first_dns_Some first_uri_Some split: if_splits option.splits)
  have "case mv_crl V of Some c \<Rightarrow> serial_hex_of (pc_serial p) \<notin> set (crl_revoked_serials c) | None \<Rightarrow> True"
    using crl by (auto simp: crl_contains_def split: option.splits)
  with p lines id show ?thesis by blast
qed

definition demo_x509 :: x509_lib where
  "demo_x509 = \<lparr>xl_parse = (\<lambda>d. Some \<lparr>pc_not_before = 0, pc_not_after = 1000, pc_serial = [0x0A],
       pc_common_name = None, pc_sans = Some [URI ''spiffe://a'', DNSName ''agent.test'']\<rparr>),
     xl_end_entity = (\<lambda>d. True), xl_anchor = (\<lambda>r. True), xl_verify = (\<lambda>d a n. True),
     xl_pem = (\<lambda>p. Some [(''CERTIFICATE'', p)])\<rparr>"

definition demo_validator :: mtls_validator where
  "demo_validator = \<lparr>mv_roots = [''ca''], mv_crl = None, mv_blocklist = None\<rparr>"

lemma demo_serial: "serial_hex_of [0x0A] = ''0a''"
  by (simp add: serial_hex_of_def hex_byte_def hex_digit_def)

lemma demo_blocklist: "reload_if_changed (Some 9) (Some ''0b'') \<lparr>bl_serials = [], bl_mtime_secs = 0\<rparr>
   = (True, \<lparr>bl_serials = [''0b''], bl_mtime_secs = 9\<rparr>)"
  by (simp add: reload_if_changed_def blocklist_read_def blocklist_of_text_def str_simps)

lemma demo_validate: "mtls_validate demo_x509 200 (demo_validator\<lparr>mv_blocklist := Some \<lparr>bl_serials = [''0b''], bl_mtime_secs = 9\<rparr>\<rparr>) ''der''
   = Inr \<lparr>mi_value = ''agent.test'', mi_kind = ''san_dns'', mi_serial_hex = ''0a''\<rparr>"
  by (simp add: mtls_validate_def demo_x509_def demo_validator_def Let_def demo_serial blocklist_contains_def
      extract_identity_def to_lower_def ascii_lower_def)

theorem mtls_accepts_witness:
  "\<exists>p. xl_parse demo_x509 ''der'' = Some p \<and> pc_not_before p \<le> 200 \<and> 200 \<le> pc_not_after p"
  using mtls_accepts [OF demo_validate demo_blocklist] by blast

text \<open>C36. Expiry is enforced for bearer tokens but not for client certificates: an agent past its
  \<open>expires_at\<close> is turned away with its token and accepted with its certificate.\<close>

theorem mtls_ignores_expiry:
  assumes "ar_expires_at a = Some e" and "e < cl_secs t"
    and "get_active_by_public_id (ar_public_id a) d = Inr (Some a)"
    and "mtls_validate X (cl_secs t) (ma_validator M) der = Inr i" and "get_by_cert_identity (mi_value i) d = Inr (Some a)"
  shows "fst (bearer_resolve B t (ar_public_id a) secret d) = Inl AuthExpired
    \<and> authenticate_cert X message M t der d = (Inr (identity_of a), d)"
  using assms by (simp add: bearer_resolve_def authenticate_cert_def)

definition demo_mtls_db :: db where
  "demo_mtls_db = demo_db\<lparr>agents := [demo_agent\<lparr>ag_cert_identity := Some ''agent.test'', ag_expires_at := Some 150\<rparr>]\<rparr>"

theorem mtls_ignores_expiry_witness:
  "\<exists>i. authenticate_cert demo_x509 (\<lambda>e. [])
      \<lparr>ma_validator = demo_validator\<lparr>mv_blocklist := Some \<lparr>bl_serials = [''0b''], bl_mtime_secs = 9\<rparr>\<rparr>, ma_audit = True\<rparr>
      demo_clock ''der'' demo_mtls_db = (Inr i, demo_mtls_db) \<and> ai_public_id i = ''abcdefgh''"
proof -
  let ?a = "\<lparr>ar_id = 1, ar_public_id = ''abcdefgh'', ar_name = ''hermes'', ar_description = None, ar_secret_hash = ''phc'',
     ar_tool_allowlist = Some [''github''], ar_grants_reviewed = True, ar_tool_denylist = None, ar_metadata = None,
     ar_cert_identity = Some ''agent.test'', ar_registered_at = 90, ar_last_used_at = None, ar_expires_at = Some 150,
     ar_revoked_at = None\<rparr>"
  have "get_active_by_public_id ''abcdefgh'' demo_mtls_db = Inr (Some ?a)" "get_by_cert_identity ''agent.test'' demo_mtls_db = Inr (Some ?a)"
    by (simp_all add: get_active_by_public_id_def get_by_cert_identity_def fetch_agent_def demo_mtls_db_def demo_defs
        into_record_def json_opt_def)
  then show ?thesis
    using mtls_ignores_expiry [of ?a 150 demo_clock demo_mtls_db demo_x509
        "\<lparr>ma_validator = demo_validator\<lparr>mv_blocklist := Some \<lparr>bl_serials = [''0b''], bl_mtime_secs = 9\<rparr>\<rparr>, ma_audit = True\<rparr>"
        "''der''" _ demo_bearer "[]" "\<lambda>e. []"] demo_validate
    by (simp add: demo_clock_def identity_of_def)
qed

lemma auth_middleware_cases:
  assumes "auth_middleware S t req d = (r, d')"
  obtains (anonymous) "r = Forward None None" "d' = d"
      "rq_path req \<in> {''/livez'', ''/readyz'', ''/version'', ''/health''}
        \<or> rq_path req = ''/skill'' \<and> header_get ''authorization'' (rq_headers req) = None"
  | (refused) e where "r = Respond (auth_error_response e)" "d' = d"
  | (cert) M c where "(case authenticate_cert (ls_x509 S) (ls_mtls_message S) M t c d of
                 (Inr i, d') \<Rightarrow> (Forward (Some AsMtls) (Some i), d')
               | (Inl e, d') \<Rightarrow> (Respond (auth_error_response e), d')) = (r, d')"
  | (bearer) B where "ls_agent_auth S = Some B" "run_bearer_branch S B t req d = (r, d')"
  | (shared) "ls_agent_auth S = None" "ln_auth_mode (cf_listen (ls_config S)) \<noteq> ModeMtls"
      "r = shared_bearer S req" "d' = d"
proof -
  let ?mode = "ln_auth_mode (cf_listen (ls_config S))"
  consider "rq_path req \<in> {''/livez'', ''/readyz'', ''/version'', ''/health''}"
    | "rq_path req \<notin> {''/livez'', ''/readyz'', ''/version'', ''/health''}"
      "rq_path req = ''/skill'' \<and> header_get ''authorization'' (rq_headers req) = None"
    | "rq_path req \<notin> {''/livez'', ''/readyz'', ''/version'', ''/health''}"
      "\<not> (rq_path req = ''/skill'' \<and> header_get ''authorization'' (rq_headers req) = None)"
      "?mode \<noteq> ModeBearer" "rq_peer_cert req \<noteq> None"
    | "rq_path req \<notin> {''/livez'', ''/readyz'', ''/version'', ''/health''}"
      "\<not> (rq_path req = ''/skill'' \<and> header_get ''authorization'' (rq_headers req) = None)"
      "\<not> (?mode \<noteq> ModeBearer \<and> rq_peer_cert req \<noteq> None)"
    by blast
  then show thesis
  proof cases
    case 1
    with assms that(1) show thesis by (auto simp: auth_middleware_def)
  next
    case 2
    with assms that(1) show thesis by (simp add: auth_middleware_def)
  next
    case 3
    show thesis
    proof (cases "ls_mtls S")
      case None
      with 3 assms that(2) show thesis by (auto simp: auth_middleware_def Let_def split: if_splits)
    next
      case (Some M)
      with 3 assms that(3) show thesis by (auto simp: auth_middleware_def Let_def split: if_splits)
    qed
  next
    case 4
    show thesis
    proof (cases "?mode = ModeMtls")
      case True
      with 4 assms that(2) show thesis by (auto simp: auth_middleware_def Let_def split: if_splits)
    next
      case False
      with 4 assms that(4,5) show thesis
        by (cases "ls_agent_auth S") (auto simp: auth_middleware_def Let_def split: if_splits)
    qed
  qed
qed

text \<open>What the middleware lets through: a request forwarded with an identity comes from an unrevoked
  agent whose reviewed grants are the identity's allowlist; one forwarded without an identity is a
  probe, an anonymous \<open>/skill\<close>, or comes to a listener that has no per-agent authentication and
  does not require client certificates.  No attempt changes any grant, agent, binding or registration.\<close>

theorem middleware_identity:
  assumes "auth_middleware S t req d = (r, d')"
  shows "same_authority d d' \<and> (case r of
      Respond resp \<Rightarrow> hr_status resp \<in> {401, 429, 500}
    | Forward _ (Some i) \<Rightarrow> (\<exists>a \<in> set (agents d). identifies a i)
    | Forward _ None \<Rightarrow> rq_path req \<in> {''/livez'', ''/readyz'', ''/version'', ''/health''}
        \<or> rq_path req = ''/skill'' \<and> header_get ''authorization'' (rq_headers req) = None
        \<or> ls_agent_auth S = None \<and> ln_auth_mode (cf_listen (ls_config S)) \<noteq> ModeMtls)"
proof -
  have st: "auth_status e \<in> {401, 429, 500}" for e by (cases e) auto
  from assms show ?thesis
  proof (cases rule: auth_middleware_cases)
    case anonymous
    then show ?thesis by auto
  next
    case (refused e)
    with st [of e] show ?thesis by (simp add: auth_error_response_def)
  next
    case (cert M c)
    with mtls.accepted mtls.keeps st show ?thesis
      by (fastforce simp: auth_error_response_def split: prod.splits sum.splits)
  next
    case (bearer B)
    with bearer.accepted bearer.keeps st show ?thesis
      by (fastforce simp: run_bearer_branch_def Let_def auth_error_response_def split: prod.splits sum.splits)
  next
    case shared
    then show ?thesis
      by (auto simp: shared_bearer_def unauthorized_response_def split: option.splits)
  qed
qed

definition demo_listener :: listener where
  "demo_listener = \<lparr>ls_config = \<lparr>cf_listen = \<lparr>ln_host = ''127.0.0.1'', ln_port = 9200, ln_admin_socket = None,
       ln_admin_https = None, ln_auth_mode = ModeBearer, ln_mtls = None, ln_bootstrap_only = None\<rparr>,
     cf_inbound_auth = None, cf_egress_proxy = None, cf_upstream_ca_bundle = None, cf_logging = None,
     cf_drain_window_seconds = 30, cf_tools = [], cf_operator_credentials_path = None,
     cf_database_path = None, cf_audit = None, cf_operational_log = None, cf_credential_store = None\<rparr>,
     ls_agent_auth = Some demo_bearer, ls_mtls = None, ls_x509 = demo_x509, ls_mtls_message = (\<lambda>e. []), ls_to_str = Some\<rparr>"

definition demo_request :: http_request where
  "demo_request = \<lparr>rq_method = ''GET'', rq_path = ''/tools'', rq_headers = [], rq_body = [], rq_peer_cert = None\<rparr>"

theorem middleware_identity_witness:
  "\<exists>resp. fst (auth_middleware demo_listener demo_clock demo_request demo_db) = Respond resp
     \<and> hr_status resp \<in> {401, 429, 500}"
proof -
  obtain resp where r: "fst (auth_middleware demo_listener demo_clock demo_request demo_db) = Respond resp"
    by (simp add: auth_middleware_def demo_request_def demo_listener_def Let_def run_bearer_branch_def
        authorization_header_def header_get_def authenticate_bearer_def strip_prefix_def starts_with_def)
  with middleware_identity [of demo_listener demo_clock demo_request demo_db, OF prod.collapse [symmetric]]
  show ?thesis by auto
qed

end
