(* ===== verification/HttpService.thy ===== *)
theory HttpService
  imports AuthSpecs
begin

text \<open>
  \<open>registrations/http_service.rs\<close> and \<open>registrations/http_service/validation.rs\<close>: the optional public
  description of a registration's HTTP operations.  The reader and the printer that \<open>serde\<close> derives
  from the types are parameters; the validation is translated in full.
\<close>

section \<open>Descriptions\<close>

datatype http_mode = RequestResponse

datatype http_method = MethodGet | MethodPost | MethodPut | MethodPatch | MethodDelete | MethodHead | MethodOptions

datatype field_type = FtString | FtInteger | FtNumber | FtBoolean | FtObject | FtArray

datatype content_type = CtJson | CtText

datatype json_content_type = JctJson

record svc_field =
  fd_name :: string
  fd_field_type :: field_type
  fd_required :: bool
  fd_description :: string

record request_body =
  rb_content_type :: json_content_type
  rb_required :: bool
  rb_fields :: "svc_field list"

record service_response =
  sr_status :: "16 word"
  sr_content_type :: content_type
  sr_fields :: "svc_field list"

record service_error =
  se_status :: "16 word"
  se_description :: string

record svc_example =
  ex_query :: "(string \<times> string) list"
  ex_body :: "json option"
  ex_response :: json

record svc_operation =
  hop_id :: string
  hop_summary :: string
  hop_method :: http_method
  hop_path :: string
  hop_query :: "svc_field list"
  hop_request_body :: "request_body option"
  hop_response :: service_response
  hop_errors :: "service_error list"
  hop_example :: svc_example

record http_service =
  hs_version :: "32 word"
  hs_mode :: http_mode
  hs_operations :: "svc_operation list"

section \<open>Validation\<close>

definition text_ok :: "string \<Rightarrow> nat \<Rightarrow> bool" where
  "text_ok value limit \<longleftrightarrow> str_trim value \<noteq> [] \<and> length value \<le> limit \<and> \<not> list_ex is_control value"

definition path_ok :: "string \<Rightarrow> bool" where
  "path_ok value \<longleftrightarrow>
     1 < length value \<and> length value \<le> 2048 \<and> starts_with ''/'' value \<and> \<not> starts_with ''//'' value
   \<and> list_all (\<lambda>c. is_ascii_alphanumeric c \<or> c \<in> set ''/-._~'') value
   \<and> list_all (\<lambda>part. part \<noteq> ''.'' \<and> part \<noteq> ''..'') (split_by (\<lambda>c. c = CHR ''/'') value)"

text \<open>The \<open>HashSet\<close> of the two loops is their first argument: \<open>insert\<close> is true exactly when the name
  is new.\<close>

fun fields_loop :: "string list \<Rightarrow> svc_field list \<Rightarrow> bool" where
  "fields_loop names [] = True"
| "fields_loop names (f # fs) =
    (text_ok (fd_name f) 128 \<and> text_ok (fd_description f) 2048 \<and> fd_name f \<notin> set names
     \<and> fields_loop (fd_name f # names) fs)"

definition fields_ok :: "svc_field list \<Rightarrow> bool" where
  "fields_ok values \<longleftrightarrow> length values \<le> 64 \<and> fields_loop [] values"

definition example_ok :: "svc_operation \<Rightarrow> bool" where
  "example_ok op \<longleftrightarrow>
     (let query = ex_query (hop_example op) in
      list_all (\<lambda>(name, _). list_ex (\<lambda>f. fd_name f = name) (hop_query op)) query
    \<and> list_all (\<lambda>f. \<not> fd_required f \<or> map_of query (fd_name f) \<noteq> None) (hop_query op)
    \<and> (case hop_request_body op of
         Some body \<Rightarrow> \<not> rb_required body \<or> ex_body (hop_example op) \<noteq> None
       | None \<Rightarrow> ex_body (hop_example op) = None))"

definition operation_ok :: "svc_operation \<Rightarrow> bool" where
  "operation_ok op \<longleftrightarrow>
     text_ok (hop_summary op) 2048 \<and> path_ok (hop_path op) \<and> fields_ok (hop_query op)
   \<and> fields_ok (sr_fields (hop_response op))
   \<and> 200 \<le> sr_status (hop_response op) \<and> sr_status (hop_response op) < 300
   \<and> length (hop_errors op) \<le> 32
   \<and> list_all (\<lambda>e. 400 \<le> se_status e \<and> se_status e < 600 \<and> text_ok (se_description e) 2048) (hop_errors op)
   \<and> (case hop_request_body op of None \<Rightarrow> True | Some b \<Rightarrow> fields_ok (rb_fields b))
   \<and> (case sr_content_type (hop_response op) of
        CtJson \<Rightarrow> True
      | CtText \<Rightarrow> sr_fields (hop_response op) = []
          \<and> (case ex_response (hop_example op) of JStr _ \<Rightarrow> True | _ \<Rightarrow> False))
   \<and> example_ok op"

fun operations_loop :: "string list \<Rightarrow> svc_operation list \<Rightarrow> bool" where
  "operations_loop ids [] = True"
| "operations_loop ids (op # ops) =
    (text_ok (hop_id op) 64 \<and> hop_id op \<notin> set ids \<and> operation_ok op \<and> operations_loop (hop_id op # ids) ops)"

definition service_valid :: "http_service \<Rightarrow> bool" where
  "service_valid s \<longleftrightarrow>
     hs_version s = 1 \<and> hs_operations s \<noteq> [] \<and> length (hs_operations s) \<le> 32
   \<and> operations_loop [] (hs_operations s)"

record service_codec =
  sv_to_string :: "json \<Rightarrow> string"
  sv_from_value :: "json \<Rightarrow> http_service option"

definition from_metadata :: "service_codec \<Rightarrow> json \<Rightarrow> registration_error + http_service option" where
  "from_metadata C metadata =
    (case (case metadata of JObj m \<Rightarrow> map_of m ''http_service'' | _ \<Rightarrow> None) of
       None \<Rightarrow> Inr None
     | Some raw \<Rightarrow>
         if 64 * 1024 < length (sv_to_string C raw) then Inl InvalidHttpService
         else (case sv_from_value C raw of
            None \<Rightarrow> Inl InvalidHttpService
          | Some service \<Rightarrow> if \<not> service_valid service then Inl InvalidHttpService else Inr (Some service)))"

section \<open>What a description guarantees\<close>

lemma fields_loop_iff:
  "fields_loop names fs \<longleftrightarrow> list_all (\<lambda>f. text_ok (fd_name f) 128 \<and> text_ok (fd_description f) 2048) fs
     \<and> distinct (map fd_name fs) \<and> set names \<inter> fd_name ` set fs = {}"
  by (induction names fs rule: fields_loop.induct) auto

lemma operations_loop_iff:
  "operations_loop ids ops \<longleftrightarrow> list_all (\<lambda>op. text_ok (hop_id op) 64 \<and> operation_ok op) ops
     \<and> distinct (map hop_id ops) \<and> set ids \<inter> hop_id ` set ops = {}"
  by (induction ids ops rule: operations_loop.induct) auto

lemma from_metadata_Some_iff:
  "from_metadata C metadata = Inr (Some s) \<longleftrightarrow>
     (\<exists>m raw. metadata = JObj m \<and> map_of m ''http_service'' = Some raw
        \<and> length (sv_to_string C raw) \<le> 65536 \<and> sv_from_value C raw = Some s \<and> service_valid s)"
  by (cases metadata) (auto simp: from_metadata_def not_less split: option.splits)

lemma path_ok_shape:
  assumes "path_ok p"
  shows "\<exists>c q. p = CHR ''/'' # c # q \<and> c \<noteq> CHR ''/''"
    and "set p \<inter> {CHR ''?'', CHR ''#'', CHR ''%'', CHR ''@'', CHR '':'', CHR 92, CHR '' ''} = {}"
proof -
  from assms obtain c q where "p = CHR ''/'' # c # q"
    by (cases p; cases "tl p") (auto simp: path_ok_def starts_with_def)
  with assms show "\<exists>c q. p = CHR ''/'' # c # q \<and> c \<noteq> CHR ''/''"
    by (auto simp: path_ok_def starts_with_def)
  have "is_ascii_alphanumeric c \<or> c \<in> set ''/-._~''" if "c \<in> set p" for c
    using assms that by (auto simp: path_ok_def list_all_iff)
  moreover have "\<not> is_ascii_alphanumeric c \<and> c \<notin> set ''/-._~''"
    if "c \<in> {CHR ''?'', CHR ''#'', CHR ''%'', CHR ''@'', CHR '':'', CHR 92, CHR '' ''}" for c
    using that by (auto simp: str_simps)
  ultimately show "set p \<inter> {CHR ''?'', CHR ''#'', CHR ''%'', CHR ''@'', CHR '':'', CHR 92, CHR '' ''} = {}"
    by blast
qed

text \<open>C40. A published description is well formed: there are between one and 32 operations with distinct ids;
  every path is a plain absolute path (one leading slash, no dot segment, no character that could start a
  query, a fragment, an escape, a host or a port); field names are distinct per operation; and the
  example of an operation uses declared query parameters only and supplies the required ones.\<close>

theorem service_description_sound:
  assumes "from_metadata C metadata = Inr (Some s)"
  shows "distinct (map hop_id (hs_operations s)) \<and> 1 \<le> length (hs_operations s) \<and> length (hs_operations s) \<le> 32
    \<and> (\<forall>op \<in> set (hs_operations s).
         (\<exists>c q. hop_path op = CHR ''/'' # c # q \<and> c \<noteq> CHR ''/'')
       \<and> set (hop_path op) \<inter> {CHR ''?'', CHR ''#'', CHR ''%'', CHR ''@'', CHR '':'', CHR 92, CHR '' ''} = {}
       \<and> ''.'' \<notin> set (split_by (\<lambda>c. c = CHR ''/'') (hop_path op))
       \<and> ''..'' \<notin> set (split_by (\<lambda>c. c = CHR ''/'') (hop_path op))
       \<and> distinct (map fd_name (hop_query op)) \<and> distinct (map fd_name (sr_fields (hop_response op)))
       \<and> fst ` set (ex_query (hop_example op)) \<subseteq> fd_name ` set (hop_query op)
       \<and> fd_name ` {f \<in> set (hop_query op). fd_required f} \<subseteq> fst ` set (ex_query (hop_example op)))"
proof -
  from assms have v: "service_valid s" by (auto simp: from_metadata_Some_iff)
  then have l: "distinct (map hop_id (hs_operations s))" "length (hs_operations s) \<le> 32" "hs_operations s \<noteq> []"
    and o: "\<And>op. op \<in> set (hs_operations s) \<Longrightarrow> operation_ok op"
    by (auto simp: service_valid_def operations_loop_iff list_all_iff)
  have e: "fst ` set (ex_query (hop_example op)) \<subseteq> fd_name ` set (hop_query op)
      \<and> fd_name ` {f \<in> set (hop_query op). fd_required f} \<subseteq> fst ` set (ex_query (hop_example op))"
    if "example_ok op" for op
    using that by (force simp: example_ok_def Let_def list_all_iff list_ex_iff map_of_eq_None_iff)
  have p: "''.'' \<notin> set (split_by (\<lambda>c. c = CHR ''/'') p) \<and> ''..'' \<notin> set (split_by (\<lambda>c. c = CHR ''/'') p)"
    if "path_ok p" for p
    using that by (auto simp: path_ok_def list_all_iff)
  show ?thesis
    using l o e p path_ok_shape
    by (auto simp: operation_ok_def fields_ok_def fields_loop_iff Suc_le_eq)
qed

definition demo_operation :: svc_operation where
  "demo_operation = \<lparr>hop_id = ''view'', hop_summary = ''View'', hop_method = MethodGet, hop_path = ''/v1/view'',
     hop_query = [\<lparr>fd_name = ''id'', fd_field_type = FtString, fd_required = True, fd_description = ''Id''\<rparr>],
     hop_request_body = None,
     hop_response = \<lparr>sr_status = 200, sr_content_type = CtText, sr_fields = []\<rparr>, hop_errors = [],
     hop_example = \<lparr>ex_query = [(''id'', ''7'')], ex_body = None, ex_response = JStr ''ok''\<rparr>\<rparr>"

definition demo_service :: http_service where
  "demo_service = \<lparr>hs_version = 1, hs_mode = RequestResponse, hs_operations = [demo_operation]\<rparr>"

definition demo_codec :: service_codec where
  "demo_codec = \<lparr>sv_to_string = (\<lambda>_. ''{}''), sv_from_value = (\<lambda>v. if v = JObj [] then Some demo_service else None)\<rparr>"

lemma demo_service_valid: "from_metadata demo_codec (JObj [(''http_service'', JObj [])]) = Inr (Some demo_service)"
  by (simp add: from_metadata_def demo_codec_def service_valid_def demo_service_def demo_operation_def
      text_ok_def operation_ok_def path_ok_def fields_ok_def example_ok_def str_simps)

theorem service_description_sound_witness:
  "from_metadata demo_codec (JObj [(''http_service'', JObj [])]) = Inr (Some demo_service)
   \<and> set (hop_path demo_operation) \<inter> {CHR ''?'', CHR ''#'', CHR ''%'', CHR ''@'', CHR '':'', CHR 92, CHR '' ''} = {}"
  using service_description_sound [OF demo_service_valid] demo_service_valid
  by (simp add: demo_service_def)

end
