(* ===== verification/OAuth.thy ===== *)
theory OAuth
  imports SecretStore AuditSink
begin

text \<open>
  \<open>oauth/sealing.rs\<close>, \<open>secret/credential_sealing.rs\<close>, \<open>oauth/jwt.rs\<close> and \<open>oauth/session.rs\<close>: the
  sealing keys of the two domains, the account claim of an access token, and the table of sealed OAuth
  sessions.  AES-GCM, base64, SHA-256 and the JSON reader are parameters (record \<open>seal_lib\<close>), with
  what the code relies on in \<open>seal_contract\<close>: base64 and AES-GCM undo what they did.  The random
  nonces are arguments, \<open>None\<close> when the operating system gives none.
\<close>

section \<open>Sealing keys\<close>

datatype sealing_key_error =
    EnvVarUnset string
  | InvalidBase64
  | SkInvalidLength nat
  | InvalidNonce nat
  | Decrypt
  | NonceGenFailed
  | CipherPanic

record seal_lib =
  sl_encode :: "string \<Rightarrow> string"
  sl_decode :: "string \<Rightarrow> string option"
  sl_encrypt :: "string \<Rightarrow> string \<Rightarrow> string \<Rightarrow> string option"
  sl_decrypt :: "string \<Rightarrow> string \<Rightarrow> string \<Rightarrow> string option"
  sl_url_decode :: "string \<Rightarrow> string option"
  sl_json :: "string \<Rightarrow> json option"
  sl_sha256 :: "string \<Rightarrow> string"

definition NONCE_LEN :: nat where "NONCE_LEN = 12"

definition KEY_LEN :: nat where "KEY_LEN = 32"

definition SEALING_KEY_ENV :: string where "SEALING_KEY_ENV = ''LOCKSMITH_OAUTH_SEALING_KEY''"

definition CREDENTIAL_SEALING_KEY_ENV :: string where
  "CREDENTIAL_SEALING_KEY_ENV = ''LOCKSMITH_CREDENTIAL_SEALING_KEY''"

record sealing_key =
  sk_key :: string

definition sealing_from_b64 :: "seal_lib \<Rightarrow> string \<Rightarrow> sealing_key_error + sealing_key" where
  "sealing_from_b64 L b64 =
    result_bind (ok_or (sl_decode L (str_trim b64)) InvalidBase64) (\<lambda>bytes.
    if length bytes \<noteq> KEY_LEN then Inl (SkInvalidLength (length bytes))
    else Inr \<lparr>sk_key = sl_encode L bytes\<rparr>)"

definition sealing_from_env_var ::
    "seal_lib \<Rightarrow> (string \<Rightarrow> string option) \<Rightarrow> string \<Rightarrow> sealing_key_error + sealing_key" where
  "sealing_from_env_var L env var =
    result_bind (ok_or (env var) (EnvVarUnset var)) (\<lambda>raw.
    if raw = [] then Inl (EnvVarUnset var) else sealing_from_b64 L raw)"

definition sealing_from_env :: "seal_lib \<Rightarrow> (string \<Rightarrow> string option) \<Rightarrow> sealing_key_error + sealing_key" where
  "sealing_from_env L env = sealing_from_env_var L env SEALING_KEY_ENV"

definition sealing_generate :: "seal_lib \<Rightarrow> string option \<Rightarrow> sealing_key_error + sealing_key" where
  "sealing_generate L rng = result_bind (ok_or rng NonceGenFailed) (\<lambda>bytes. Inr \<lparr>sk_key = sl_encode L bytes\<rparr>)"

text \<open>\<open>new_from_slice(..).expect(..)\<close> panics on a key that is not 32 bytes long.\<close>

definition cipher :: "seal_lib \<Rightarrow> sealing_key \<Rightarrow> sealing_key_error + string" where
  "cipher L k =
    result_bind (ok_or (sl_decode L (sk_key k)) InvalidBase64) (\<lambda>bytes.
    if length bytes \<noteq> KEY_LEN then Inl CipherPanic else Inr bytes)"

definition seal :: "seal_lib \<Rightarrow> sealing_key \<Rightarrow> string option \<Rightarrow> string \<Rightarrow> sealing_key_error + (string \<times> string)" where
  "seal L k rng plaintext =
    result_bind (cipher L k) (\<lambda>c.
    result_bind (ok_or rng NonceGenFailed) (\<lambda>nonce.
    result_bind (ok_or (sl_encrypt L c nonce plaintext) Decrypt) (\<lambda>ct. Inr (ct, nonce))))"

definition unseal :: "seal_lib \<Rightarrow> sealing_key \<Rightarrow> string \<Rightarrow> string \<Rightarrow> sealing_key_error + string" where
  "unseal L k ciphertext nonce =
    (if length nonce \<noteq> NONCE_LEN then Inl (InvalidNonce (length nonce))
     else result_bind (cipher L k) (\<lambda>c. ok_or (sl_decrypt L c nonce ciphertext) Decrypt))"

record credential_sealing_key =
  ck_inner :: sealing_key

definition credential_from_env ::
    "seal_lib \<Rightarrow> (string \<Rightarrow> string option) \<Rightarrow> sealing_key_error + credential_sealing_key" where
  "credential_from_env L env =
    result_bind (sealing_from_env_var L env CREDENTIAL_SEALING_KEY_ENV) (\<lambda>k. Inr \<lparr>ck_inner = k\<rparr>)"

definition credential_seal ::
    "seal_lib \<Rightarrow> credential_sealing_key \<Rightarrow> string option \<Rightarrow> string \<Rightarrow> sealing_key_error + (string \<times> string)" where
  "credential_seal L k rng plaintext = seal L (ck_inner k) rng plaintext"

definition credential_unseal ::
    "seal_lib \<Rightarrow> credential_sealing_key \<Rightarrow> string \<Rightarrow> string \<Rightarrow> sealing_key_error + string" where
  "credential_unseal L k ciphertext nonce = unseal L (ck_inner k) ciphertext nonce"

section \<open>The account claim\<close>

fun json_get :: "string \<Rightarrow> json \<Rightarrow> json option" where
  "json_get k (JObj m) = map_of m k"
| "json_get k _ = None"

fun json_as_str :: "json \<Rightarrow> string option" where
  "json_as_str (JStr s) = Some s"
| "json_as_str _ = None"

definition decode_jwt_payload :: "seal_lib \<Rightarrow> string \<Rightarrow> json option" where
  "decode_jwt_payload L token =
    (case split_by (\<lambda>c. c = CHR ''.'') token of
       [_, payload_b64, _] \<Rightarrow>
         let pad_len = (4 - length payload_b64 mod 4) mod 4;
             padded = payload_b64 @ replicate pad_len (CHR ''='');
             trimmed = trim_end_matches (CHR ''='') padded
         in Option.bind (sl_url_decode L trimmed) (sl_json L)
     | _ \<Rightarrow> None)"

definition extract_chatgpt_account_id :: "seal_lib \<Rightarrow> string \<Rightarrow> string option" where
  "extract_chatgpt_account_id L access_token =
    Option.bind (decode_jwt_payload L access_token) (\<lambda>payload.
    Option.bind (json_get ''https://api.openai.com/auth'' payload) (\<lambda>auth.
    Option.bind (Option.bind (json_get ''chatgpt_account_id'' auth) json_as_str) (\<lambda>account_id.
    if account_id = [] then None else Some account_id)))"

section \<open>Sessions\<close>

record oauth_session =
  ss_name :: string
  ss_session_label :: string
  ss_refresh_token :: string
  ss_access_token :: "string option"
  ss_access_token_expires_at :: "int option"
  ss_scope :: string
  ss_degraded :: bool
  ss_created_at :: int
  ss_updated_at :: int
  ss_account_id :: "string option"

datatype oauth_session_error = Sealing sealing_key_error | Database | Invariant string

definition int_to_string :: "int \<Rightarrow> string" where
  "int_to_string i = (if i < 0 then CHR ''-'' # dec_digits (nat (- i)) else dec_digits (nat i))"

definition audit_session_id :: "seal_lib \<Rightarrow> oauth_session \<Rightarrow> string" where
  "audit_session_id L s =
    concat (map (\<lambda>c. hex_byte (of_char c))
      (take 8 (sl_sha256 L (ss_name s @ '':'' @ ss_session_label s @ '':'' @ int_to_string (ss_created_at s)))))"

definition sealing_err :: "sealing_key_error + 'a \<Rightarrow> oauth_session_error + 'a" where
  "sealing_err r = (case r of Inl e \<Rightarrow> Inl (Sealing e) | Inr a \<Rightarrow> Inr a)"

definition seal_opt ::
    "seal_lib \<Rightarrow> sealing_key \<Rightarrow> string option \<Rightarrow> string option \<Rightarrow> oauth_session_error + (string \<times> string) option" where
  "seal_opt L k rng plaintext =
    (case plaintext of
       None \<Rightarrow> Inr None
     | Some p \<Rightarrow> result_bind (sealing_err (seal L k rng p)) (\<lambda>x. Inr (Some x)))"

definition oauth_create ::
    "seal_lib \<Rightarrow> int \<Rightarrow> string option \<Rightarrow> string option \<Rightarrow> sealing_key \<Rightarrow> string \<Rightarrow> string \<Rightarrow> string
       \<Rightarrow> string option \<Rightarrow> int option \<Rightarrow> string \<Rightarrow> db \<Rightarrow> (oauth_session_error + oauth_session) \<times> db" where
  "oauth_create L now n1 n2 key name label refresh_token access_token expires_at scope d =
    (case result_bind (sealing_err (seal L key n1 refresh_token)) (\<lambda>r.
            result_bind (seal_opt L key n2 access_token) (\<lambda>a. Inr (r, a))) of
       Inl e \<Rightarrow> (Inl e, d)
     | Inr ((refresh_ct, refresh_nonce), access_sealed) \<Rightarrow>
         let account_id = Option.bind access_token (extract_chatgpt_account_id L);
             row = \<lparr>os_name = name, os_session_label = label, os_refresh_ct = refresh_ct,
                    os_refresh_nonce = refresh_nonce, os_access_ct = map_option fst access_sealed,
                    os_access_nonce = map_option snd access_sealed, os_expires_at = expires_at,
                    os_scope = scope, os_degraded = False, os_created_at = now, os_updated_at = now,
                    os_account_id = account_id\<rparr>
         in if db_down d \<or> (name, label) \<in> oauth_key ` set (oauth_sessions d) then (Inl Database, d)
            else (Inr \<lparr>ss_name = name, ss_session_label = label, ss_refresh_token = refresh_token,
                       ss_access_token = access_token, ss_access_token_expires_at = expires_at,
                       ss_scope = scope, ss_degraded = False, ss_created_at = now, ss_updated_at = now,
                       ss_account_id = account_id\<rparr>,
                  d\<lparr>oauth_sessions := oauth_sessions d @ [row]\<rparr>))"

definition update_tokens ::
    "seal_lib \<Rightarrow> int \<Rightarrow> string option \<Rightarrow> string option \<Rightarrow> sealing_key \<Rightarrow> string \<Rightarrow> string \<Rightarrow> string
       \<Rightarrow> int \<Rightarrow> string option \<Rightarrow> db \<Rightarrow> (oauth_session_error + unit) \<times> db" where
  "update_tokens L now n1 n2 key name label new_access expires_at new_refresh d =
    (case sealing_err (seal L key n1 new_access) of
       Inl e \<Rightarrow> (Inl e, d)
     | Inr (access_ct, access_nonce) \<Rightarrow>
         let account_id = extract_chatgpt_account_id L new_access;
             upd = (\<lambda>r. r\<lparr>os_access_ct := Some access_ct, os_access_nonce := Some access_nonce,
                        os_expires_at := Some expires_at, os_account_id := account_id,
                        os_degraded := False, os_updated_at := now\<rparr>)
         in case new_refresh of
              Some rt \<Rightarrow>
                (case sealing_err (seal L key n2 rt) of
                   Inl e \<Rightarrow> (Inl e, d)
                 | Inr (refresh_ct, refresh_nonce) \<Rightarrow>
                     if db_down d then (Inl Database, d)
                     else (Inr (), d\<lparr>oauth_sessions := update_where (\<lambda>r. oauth_key r = (name, label))
                       (\<lambda>r. (upd r)\<lparr>os_refresh_ct := refresh_ct, os_refresh_nonce := refresh_nonce\<rparr>)
                       (oauth_sessions d)\<rparr>))
            | None \<Rightarrow>
                if db_down d then (Inl Database, d)
                else (Inr (), d\<lparr>oauth_sessions := update_where (\<lambda>r. oauth_key r = (name, label)) upd
                  (oauth_sessions d)\<rparr>))"

definition mark_degraded :: "int \<Rightarrow> string \<Rightarrow> string \<Rightarrow> db \<Rightarrow> (oauth_session_error + unit) \<times> db" where
  "mark_degraded now name label d =
    (if db_down d then (Inl Database, d)
     else (Inr (), d\<lparr>oauth_sessions := update_where (\<lambda>r. oauth_key r = (name, label))
             (\<lambda>r. r\<lparr>os_degraded := True, os_updated_at := now\<rparr>) (oauth_sessions d)\<rparr>))"

definition from_utf8 :: "string \<Rightarrow> string \<Rightarrow> oauth_session_error + string" where
  "from_utf8 what pt = (if utf8_valid pt then Inr pt else Inl (Invariant what))"

definition unseal_row :: "seal_lib \<Rightarrow> sealing_key \<Rightarrow> oauth_row \<Rightarrow> oauth_session_error + oauth_session" where
  "unseal_row L key row =
    result_bind (sealing_err (unseal L key (os_refresh_ct row) (os_refresh_nonce row))) (\<lambda>refresh_pt.
    result_bind (from_utf8 ''refresh-token plaintext is not UTF-8'' refresh_pt) (\<lambda>refresh_token.
    result_bind
      (case (os_access_ct row, os_access_nonce row) of
         (Some ct, Some nonce) \<Rightarrow>
           result_bind (sealing_err (unseal L key ct nonce)) (\<lambda>pt.
           result_bind (from_utf8 ''access-token plaintext is not UTF-8'' pt) (\<lambda>t. Inr (Some t)))
       | (None, None) \<Rightarrow> Inr None
       | _ \<Rightarrow> Inl (Invariant ''access_token_ciphertext / access_token_nonce out of sync'')) (\<lambda>access_token.
    Inr \<lparr>ss_name = os_name row, ss_session_label = os_session_label row,
         ss_refresh_token = refresh_token, ss_access_token = access_token,
         ss_access_token_expires_at = os_expires_at row, ss_scope = os_scope row,
         ss_degraded = os_degraded row, ss_created_at = os_created_at row,
         ss_updated_at = os_updated_at row, ss_account_id = os_account_id row\<rparr>)))"

definition oauth_get ::
    "seal_lib \<Rightarrow> sealing_key \<Rightarrow> string \<Rightarrow> string \<Rightarrow> db \<Rightarrow> oauth_session_error + oauth_session option" where
  "oauth_get L key name label d =
    (if db_down d then Inl Database
     else case find (\<lambda>r. oauth_key r = (name, label)) (oauth_sessions d) of
       None \<Rightarrow> Inr None
     | Some row \<Rightarrow> result_bind (unseal_row L key row) (\<lambda>s. Inr (Some s)))"

definition oauth_delete :: "string \<Rightarrow> string \<Rightarrow> db \<Rightarrow> (oauth_session_error + bool) \<times> db" where
  "oauth_delete name label d =
    (if db_down d then (Inl Database, d)
     else (Inr (0 < count_where (\<lambda>r. oauth_key r = (name, label)) (oauth_sessions d)),
           d\<lparr>oauth_sessions := filter (\<lambda>r. oauth_key r \<noteq> (name, label)) (oauth_sessions d)\<rparr>))"

definition list_pending_refresh :: "int \<Rightarrow> db \<Rightarrow> oauth_session_error + (string \<times> string) list" where
  "list_pending_refresh threshold d =
    (if db_down d then Inl Database
     else Inr (map oauth_key (sort_key (\<lambda>r. the (os_expires_at r))
       (filter (\<lambda>r. \<not> os_degraded r \<and> (case os_expires_at r of Some e \<Rightarrow> e \<le> threshold | None \<Rightarrow> False))
         (oauth_sessions d)))))"

definition oauth_list_all ::
    "db \<Rightarrow> oauth_session_error + (string \<times> string \<times> bool \<times> int option) list" where
  "oauth_list_all d =
    (if db_down d then Inl Database
     else Inr (map (\<lambda>r. (os_name r, os_session_label r, os_degraded r, os_expires_at r))
       (sort_key os_name (sort_key os_session_label (oauth_sessions d)))))"

section \<open>Sealing lemmas\<close>

text \<open>What the code relies on of base64 and AES-GCM.\<close>

definition seal_contract :: "seal_lib \<Rightarrow> bool" where
  "seal_contract L \<longleftrightarrow>
     (\<forall>b. sl_decode L (sl_encode L b) = Some b)
   \<and> (\<forall>k n p c. sl_encrypt L k n p = Some c \<longrightarrow> sl_decrypt L k n c = Some p)"

definition key_ok :: "seal_lib \<Rightarrow> sealing_key \<Rightarrow> bool" where
  "key_ok L k \<longleftrightarrow> (case sl_decode L (sk_key k) of Some b \<Rightarrow> length b = KEY_LEN | None \<Rightarrow> False)"

lemma sealing_from_b64_key_ok: "seal_contract L \<Longrightarrow> sealing_from_b64 L s = Inr k \<Longrightarrow> key_ok L k"
  by (auto simp: sealing_from_b64_def key_ok_def seal_contract_def split: if_splits)

lemma cipher_key_ok: "key_ok L k \<Longrightarrow> \<exists>c. cipher L k = Inr c"
  by (auto simp: cipher_def key_ok_def split: option.splits)

lemma unseal_seal:
  assumes "seal_contract L" and "seal L k rng p = Inr (ct, nonce)" and "length nonce = NONCE_LEN"
  shows "unseal L k ct nonce = Inr p"
  using assms by (auto simp: seal_def unseal_def seal_contract_def)

lemma seal_nonce: "seal L k rng p = Inr (ct, nonce) \<Longrightarrow> rng = Some nonce"
  by (auto simp: seal_def)

lemma sealing_err_Inr [simp]: "sealing_err r = Inr a \<longleftrightarrow> r = Inr a"
  by (cases r) (auto simp: sealing_err_def)

lemma result_bind_Inr [simp]: "result_bind (Inr a) f = f a"
  by simp

text \<open>The row of a session: sealing its tokens with nonces of the right length makes it readable again.\<close>

lemma unseal_row_created:
  assumes "seal_contract L" and "seal L key n1 rt = Inr (rct, rn)" and "length rn = NONCE_LEN" and "utf8_valid rt"
    and "os_refresh_ct row = rct" and "os_refresh_nonce row = rn"
    and "seal_opt L key n2 at = Inr sealed" and "os_access_ct row = map_option fst sealed"
    and "os_access_nonce row = map_option snd sealed"
    and "\<forall>t. at = Some t \<longrightarrow> utf8_valid t" and "\<forall>n. n2 = Some n \<longrightarrow> length n = NONCE_LEN"
  shows "unseal_row L key row = Inr
      \<lparr>ss_name = os_name row, ss_session_label = os_session_label row,
         ss_refresh_token = rt, ss_access_token = at,
         ss_access_token_expires_at = os_expires_at row, ss_scope = os_scope row,
         ss_degraded = os_degraded row, ss_created_at = os_created_at row,
         ss_updated_at = os_updated_at row, ss_account_id = os_account_id row\<rparr>"
proof -
  have u1: "unseal L key rct rn = Inr rt"
    using unseal_seal [OF assms(1,2,3)] .
  show ?thesis
  proof (cases at)
    case None
    with assms u1 show ?thesis
      by (auto simp: unseal_row_def sealing_err_def from_utf8_def seal_opt_def)
  next
    case (Some t)
    with assms(7) obtain ct n where sl: "seal L key n2 t = Inr (ct, n)" and sd: "sealed = Some (ct, n)"
      by (auto simp: seal_opt_def)
    have "length n = NONCE_LEN" using seal_nonce [OF sl] assms(11) by simp
    then have "unseal L key ct n = Inr t" using unseal_seal [OF assms(1) sl] by simp
    with Some sd assms u1 show ?thesis
      by (simp add: unseal_row_def sealing_err_def from_utf8_def)
  qed
qed

text \<open>A stored OAuth session can be read back: what \<open>create\<close> returned is what \<open>get\<close> returns, with
  both tokens unsealed, and no other session's reading changes.\<close>

theorem oauth_create_get:
  assumes "seal_contract L"
    and "oauth_create L now (Some n1) (Some n2) key name label rt at ex scope d = (Inr s, d')"
    and "length n1 = NONCE_LEN" and "length n2 = NONCE_LEN" and "utf8_valid rt"
    and "\<forall>t. at = Some t \<longrightarrow> utf8_valid t"
  shows "oauth_get L key name label d' = Inr (Some s)
    \<and> ss_refresh_token s = rt \<and> ss_access_token s = at \<and> \<not> ss_degraded s
    \<and> ((n, l) \<noteq> (name, label) \<longrightarrow> oauth_get L key n l d' = oauth_get L key n l d)"
proof -
  from assms(2) obtain rct rn sealed where rs: "seal L key (Some n1) rt = Inr (rct, rn)"
    and as: "seal_opt L key (Some n2) at = Inr sealed"
    and new: "(name, label) \<notin> oauth_key ` set (oauth_sessions d)" and up: "\<not> db_down d"
    and s: "s = \<lparr>ss_name = name, ss_session_label = label, ss_refresh_token = rt,
                 ss_access_token = at, ss_access_token_expires_at = ex,
                 ss_scope = scope, ss_degraded = False, ss_created_at = now, ss_updated_at = now,
                 ss_account_id = Option.bind at (extract_chatgpt_account_id L)\<rparr>"
    and d': "d' = d\<lparr>oauth_sessions := oauth_sessions d @
        [\<lparr>os_name = name, os_session_label = label, os_refresh_ct = rct,
          os_refresh_nonce = rn, os_access_ct = map_option fst sealed,
          os_access_nonce = map_option snd sealed, os_expires_at = ex,
          os_scope = scope, os_degraded = False, os_created_at = now, os_updated_at = now,
          os_account_id = Option.bind at (extract_chatgpt_account_id L)\<rparr>]\<rparr>"
    by (auto simp: oauth_create_def Let_def split: sum.splits if_splits)
  have rn: "length rn = NONCE_LEN" using seal_nonce [OF rs] assms(3) by simp
  have "find (\<lambda>r. oauth_key r = (name, label)) (oauth_sessions d) = None"
    using new by (simp add: find_key_None_iff)
  then have "oauth_get L key name label d' = Inr (Some s)"
    using up unseal_row_created [OF assms(1) rs rn assms(5) _ _ as _ _ assms(6)] assms(4)
    by (simp add: oauth_get_def d' find_append oauth_key_def s)
  moreover have "oauth_get L key n l d' = oauth_get L key n l d" if "(n, l) \<noteq> (name, label)"
    using that by (auto simp: oauth_get_def d' find_append oauth_key_def split: option.split)
  ultimately show ?thesis by (simp add: s)
qed

definition demo_seal :: seal_lib where
  "demo_seal = \<lparr>sl_encode = id, sl_decode = Some, sl_encrypt = (\<lambda>k n p. Some (rev p)),
     sl_decrypt = (\<lambda>k n c. Some (rev c)), sl_url_decode = Some, sl_json = (\<lambda>s. None), sl_sha256 = id\<rparr>"

definition demo_key :: sealing_key where
  "demo_key = \<lparr>sk_key = replicate 32 (CHR ''k'')\<rparr>"

definition demo_nonce :: string where
  "demo_nonce = replicate 12 (CHR ''n'')"

lemma demo_seal_contract [simp]: "seal_contract demo_seal"
  by (simp add: seal_contract_def demo_seal_def)

lemma demo_nonce_len [simp]: "length demo_nonce = NONCE_LEN"
  by (simp add: demo_nonce_def NONCE_LEN_def)

lemma demo_seal_eq [simp]: "seal demo_seal demo_key (Some demo_nonce) p = Inr (rev p, demo_nonce)"
  by (simp add: seal_def cipher_def demo_seal_def demo_key_def KEY_LEN_def)

lemma utf8_ascii_example [simp]: "utf8_valid ''rt''" "utf8_valid ''at''"
  by (simp_all add: utf8_valid_ascii byte_in_def)

theorem oauth_create_get_witness:
  "oauth_get demo_seal demo_key ''codex'' ''default''
     (snd (oauth_create demo_seal 5 (Some demo_nonce) (Some demo_nonce) demo_key ''codex'' ''default'' ''rt'' (Some ''at'')
       (Some 100) [] empty_db))
   = Inr (Some \<lparr>ss_name = ''codex'', ss_session_label = ''default'', ss_refresh_token = ''rt'',
       ss_access_token = Some ''at'', ss_access_token_expires_at = Some 100, ss_scope = [], ss_degraded = False,
       ss_created_at = 5, ss_updated_at = 5, ss_account_id = extract_chatgpt_account_id demo_seal ''at''\<rparr>)"
  (is "?g = Inr (Some ?s)")
proof -
  have "oauth_create demo_seal 5 (Some demo_nonce) (Some demo_nonce) demo_key ''codex'' ''default'' ''rt'' (Some ''at'')
       (Some 100) [] empty_db = (Inr ?s, snd (oauth_create demo_seal 5 (Some demo_nonce) (Some demo_nonce) demo_key
       ''codex'' ''default'' ''rt'' (Some ''at'') (Some 100) [] empty_db))"
    by (simp add: oauth_create_def seal_opt_def sealing_err_def empty_db_def Let_def)
  from oauth_create_get [OF demo_seal_contract this] show ?thesis by simp
qed

end
