(* ===== verification/OAuthRefresh.thy ===== *)
theory OAuthRefresh
  imports OAuth
begin

text \<open>
  \<open>oauth/refresh.rs\<close> and \<open>oauth/refresh/exchange.rs\<close>: the choice of the OAuth metadata a shared
  session is refreshed with, the exchange at the token endpoint, the per-session locks and one tick of
  the background task.  The HTTP client is a parameter: \<open>send url form\<close> is the reply of the token
  endpoint.  The lock is held across re-read, exchange and write, so one item is one step here.
\<close>

section \<open>Margins and locks\<close>

definition DEFAULT_REFRESH_SAFETY_MARGIN_SECS :: int where "DEFAULT_REFRESH_SAFETY_MARGIN_SECS = 300"

definition MIN_REFRESH_SAFETY_MARGIN_SECS :: int where "MIN_REFRESH_SAFETY_MARGIN_SECS = 60"

definition REFRESH_TICK_SECS :: int where "REFRESH_TICK_SECS = 30"

definition refresh_safety_margin_secs :: "int \<Rightarrow> int" where
  "refresh_safety_margin_secs lifetime_secs =
    (let by_quarter = trunc_div lifetime_secs 4;
         chosen = min DEFAULT_REFRESH_SAFETY_MARGIN_SECS by_quarter
     in max chosen MIN_REFRESH_SAFETY_MARGIN_SECS)"

text \<open>A lock is identified by its number; \<open>get\<close> makes one on first use.\<close>

record refresh_lock_map =
  lm_locks :: "(string \<times> nat) list"

definition lock_key :: "string \<Rightarrow> string \<Rightarrow> string" where
  "lock_key name label = name @ [CHR 0x1F] @ label"

definition lock_get :: "string \<Rightarrow> string \<Rightarrow> refresh_lock_map \<Rightarrow> nat \<times> refresh_lock_map" where
  "lock_get name label M =
    (let key = lock_key name label in
     case map_of (lm_locks M) key of
       Some l \<Rightarrow> (l, M)
     | None \<Rightarrow> (length (lm_locks M), M\<lparr>lm_locks := lm_locks M @ [(key, length (lm_locks M))]\<rparr>))"

section \<open>Selection\<close>

definition selected_parameters :: "(string \<Rightarrow> url_view option) \<Rightarrow> auth_spec \<Rightarrow> (string \<times> string) option" where
  "selected_parameters parse_url spec =
    Option.bind
      (case spec of
         OauthPkce client _ _ _ url _ \<Rightarrow> Some (url, client)
       | OauthDeviceCode client _ _ url _ \<Rightarrow> Some (url, client)
       | _ \<Rightarrow> None)
      (\<lambda>(url, client).
        Option.bind (parse_url url) (\<lambda>parsed.
        if str_trim client = []
           \<or> \<not> (uv_scheme parsed = ''http'' \<or> uv_scheme parsed = ''https'')
           \<or> \<not> uv_has_host parsed
        then None else Some (url, client)))"

fun consensus_from ::
    "(string \<Rightarrow> url_view option) \<Rightarrow> auth_spec option \<Rightarrow> auth_spec list \<Rightarrow> unit + auth_spec option" where
  "consensus_from parse_url selected [] = Inr selected"
| "consensus_from parse_url selected (spec # specs) =
    (if selected_parameters parse_url spec = None
        \<or> (case selected of Some prior \<Rightarrow> prior \<noteq> spec | None \<Rightarrow> False)
     then Inl ()
     else consensus_from parse_url (Some spec) specs)"

definition consensus :: "(string \<Rightarrow> url_view option) \<Rightarrow> auth_spec list \<Rightarrow> unit + auth_spec option" where
  "consensus parse_url specs = consensus_from parse_url None specs"

definition selected_source ::
    "(string \<Rightarrow> url_view option) \<Rightarrow> string \<Rightarrow> string \<Rightarrow> db \<Rightarrow> unit + auth_spec option" where
  "selected_source parse_url name label d =
    (case creds_list_all d of
       Inl _ \<Rightarrow> Inl ()
     | Inr rows \<Rightarrow> consensus parse_url (map co_auth_spec
         (filter (\<lambda>row. co_registration row = name
            \<and> oauth_session_label (co_auth_spec row) = Some label
            \<and> str_trim label \<noteq> []) rows)))"

section \<open>Exchange\<close>

record token_response =
  tr_access_token :: string
  tr_expires_in :: "int option"
  tr_refresh_token :: "string option"
  tr_token_type :: "string option"

datatype token_reply = TokenNetErr | TokenReply nat "token_response option"

datatype refresh_error =
    RegistrationGone string
  | NotOauth string
  | Network string
  | Revoked nat
  | ProviderError nat
  | BadResponse string
  | Persist "oauth_session_error option"

fun audit_cause :: "refresh_error \<Rightarrow> string" where
  "audit_cause (RegistrationGone _) = ''registration_gone''"
| "audit_cause (NotOauth _) = ''not_oauth''"
| "audit_cause (Network _) = ''network_error''"
| "audit_cause (Revoked _) = ''revoked''"
| "audit_cause (ProviderError _) = ''provider_5xx''"
| "audit_cause (BadResponse _) = ''bad_response''"
| "audit_cause (Persist _) = ''persist_failed''"

definition i64_add :: "int \<Rightarrow> int \<Rightarrow> int" where
  "i64_add a b = sint (word_of_int (a + b) :: 64 word)"

record refresh_env =
  re_send :: "string \<Rightarrow> (string \<times> string) list \<Rightarrow> token_reply"
  re_now :: int
  re_upd_at :: int
  re_nonce :: "string option"
  re_nonce2 :: "string option"

definition refresh_form :: "string \<Rightarrow> string \<Rightarrow> (string \<times> string) list" where
  "refresh_form refresh_token client =
    [(''grant_type'', ''refresh_token''), (''refresh_token'', refresh_token), (''client_id'', client)]"

definition exchange ::
    "(string \<Rightarrow> url_view option) \<Rightarrow> refresh_env \<Rightarrow> auth_spec \<Rightarrow> oauth_session \<Rightarrow> refresh_error + token_response" where
  "exchange parse_url E selection session =
    (case selected_parameters parse_url selection of
       None \<Rightarrow> Inl (BadResponse ''selected OAuth metadata is unusable'')
     | Some (url, client) \<Rightarrow>
         if ss_refresh_token session = [] then Inl (BadResponse ''empty refresh token'')
         else
           (case re_send E url (refresh_form (ss_refresh_token session) client) of
              TokenNetErr \<Rightarrow> Inl (Network ''token endpoint unavailable'')
            | TokenReply status body \<Rightarrow>
                if \<not> (200 \<le> status \<and> status < 300) then
                  (if 400 \<le> status \<and> status < 500 then Inl (Revoked status) else Inl (ProviderError status))
                else
                  (case body of
                     None \<Rightarrow> Inl (BadResponse ''invalid token response'')
                   | Some t \<Rightarrow>
                       if tr_access_token t = [] \<or> tr_refresh_token t = Some []
                       then Inl (BadResponse ''empty token response'')
                       else Inr t)))"

definition refresh_selected_session ::
    "seal_lib \<Rightarrow> (string \<Rightarrow> url_view option) \<Rightarrow> refresh_env \<Rightarrow> auth_spec \<Rightarrow> sealing_key \<Rightarrow> oauth_session \<Rightarrow> db
       \<Rightarrow> (refresh_error + oauth_session) \<times> db" where
  "refresh_selected_session L parse_url E selection key session d =
    (case exchange parse_url E selection session of
       Inl e \<Rightarrow> (Inl e, d)
     | Inr t \<Rightarrow>
         let lifetime = (case tr_expires_in t of Some l \<Rightarrow> l | None \<Rightarrow> 3600);
             new_expires_at = i64_add (re_now E) lifetime
         in case update_tokens L (re_upd_at E) (re_nonce E) (re_nonce2 E) key (ss_name session)
                   (ss_session_label session) (tr_access_token t) new_expires_at (tr_refresh_token t) d of
              (Inl e, d') \<Rightarrow> (Inl (Persist (Some e)), d')
            | (Inr _, d') \<Rightarrow>
                (case oauth_get L key (ss_name session) (ss_session_label session) d' of
                   Inl e \<Rightarrow> (Inl (Persist (Some e)), d')
                 | Inr None \<Rightarrow> (Inl (Persist None), d')
                 | Inr (Some s) \<Rightarrow> (Inr s, d')))"

definition refresh_session ::
    "seal_lib \<Rightarrow> (string \<Rightarrow> url_view option) \<Rightarrow> refresh_env \<Rightarrow> catalog \<Rightarrow> sealing_key \<Rightarrow> oauth_session \<Rightarrow> db
       \<Rightarrow> (refresh_error + oauth_session) \<times> db" where
  "refresh_session L parse_url E c key session d =
    (case lookup_active c (ss_name session) of
       None \<Rightarrow> (Inl (RegistrationGone (ss_name session)), d)
     | Some r \<Rightarrow> refresh_selected_session L parse_url E (reg_auth r) key session d)"

section \<open>The background task\<close>

definition degraded_event :: "string \<Rightarrow> string \<Rightarrow> refresh_error \<Rightarrow> log_event" where
  "degraded_event name label e =
    \<lparr>le_level = Warn, le_component = CompOauth, le_event = ''oauth_refresh_degraded'',
     le_message = ''oauth refresh failed; session marked degraded'',
     le_fields = Some (JObj [(''cause'', JStr (audit_cause e)), (''registration'', JStr name),
       (''session_label'', JStr label)])\<rparr>"

record tick_env =
  ti_catalog :: catalog
  ti_refresh :: refresh_env
  ti_now_degraded :: int

definition tick_item ::
    "seal_lib \<Rightarrow> (string \<Rightarrow> url_view option) \<Rightarrow> sealing_key \<Rightarrow> (string \<times> string \<Rightarrow> tick_env) \<Rightarrow> int
       \<Rightarrow> string \<times> string \<Rightarrow> db \<times> emitter option \<Rightarrow> db \<times> emitter option" where
  "tick_item L parse_url key env threshold item st =
    (case (item, st, env item) of ((name, label), (d, em), E) \<Rightarrow>
     if lookup_active (ti_catalog E) name = None then (d, em)
     else case selected_source parse_url name label d of
       Inl _ \<Rightarrow> (d, em)
     | Inr None \<Rightarrow> (d, em)
     | Inr (Some selection) \<Rightarrow>
         (case oauth_get L key name label d of
            Inl _ \<Rightarrow> (d, em)
          | Inr None \<Rightarrow> (d, em)
          | Inr (Some session) \<Rightarrow>
              if ss_degraded session then (d, em)
              else if (case ss_access_token_expires_at session of Some e \<Rightarrow> threshold < e | None \<Rightarrow> False)
              then (d, em)
              else
                (case refresh_selected_session L parse_url (ti_refresh E) selection key session d of
                   (Inr _, d') \<Rightarrow> (d', em)
                 | (Inl e, d') \<Rightarrow>
                     (snd (mark_degraded (ti_now_degraded E) name label d'),
                      map_option (emit (degraded_event name label e)) em))))"

definition refresh_tick ::
    "seal_lib \<Rightarrow> (string \<Rightarrow> url_view option) \<Rightarrow> sealing_key \<Rightarrow> (string \<times> string \<Rightarrow> tick_env) \<Rightarrow> int
       \<Rightarrow> db \<times> emitter option \<Rightarrow> db \<times> emitter option" where
  "refresh_tick L parse_url key env now st =
    (let threshold = now + DEFAULT_REFRESH_SAFETY_MARGIN_SECS in
     case list_pending_refresh threshold (fst st) of
       Inl _ \<Rightarrow> st
     | Inr items \<Rightarrow> fold (tick_item L parse_url key env threshold) items st)"

section \<open>Lemmas\<close>

lemma lock_key_inj:
  assumes "CHR 0x1F \<notin> set a" and "CHR 0x1F \<notin> set b"
  shows "lock_key a l = lock_key b l' \<longleftrightarrow> a = b \<and> l = l'"
proof
  assume "lock_key a l = lock_key b l'"
  then have "a @ CHR 0x1F # l = b @ CHR 0x1F # l'" by (simp add: lock_key_def)
  then have "split_once (CHR 0x1F) (a @ CHR 0x1F # l) = split_once (CHR 0x1F) (b @ CHR 0x1F # l')" by simp
  then show "a = b \<and> l = l'"
    using assms by (simp add: split_once_append)
qed simp

lemma consensus_from_Inr_iff:
  "consensus_from parse_url sel specs = Inr r \<longleftrightarrow>
    list_all (\<lambda>s. selected_parameters parse_url s \<noteq> None) specs
    \<and> (case sel of Some p \<Rightarrow> list_all (\<lambda>s. s = p) specs \<and> r = Some p
       | None \<Rightarrow> (case specs of [] \<Rightarrow> r = None | s # ss \<Rightarrow> list_all (\<lambda>t. t = s) ss \<and> r = Some s))"
  by (induction parse_url sel specs rule: consensus_from.induct) (auto split: option.splits list.splits)

lemma consensus_Some_iff:
  "consensus parse_url specs = Inr (Some s) \<longleftrightarrow>
     specs \<noteq> [] \<and> list_all (\<lambda>t. t = s) specs \<and> selected_parameters parse_url s \<noteq> None"
  by (cases specs) (auto simp: consensus_def consensus_from_Inr_iff list_all_iff)

lemma oauth_key_upd [simp]:
  "oauth_key (r\<lparr>os_access_ct := a\<rparr>) = oauth_key r" "oauth_key (r\<lparr>os_access_nonce := a\<rparr>) = oauth_key r"
  "oauth_key (r\<lparr>os_refresh_ct := b\<rparr>) = oauth_key r" "oauth_key (r\<lparr>os_refresh_nonce := b\<rparr>) = oauth_key r"
  "oauth_key (r\<lparr>os_expires_at := e\<rparr>) = oauth_key r" "oauth_key (r\<lparr>os_degraded := g\<rparr>) = oauth_key r"
  "oauth_key (r\<lparr>os_updated_at := t\<rparr>) = oauth_key r" "oauth_key (r\<lparr>os_account_id := a\<rparr>) = oauth_key r"
  by (simp_all add: oauth_key_def)

lemma unseal_row_InrD:
  assumes "unseal_row L key row = Inr s"
  shows "unseal L key (os_refresh_ct row) (os_refresh_nonce row) = Inr (ss_refresh_token s)
    \<and> utf8_valid (ss_refresh_token s) \<and> ss_name s = os_name row \<and> ss_session_label s = os_session_label row
    \<and> ss_scope s = os_scope row \<and> ss_created_at s = os_created_at row \<and> ss_degraded s = os_degraded row
    \<and> ss_access_token_expires_at s = os_expires_at row"
  using assms by (auto simp: unseal_row_def from_utf8_def split: if_splits)

lemma unseal_row_intro:
  assumes "unseal L key (os_refresh_ct row) (os_refresh_nonce row) = Inr rt" and "utf8_valid rt"
    and "os_access_ct row = Some ct" and "os_access_nonce row = Some n"
    and "unseal L key ct n = Inr at" and "utf8_valid at"
  shows "unseal_row L key row = Inr
      \<lparr>ss_name = os_name row, ss_session_label = os_session_label row,
         ss_refresh_token = rt, ss_access_token = Some at,
         ss_access_token_expires_at = os_expires_at row, ss_scope = os_scope row,
         ss_degraded = os_degraded row, ss_created_at = os_created_at row,
         ss_updated_at = os_updated_at row, ss_account_id = os_account_id row\<rparr>"
  using assms by (simp add: unseal_row_def sealing_err_def from_utf8_def)

definition with_tokens ::
    "seal_lib \<Rightarrow> int \<Rightarrow> string \<Rightarrow> int \<Rightarrow> string option \<Rightarrow> oauth_session \<Rightarrow> oauth_session" where
  "with_tokens L now at ex rt s = s\<lparr>ss_access_token := Some at, ss_access_token_expires_at := Some ex,
     ss_refresh_token := (case rt of Some r \<Rightarrow> r | None \<Rightarrow> ss_refresh_token s), ss_degraded := False,
     ss_updated_at := now, ss_account_id := extract_chatgpt_account_id L at\<rparr>"

lemma update_tokens_InrD:
  assumes "update_tokens L now n1 n2 key name label at ex rt d = (Inr u, d')"
  obtains act an f where "seal L key n1 at = Inr (act, an)" and "\<not> db_down d"
    and "rt = None \<and> f = id
      \<or> (\<exists>r rct rn. rt = Some r \<and> seal L key n2 r = Inr (rct, rn)
          \<and> f = (\<lambda>x. x\<lparr>os_refresh_ct := rct, os_refresh_nonce := rn\<rparr>))"
    and "d' = d\<lparr>oauth_sessions := update_where (\<lambda>r. oauth_key r = (name, label))
           (\<lambda>r. f (r\<lparr>os_access_ct := Some act, os_access_nonce := Some an, os_expires_at := Some ex,
              os_account_id := extract_chatgpt_account_id L at, os_degraded := False, os_updated_at := now\<rparr>))
           (oauth_sessions d)\<rparr>"
proof -
  from assms obtain act an where s1: "seal L key n1 at = Inr (act, an)"
    by (auto simp: update_tokens_def split: sum.splits)
  show thesis
  proof (cases rt)
    case None
    with assms s1 show thesis
      by (intro that [OF s1, of id]) (auto simp: update_tokens_def sealing_err_def Let_def split: if_splits)
  next
    case (Some r)
    with assms s1 obtain rct rn where s2: "seal L key n2 r = Inr (rct, rn)"
      by (auto simp: update_tokens_def sealing_err_def Let_def split: sum.splits)
    with assms s1 Some show thesis
      by (intro that [OF s1, of "\<lambda>x. x\<lparr>os_refresh_ct := rct, os_refresh_nonce := rn\<rparr>"])
        (auto simp: update_tokens_def sealing_err_def Let_def split: if_splits)
  qed
qed

lemma update_tokens_get:
  assumes "seal_contract L" and upd: "update_tokens L now n1 n2 key name label at ex rt d = (Inr u, d')"
    and n: "\<forall>n. n1 = Some n \<or> n2 = Some n \<longrightarrow> length n = NONCE_LEN"
    and utf: "utf8_valid at" "\<forall>r. rt = Some r \<longrightarrow> utf8_valid r"
    and get: "oauth_get L key name label d = Inr (Some s)"
  shows "oauth_get L key name label d' = Inr (Some (with_tokens L now at ex rt s))"
proof -
  from upd obtain act an f where s1: "seal L key n1 at = Inr (act, an)" and up: "\<not> db_down d"
    and f: "rt = None \<and> f = id
      \<or> (\<exists>r rct rn. rt = Some r \<and> seal L key n2 r = Inr (rct, rn)
          \<and> f = (\<lambda>x. x\<lparr>os_refresh_ct := rct, os_refresh_nonce := rn\<rparr>))"
    and d': "d' = d\<lparr>oauth_sessions := update_where (\<lambda>r. oauth_key r = (name, label))
           (\<lambda>r. f (r\<lparr>os_access_ct := Some act, os_access_nonce := Some an, os_expires_at := Some ex,
              os_account_id := extract_chatgpt_account_id L at, os_degraded := False, os_updated_at := now\<rparr>))
           (oauth_sessions d)\<rparr>"
    by (rule update_tokens_InrD)
  from get up obtain row where row: "find (\<lambda>r. oauth_key r = (name, label)) (oauth_sessions d) = Some row"
    and ur: "unseal_row L key row = Inr s"
    by (auto simp: oauth_get_def split: option.splits)
  have ua: "unseal L key act an = Inr at"
    using unseal_seal [OF assms(1) s1] seal_nonce [OF s1] n by simp
  have u2: "unseal L key rct rn = Inr r" if "seal L key n2 r = Inr (rct, rn)" for r rct rn
    using unseal_seal [OF assms(1) that] seal_nonce [OF that] n by simp
  let ?row = "f (row\<lparr>os_access_ct := Some act, os_access_nonce := Some an, os_expires_at := Some ex,
              os_account_id := extract_chatgpt_account_id L at, os_degraded := False, os_updated_at := now\<rparr>)"
  have keep: "oauth_key (f x) = oauth_key x" for x
    using f by auto
  then have find: "find (\<lambda>r. oauth_key r = (name, label)) (oauth_sessions d') = Some ?row"
    using row by (simp add: d' find_key_update)
  have "unseal L key (os_refresh_ct ?row) (os_refresh_nonce ?row) =
      Inr (case rt of Some r \<Rightarrow> r | None \<Rightarrow> ss_refresh_token s)
    \<and> utf8_valid (case rt of Some r \<Rightarrow> r | None \<Rightarrow> ss_refresh_token s)"
    using f unseal_row_InrD [OF ur] utf(2) n
    by (auto dest: u2)
  then have "unseal_row L key ?row = Inr (with_tokens L now at ex rt s)"
    using f unseal_row_InrD [OF ur]
    by (subst unseal_row_intro [OF conjunct1 conjunct2 _ _ ua utf(1)])
      (auto simp: with_tokens_def)
  with find up show ?thesis by (simp add: oauth_get_def d')
qed

lemma update_tokens_other:
  assumes "update_tokens L now n1 n2 key name label at ex rt d = (r, d')" and "(n, l) \<noteq> (name, label)"
  shows "find (\<lambda>r. oauth_key r = (n, l)) (oauth_sessions d') = find (\<lambda>r. oauth_key r = (n, l)) (oauth_sessions d)"
proof -
  have "find (\<lambda>r. oauth_key r = (n, l)) (update_where (\<lambda>r. oauth_key r = (name, label)) g xs)
      = find (\<lambda>r. oauth_key r = (n, l)) xs" if "\<And>r. oauth_key (g r) = oauth_key r" for g xs
    using assms(2) that by (subst find_key_update) auto
  with assms(1) show ?thesis
    by (auto simp: update_tokens_def Let_def split: sum.splits option.splits if_splits)
qed

lemma update_tokens_down: "update_tokens L now n1 n2 key name label at ex rt d = (r, d') \<Longrightarrow> db_down d' = db_down d"
  by (auto simp: update_tokens_def Let_def split: sum.splits option.splits if_splits)

lemma update_tokens_fail: "update_tokens L now n1 n2 key name label at ex rt d = (Inl e, d') \<Longrightarrow> d' = d"
  by (auto simp: update_tokens_def Let_def split: sum.splits option.splits if_splits)


definition demo_pkce :: auth_spec where
  "demo_pkce = OauthPkce ''app'' ''http://localhost/cb'' [] ''https://idp.test/auth'' ''https://idp.test/token''
     (Some ''default'')"

definition demo_url :: "string \<Rightarrow> url_view option" where
  "demo_url u = Some \<lparr>uv_scheme = ''https'', uv_has_host = True, uv_username = [], uv_password = None,
     uv_query = None, uv_fragment = None\<rparr>"

definition demo_refresh_env :: "int \<Rightarrow> refresh_env" where
  "demo_refresh_env now = \<lparr>re_send = (\<lambda>url form. TokenReply 200
       (Some \<lparr>tr_access_token = ''at'', tr_expires_in = Some 120, tr_refresh_token = None, tr_token_type = None\<rparr>)),
     re_now = now, re_upd_at = now, re_nonce = Some demo_nonce, re_nonce2 = Some demo_nonce\<rparr>"

definition demo_oauth_row :: oauth_row where
  "demo_oauth_row = \<lparr>os_name = ''codex'', os_session_label = ''default'', os_refresh_ct = ''tr'',
     os_refresh_nonce = demo_nonce, os_access_ct = None, os_access_nonce = None, os_expires_at = Some 50,
     os_scope = [], os_degraded = False, os_created_at = 1, os_updated_at = 1, os_account_id = None\<rparr>"

definition demo_oauth_db :: db where
  "demo_oauth_db = empty_db\<lparr>oauth_sessions := [demo_oauth_row]\<rparr>"

definition demo_session :: oauth_session where
  "demo_session = \<lparr>ss_name = ''codex'', ss_session_label = ''default'', ss_refresh_token = ''rt'',
     ss_access_token = None, ss_access_token_expires_at = Some 50, ss_scope = [], ss_degraded = False,
     ss_created_at = 1, ss_updated_at = 1, ss_account_id = None\<rparr>"

lemma demo_unseal [simp]: "unseal demo_seal demo_key ct demo_nonce = Inr (rev ct)"
  by (simp add: unseal_def cipher_def demo_seal_def demo_key_def KEY_LEN_def)

lemma demo_oauth_get: "oauth_get demo_seal demo_key ''codex'' ''default'' demo_oauth_db = Inr (Some demo_session)"
  by (simp add: oauth_get_def demo_oauth_db_def demo_oauth_row_def demo_session_def empty_db_def oauth_key_def
      unseal_row_def sealing_err_def from_utf8_def)

lemma demo_refresh_ok:
  "\<exists>s' d'. refresh_selected_session demo_seal demo_url (demo_refresh_env 20) demo_pkce demo_key demo_session demo_oauth_db
     = (Inr s', d')"
  by (simp add: refresh_selected_session_def exchange_def selected_parameters_def demo_pkce_def demo_url_def
      demo_refresh_env_def demo_session_def update_tokens_def sealing_err_def Let_def demo_oauth_db_def empty_db_def
      update_where_def demo_oauth_row_def oauth_key_def oauth_get_def unseal_row_def from_utf8_def str_simps)


abbreviation oauth_find :: "string \<times> string \<Rightarrow> db \<Rightarrow> oauth_row option" where
  "oauth_find k d \<equiv> find (\<lambda>r. oauth_key r = k) (oauth_sessions d)"

lemma refresh_selected_session_db:
  assumes "refresh_selected_session L parse_url E sel key s d = (r, d')"
  obtains "d' = d"
  | u at ex rt where "update_tokens L (re_upd_at E) (re_nonce E) (re_nonce2 E) key (ss_name s)
      (ss_session_label s) at ex rt d = (u, d')"
proof (cases "exchange parse_url E sel s")
  case (Inl e)
  with assms that(1) show thesis by (simp add: refresh_selected_session_def)
next
  case (Inr t)
  let ?ex = "i64_add (re_now E) (case tr_expires_in t of Some l \<Rightarrow> l | None \<Rightarrow> 3600)"
  obtain u d1 where u: "update_tokens L (re_upd_at E) (re_nonce E) (re_nonce2 E) key (ss_name s)
      (ss_session_label s) (tr_access_token t) ?ex (tr_refresh_token t) d = (u, d1)"
    by (meson surj_pair)
  with assms Inr have "d1 = d'"
    by (cases u) (simp_all add: refresh_selected_session_def Let_def split: sum.splits option.splits)
  with u that(2) show thesis by blast
qed

lemma refresh_selected_session_keeps:
  assumes "refresh_selected_session L parse_url E sel key s d = (r, d')"
  shows "db_down d' = db_down d"
    and "k \<noteq> (ss_name s, ss_session_label s) \<Longrightarrow> oauth_find k d' = oauth_find k d"
  using assms
  by (cases rule: refresh_selected_session_db; cases k; simp add: update_tokens_down update_tokens_other)+

lemma mark_degraded_find:
  "oauth_find k (snd (mark_degraded now name label d)) =
    (if k = (name, label) \<and> \<not> db_down d
     then map_option (\<lambda>r. r\<lparr>os_degraded := True, os_updated_at := now\<rparr>) (oauth_find k d) else oauth_find k d)"
  by (auto simp: mark_degraded_def find_key_update)

lemma mark_degraded_down [simp]: "db_down (snd (mark_degraded now name label d)) = db_down d"
  by (simp add: mark_degraded_def)

lemma oauth_get_SomeD:
  assumes "oauth_get L key name label d = Inr (Some s)"
  obtains row where "oauth_find (name, label) d = Some row" and "ss_degraded s = os_degraded row"
    and "ss_name s = name" and "ss_session_label s = label" and "\<not> db_down d"
proof -
  from assms obtain row where row: "oauth_find (name, label) d = Some row" and "\<not> db_down d"
    and u: "unseal_row L key row = Inr s"
    by (auto simp: oauth_get_def split: if_splits option.splits)
  moreover have "os_name row = name \<and> os_session_label row = label"
    using find_SomeD [OF row] by (simp add: oauth_key_def)
  ultimately show thesis using that unseal_row_InrD [OF u] by blast
qed

lemma tick_item_degraded:
  assumes "oauth_find k d = Some row" and "os_degraded row"
  shows "oauth_find k (fst (tick_item L parse_url key env th item (d, em))) = Some row"
proof -
  obtain name label where item: "item = (name, label)" by fastforce
  show ?thesis
  proof (cases "\<exists>sel s. lookup_active (ti_catalog (env item)) name \<noteq> None
      \<and> selected_source parse_url name label d = Inr (Some sel) \<and> oauth_get L key name label d = Inr (Some s)
      \<and> \<not> ss_degraded s \<and> \<not> (case ss_access_token_expires_at s of Some e \<Rightarrow> th < e | None \<Rightarrow> False)")
    case False
    then have "tick_item L parse_url key env th item (d, em) = (d, em)"
      by (auto simp: tick_item_def item split: sum.splits option.splits)
    with assms show ?thesis by simp
  next
    case True
    then obtain sel s where c: "lookup_active (ti_catalog (env item)) name \<noteq> None"
      "selected_source parse_url name label d = Inr (Some sel)"
      and g: "oauth_get L key name label d = Inr (Some s)" and nd: "\<not> ss_degraded s"
      "\<not> (case ss_access_token_expires_at s of Some e \<Rightarrow> th < e | None \<Rightarrow> False)" by blast
    obtain r d' where r: "refresh_selected_session L parse_url (ti_refresh (env item)) sel key s d = (r, d')"
      by fastforce
    from oauth_get_SomeD [OF g] nd assms have k: "k \<noteq> (name, label)" "ss_name s = name" "ss_session_label s = label"
      by force+
    then have "oauth_find k d' = Some row"
      using refresh_selected_session_keeps(2) [OF r] assms by simp
    moreover have "fst (tick_item L parse_url key env th item (d, em)) = d'
        \<or> fst (tick_item L parse_url key env th item (d, em)) = snd (mark_degraded (ti_now_degraded (env item)) name label d')"
      using c g nd r by (cases r) (auto simp: tick_item_def item)
    ultimately show ?thesis using k by (auto simp: mark_degraded_find)
  qed
qed

lemma tick_item_degraded_state:
  "oauth_find k (fst st) = Some row \<Longrightarrow> os_degraded row \<Longrightarrow>
    oauth_find k (fst (tick_item L parse_url key env th item st)) = Some row"
  using tick_item_degraded by (cases st) simp

lemma refresh_tick_degraded:
  assumes "oauth_find k (fst st) = Some row" and "os_degraded row"
  shows "oauth_find k (fst (refresh_tick L parse_url key env now st)) = Some row"
proof -
  have "oauth_find k (fst st) = Some row \<Longrightarrow> oauth_find k (fst (fold (tick_item L parse_url key env th) items st)) = Some row"
    for th items st
  proof (induction items arbitrary: st)
    case (Cons i items)
    from Cons.IH [OF tick_item_degraded_state [OF Cons.prems assms(2)]] show ?case by simp
  qed simp
  with assms show ?thesis
    by (auto simp: refresh_tick_def Let_def split: sum.splits)
qed

definition refresh_ticks ::
    "seal_lib \<Rightarrow> (string \<Rightarrow> url_view option) \<Rightarrow> sealing_key \<Rightarrow> ((string \<times> string \<Rightarrow> tick_env) \<times> int) list
       \<Rightarrow> db \<times> emitter option \<Rightarrow> db \<times> emitter option" where
  "refresh_ticks L parse_url key = fold (\<lambda>(env, now). refresh_tick L parse_url key env now)"

lemma refresh_ticks_degraded:
  "oauth_find k (fst st) = Some row \<Longrightarrow> os_degraded row \<Longrightarrow>
    oauth_find k (fst (refresh_ticks L parse_url key ticks st)) = Some row"
proof (induction ticks arbitrary: st)
  case Nil
  then show ?case by (simp add: refresh_ticks_def)
next
  case (Cons t ticks)
  obtain env now where t: "t = (env, now)" by fastforce
  from Cons.IH [OF refresh_tick_degraded [OF Cons.prems]] Cons.prems(2) show ?case
    by (simp add: refresh_ticks_def t)
qed


definition demo_bound_db :: db where
  "demo_bound_db = demo_oauth_db\<lparr>overrides := [\<lparr>ov_agent_id = 1, ov_registration = ''codex'',
     ov_auth_spec = JVal demo_pkce, ov_created_at = 1, ov_updated_at = 1\<rparr>]\<rparr>"

definition demo_tick_env :: "string \<times> string \<Rightarrow> tick_env" where
  "demo_tick_env k = \<lparr>ti_catalog = [(''codex'', demo_reg\<lparr>reg_name := ''codex'', reg_disabled := False\<rparr>)],
     ti_refresh = (demo_refresh_env 20)\<lparr>re_send := (\<lambda>url form. TokenReply 400 None)\<rparr>, ti_now_degraded = 21\<rparr>"

lemma demo_selected: "selected_source demo_url ''codex'' ''default'' demo_bound_db = Inr (Some demo_pkce)"
  by (simp add: selected_source_def creds_list_all_def demo_bound_db_def demo_oauth_db_def empty_db_def
      row_to_override_def consensus_def selected_parameters_def demo_pkce_def demo_url_def str_simps)

lemma demo_bound_get: "oauth_get demo_seal demo_key ''codex'' ''default'' demo_bound_db = Inr (Some demo_session)"
  using demo_oauth_get by (auto simp: oauth_get_def demo_bound_db_def split: if_splits)


text \<open>The background task uses a fixed margin of 300 seconds: a token that lives no longer than that is
  due again as soon as it has been refreshed and at every later tick, although the documented margin
  for it is between 60 and 75 seconds.\<close>

theorem short_tokens_always_due:
  assumes "refresh_selected_session L parse_url E sel key s d = (Inr s', d')"
    and "ss_access_token_expires_at s' = Some (re_now E + lifetime)" and "lifetime \<le> 300"
    and "\<not> ss_degraded s'" and "re_now E \<le> now"
  shows "(\<exists>items. list_pending_refresh (now + DEFAULT_REFRESH_SAFETY_MARGIN_SECS) d' = Inr items
      \<and> (ss_name s, ss_session_label s) \<in> set items)
    \<and> 60 \<le> refresh_safety_margin_secs lifetime \<and> refresh_safety_margin_secs lifetime \<le> 75"
proof -
  from assms(1) have "oauth_get L key (ss_name s) (ss_session_label s) d' = Inr (Some s')"
    by (auto simp: refresh_selected_session_def Let_def split: sum.splits prod.splits option.splits)
  then obtain row where "oauth_find (ss_name s, ss_session_label s) d' = Some row" and u: "unseal_row L key row = Inr s'"
    and up: "\<not> db_down d'"
    by (auto simp: oauth_get_def split: if_splits option.splits)
  then have row: "row \<in> set (oauth_sessions d')" "oauth_key row = (ss_name s, ss_session_label s)"
    by (auto dest: find_SomeD)
  have "os_expires_at row = Some (re_now E + lifetime)" "\<not> os_degraded row"
    using unseal_row_InrD [OF u] assms(2,4) by auto
  moreover have "re_now E + lifetime \<le> now + 300" using assms(3,5) by simp
  ultimately have "(ss_name s, ss_session_label s) \<in> oauth_key ` set (filter (\<lambda>r. \<not> os_degraded r
      \<and> (case os_expires_at r of Some e \<Rightarrow> e \<le> now + 300 | None \<Rightarrow> False)) (oauth_sessions d'))"
    using row by (intro image_eqI [of _ _ row]) auto
  moreover have "trunc_div lifetime 4 \<le> 75"
    using assms(3) by (auto simp: trunc_div_def)
  ultimately show ?thesis
    using up by (auto simp: list_pending_refresh_def DEFAULT_REFRESH_SAFETY_MARGIN_SECS_def
        refresh_safety_margin_secs_def MIN_REFRESH_SAFETY_MARGIN_SECS_def Let_def)
qed

lemma i64_add_small: "0 \<le> a + b \<Longrightarrow> a + b < 2 ^ 63 \<Longrightarrow> i64_add a b = a + b"
  unfolding i64_add_def signed_of_int by (simp add: signed_take_bit_int_eq_self_iff)

theorem short_tokens_always_due_witness:
  "\<exists>s' d'. refresh_selected_session demo_seal demo_url (demo_refresh_env 20) demo_pkce demo_key demo_session demo_oauth_db
     = (Inr s', d')
   \<and> (\<exists>items. list_pending_refresh (50 + DEFAULT_REFRESH_SAFETY_MARGIN_SECS) d' = Inr items
      \<and> (''codex'', ''default'') \<in> set items)"
proof -
  obtain s' d' where r: "refresh_selected_session demo_seal demo_url (demo_refresh_env 20) demo_pkce demo_key demo_session demo_oauth_db
     = (Inr s', d')" using demo_refresh_ok by blast
  have "s' = with_tokens demo_seal 20 ''at'' (i64_add 20 120) None demo_session"
    using r by (simp add: refresh_selected_session_def exchange_def selected_parameters_def demo_pkce_def demo_url_def
      demo_refresh_env_def demo_session_def update_tokens_def sealing_err_def Let_def demo_oauth_db_def empty_db_def
      update_where_def demo_oauth_row_def oauth_key_def oauth_get_def unseal_row_def from_utf8_def str_simps with_tokens_def)
  then have "ss_access_token_expires_at s' = Some (re_now (demo_refresh_env 20) + 120)" "\<not> ss_degraded s'"
    by (simp_all add: with_tokens_def demo_refresh_env_def i64_add_small)
  then have "\<exists>items. list_pending_refresh (50 + DEFAULT_REFRESH_SAFETY_MARGIN_SECS) d' = Inr items
      \<and> (ss_name demo_session, ss_session_label demo_session) \<in> set items"
    using short_tokens_always_due [OF r, of 120 50] by (simp add: demo_refresh_env_def)
  with r show ?thesis by (auto simp: demo_session_def)
qed

section \<open>Locks\<close>

text \<open>The table hands out one lock per session and keeps it: after any sequence of requests the lock of a
  session is the one it got first, and two sessions of validly named registrations share one only if
  they are the same session.\<close>

definition locks_ok :: "refresh_lock_map \<Rightarrow> bool" where
  "locks_ok M \<longleftrightarrow> map snd (lm_locks M) = [0..<length (lm_locks M)] \<and> distinct (map fst (lm_locks M))"

lemma lock_get_ok:
  assumes "locks_ok M" and "lock_get name label M = (i, M')"
  shows "locks_ok M'" and "map_of (lm_locks M') (lock_key name label) = Some i"
    and "map_of (lm_locks M) k = Some j \<Longrightarrow> map_of (lm_locks M') k = Some j"
  using assms
  by (auto simp: lock_get_def locks_ok_def Let_def map_add_Some_iff map_of_eq_None_iff split: option.splits)

lemma lock_shared_iff:
  assumes "locks_ok M" and "map_of (lm_locks M) (lock_key a l) = Some i" and "map_of (lm_locks M) (lock_key b l') = Some i"
    and "validate_name a = Inr ()" and "validate_name b = Inr ()"
  shows "a = b \<and> l = l'"
proof -
  have "distinct (map snd (lm_locks M))" using assms(1) by (simp add: locks_ok_def)
  then have "lock_key a l = lock_key b l'"
    using map_of_SomeD [OF assms(2)] map_of_SomeD [OF assms(3)]
    by (metis (no_types, lifting) distinct_map inj_onD prod.inject snd_conv)
  moreover have "CHR 0x1F \<notin> set a" "CHR 0x1F \<notin> set b"
    using assms(4,5) by (auto simp: validate_name_iff is_ascii_lowercase_def is_ascii_digit_def)
  ultimately show ?thesis by (simp add: lock_key_inj)
qed

end
