(* ===== verification/Secrets.thy ===== *)
theory Secrets
  imports SecretStore Config
begin

text \<open>
  \<open>secret/\<close>: the reader of secret references, the environment and sealed-file backends, the
  resolver that dispatches between them, the credential maps built at start-up, and the cache of
  1Password references with its resynchronisation.  The process environment, the file system and the
  \<open>op\<close> command are parameters; the deserializers serde derives for the four tagged forms are a
  record of parameters.  A resolution returns an \<open>option\<close>: \<open>None\<close> is a legacy string whose
  expansion does not end.
\<close>

unbundle bit_operations_syntax

section \<open>Reading a secret reference\<close>

datatype secret_ref_error =
    ExpectedTag
  | BadKey
  | UnknownTag string
  | ExtraKey string
  | FormError string

record secret_forms =
  sf_env :: "yaml \<Rightarrow> string + (string \<times> string option)"
  sf_file :: "yaml \<Rightarrow> string + string"
  sf_vault :: "yaml \<Rightarrow> string + (string \<times> string \<times> string)"
  sf_aws :: "yaml \<Rightarrow> string + (string \<times> string option \<times> string option)"

definition form_err :: "string + 'a \<Rightarrow> secret_ref_error + 'a" where
  "form_err r = (case r of Inl e \<Rightarrow> Inl (FormError e) | Inr a \<Rightarrow> Inr a)"

definition read_tagged :: "secret_forms \<Rightarrow> string \<Rightarrow> yaml \<Rightarrow> secret_ref_error + secret_ref" where
  "read_tagged F key v =
    (if key = ''from_env'' then
       result_bind (form_err (sf_env F v)) (\<lambda>(var, prefix). Inr (FromEnv var prefix))
     else if key = ''from_file_sealed'' then
       result_bind (form_err (sf_file F v)) (\<lambda>path. Inr (FromFileSealed path))
     else if key = ''from_vault'' then
       result_bind (form_err (sf_vault F v)) (\<lambda>(mount, path, field). Inr (FromVault mount path field))
     else if key = ''from_aws_secrets_manager'' then
       result_bind (form_err (sf_aws F v))
         (\<lambda>(secret_id, stage, field). Inr (FromAwsSecretsManager secret_id stage field))
     else Inl (UnknownTag key))"

fun next_key :: "ymapping \<Rightarrow> secret_ref_error + (string \<times> yaml \<times> ymapping) option" where
  "next_key [] = Inr None"
| "next_key ((YStr k, v) # m) = Inr (Some (k, v, m))"
| "next_key _ = Inl BadKey"

definition visit_map :: "secret_forms \<Rightarrow> ymapping \<Rightarrow> secret_ref_error + secret_ref" where
  "visit_map F m =
    result_bind (next_key m) (\<lambda>first.
    case first of
      None \<Rightarrow> Inl ExpectedTag
    | Some (key, v, rest) \<Rightarrow>
        result_bind (read_tagged F key v) (\<lambda>sr.
        result_bind (next_key rest) (\<lambda>second.
        case second of
          None \<Rightarrow> Inr sr
        | Some (extra, _) \<Rightarrow> Inl (ExtraKey extra))))"

definition visit_str :: "string \<Rightarrow> secret_ref_error + secret_ref" where
  "visit_str v = Inr (LegacyString v)"

section \<open>Backends\<close>

datatype backend_error =
    Missing string
  | NotImplemented string
  | Io
  | TooPermissive string "32 word"
  | NotUtf8 string

partial_function (option) expand_legacy :: "(string \<Rightarrow> string option) \<Rightarrow> string \<Rightarrow> string option" where
  "expand_legacy env result =
    (case split_once_str ''${'' result of
       Some (before, rest) \<Rightarrow>
         (case split_once (CHR ''}'') rest of
            Some (var_name, after) \<Rightarrow>
              expand_legacy env
                (before @ (case env var_name of Some value \<Rightarrow> value | None \<Rightarrow> []) @ after)
          | None \<Rightarrow> Some result)
     | None \<Rightarrow> Some result)"

definition env_value :: "(string \<Rightarrow> string option) \<Rightarrow> string \<Rightarrow> string option \<Rightarrow> backend_error + string" where
  "env_value env var prefix =
    (case env var of
       None \<Rightarrow> Inl (Missing var)
     | Some value \<Rightarrow> Inr (case prefix of Some p \<Rightarrow> p @ value | None \<Rightarrow> value))"

fun env_resolve_sync :: "(string \<Rightarrow> string option) \<Rightarrow> secret_ref \<Rightarrow> (backend_error + string) option" where
  "env_resolve_sync env (LegacyString raw) = map_option Inr (expand_legacy env raw)"
| "env_resolve_sync env (FromEnv var prefix) = Some (env_value env var prefix)"
| "env_resolve_sync env _ =
    Some (Inl (NotImplemented ''EnvBackend::resolve_sync only handles LegacyString and FromEnv''))"

fun env_resolve :: "(string \<Rightarrow> string option) \<Rightarrow> secret_ref \<Rightarrow> (backend_error + string) option" where
  "env_resolve env (LegacyString raw) = map_option Inr (expand_legacy env raw)"
| "env_resolve env (FromEnv var prefix) = Some (env_value env var prefix)"
| "env_resolve env (Inline _) = Some (Inl (NotImplemented ''EnvBackend received Inline (resolver bug)''))"
| "env_resolve env (FromFileSealed _) =
    Some (Inl (NotImplemented ''from_file_sealed (use FileSealedBackend)''))"
| "env_resolve env (FromVault _ _ _) = Some (Inl (NotImplemented ''from_vault (stub only)''))"
| "env_resolve env (FromAwsSecretsManager _ _ _) =
    Some (Inl (NotImplemented ''from_aws_secrets_manager (stub only)''))"

text \<open>The file system as the two calls see it: the mode and the bytes of a path.\<close>

record file_sys =
  fl_mode :: "string \<Rightarrow> 32 word option"
  fl_read :: "string \<Rightarrow> string option"

record file_sealed_backend =
  fb_cache :: "string \<rightharpoonup> string"
  fb_enforce_permissions :: bool

definition file_sealed_new :: file_sealed_backend where
  "file_sealed_new = \<lparr>fb_cache = Map.empty, fb_enforce_permissions = True\<rparr>"

definition check_permissions :: "file_sys \<Rightarrow> string \<Rightarrow> backend_error + unit" where
  "check_permissions S path =
    (case fl_mode S path of
       None \<Rightarrow> Inl Io
     | Some m \<Rightarrow>
         let mode = m AND 0x1FF in
         if mode AND 0x3F \<noteq> 0 then Inl (TooPermissive path mode) else Inr ())"

definition read_path :: "file_sys \<Rightarrow> file_sealed_backend \<Rightarrow> string \<Rightarrow> backend_error + string" where
  "read_path S b path =
    result_bind (if fb_enforce_permissions b then check_permissions S path else Inr ()) (\<lambda>_.
    result_bind (ok_or (fl_read S path) Io) (\<lambda>bytes.
    let trimmed = (if bytes \<noteq> [] \<and> last bytes = CHR 10 then butlast bytes else bytes) in
    if utf8_valid trimmed then Inr trimmed else Inl (NotUtf8 path)))"

fun file_sealed_resolve ::
    "file_sys \<Rightarrow> secret_ref \<Rightarrow> file_sealed_backend \<Rightarrow> (backend_error + string) \<times> file_sealed_backend" where
  "file_sealed_resolve S (FromFileSealed path) b =
    (case fb_cache b path of
       Some cached \<Rightarrow> (Inr cached, b)
     | None \<Rightarrow>
         (case read_path S b path of
            Inl e \<Rightarrow> (Inl e, b)
          | Inr value \<Rightarrow> (Inr value, b\<lparr>fb_cache := (fb_cache b)(path \<mapsto> value)\<rparr>)))"
| "file_sealed_resolve S (LegacyString _) b =
    (Inl (NotImplemented ''FileSealedBackend received env variant (resolver bug)''), b)"
| "file_sealed_resolve S (FromEnv _ _) b =
    (Inl (NotImplemented ''FileSealedBackend received env variant (resolver bug)''), b)"
| "file_sealed_resolve S (Inline _) b =
    (Inl (NotImplemented ''FileSealedBackend received Inline (resolver bug)''), b)"
| "file_sealed_resolve S (FromVault _ _ _) b = (Inl (NotImplemented ''from_vault (stub only)''), b)"
| "file_sealed_resolve S (FromAwsSecretsManager _ _ _) b =
    (Inl (NotImplemented ''from_aws_secrets_manager (stub only)''), b)"

definition vault_resolve :: "secret_ref \<Rightarrow> backend_error + string" where
  "vault_resolve sr = Inl (NotImplemented ''VaultBackend is a v2 stub; live impl tracked post-v2'')"

definition aws_resolve :: "secret_ref \<Rightarrow> backend_error + string" where
  "aws_resolve sr =
    Inl (NotImplemented ''AwsSecretsManagerBackend is a v2 stub; live impl tracked post-v2'')"

section \<open>The resolver\<close>

definition em_dash :: string where
  "em_dash = [CHR 0xE2, CHR 0x80, CHR 0x94]"

type_synonym secret_resolver = "file_sealed_backend option"

definition resolver_env_only :: secret_resolver where
  "resolver_env_only = None"

definition resolver_with_file_sealed :: "file_sealed_backend \<Rightarrow> secret_resolver" where
  "resolver_with_file_sealed b = Some b"

fun secret_resolve ::
    "(string \<Rightarrow> string option) \<Rightarrow> file_sys \<Rightarrow> secret_ref \<Rightarrow> secret_resolver
       \<Rightarrow> ((backend_error + string) \<times> secret_resolver) option" where
  "secret_resolve env S (Inline s) R = Some (Inr s, R)"
| "secret_resolve env S (LegacyString raw) R = map_option (\<lambda>r. (r, R)) (env_resolve env (LegacyString raw))"
| "secret_resolve env S (FromEnv var prefix) R = map_option (\<lambda>r. (r, R)) (env_resolve env (FromEnv var prefix))"
| "secret_resolve env S (FromFileSealed path) R =
    (case R of
       Some b \<Rightarrow> (let (r, b') = file_sealed_resolve S (FromFileSealed path) b in Some (r, Some b'))
     | None \<Rightarrow> Some (Inl (NotImplemented ''from_file_sealed (no FileSealedBackend configured)''), R))"
| "secret_resolve env S (FromVault _ _ _) R = Some (Inl (NotImplemented (''from_vault (M6+ '' @ em_dash @ '' stub only)'')), R)"
| "secret_resolve env S (FromAwsSecretsManager _ _ _) R =
    Some (Inl (NotImplemented (''from_aws_secrets_manager (M6+ '' @ em_dash @ '' stub only)'')), R)"

section \<open>Credential maps\<close>

type_synonym resolved_creds = "string \<rightharpoonup> string"

fun resolve_tools ::
    "(string \<Rightarrow> string option) \<Rightarrow> file_sys \<Rightarrow> tool_config list \<Rightarrow> secret_resolver \<Rightarrow> resolved_creds
       \<Rightarrow> (resolved_creds \<times> secret_resolver) option" where
  "resolve_tools env S [] R out = Some (out, R)"
| "resolve_tools env S (t # ts) R out =
    (case tc_auth t of
       None \<Rightarrow> resolve_tools env S ts R out
     | Some auth \<Rightarrow>
         (case secret_resolve env S (ta_value auth) R of
            None \<Rightarrow> None
          | Some (Inr value, R') \<Rightarrow>
              resolve_tools env S ts R' (if value \<noteq> [] then out(tc_name t \<mapsto> value) else out)
          | Some (Inl e, R') \<Rightarrow> resolve_tools env S ts R' out))"

definition resolve_tool_creds ::
    "(string \<Rightarrow> string option) \<Rightarrow> file_sys \<Rightarrow> app_config \<Rightarrow> secret_resolver
       \<Rightarrow> (resolved_creds \<times> secret_resolver) option" where
  "resolve_tool_creds env S cfg R = resolve_tools env S (cf_tools cfg) R Map.empty"

fun credential_env_var :: "auth_spec \<Rightarrow> string option" where
  "credential_env_var (Header _ env_var) = Some env_var"
| "credential_env_var (Bearer env_var) = Some env_var"
| "credential_env_var _ = None"

definition resolve_registration_creds_sync_env_only ::
    "(string \<Rightarrow> string option) \<Rightarrow> catalog \<Rightarrow> resolved_creds" where
  "resolve_registration_creds_sync_env_only env c =
    fold (\<lambda>k. fold (\<lambda>r out.
            case credential_env_var (reg_auth r) of
              None \<Rightarrow> out
            | Some env_var \<Rightarrow>
                (case env env_var of
                   None \<Rightarrow> out
                 | Some value \<Rightarrow> if value = [] then out else out(reg_name r \<mapsto> value)))
          (iter_enabled_by_kind k c))
      [Tool, Model, Infra] Map.empty"

fun resolve_tools_sync ::
    "(string \<Rightarrow> string option) \<Rightarrow> tool_config list \<Rightarrow> resolved_creds \<Rightarrow> resolved_creds option" where
  "resolve_tools_sync env [] out = Some out"
| "resolve_tools_sync env (t # ts) out =
    (case tc_auth t of
       None \<Rightarrow> resolve_tools_sync env ts out
     | Some auth \<Rightarrow>
         (case (case ta_value auth of
                  Inline s \<Rightarrow> Some (Some s)
                | LegacyString raw \<Rightarrow> map_option (case_sum (\<lambda>_. None) Some) (env_resolve_sync env (LegacyString raw))
                | FromEnv var prefix \<Rightarrow> map_option (case_sum (\<lambda>_. None) Some) (env_resolve_sync env (FromEnv var prefix))
                | _ \<Rightarrow> Some None) of
            None \<Rightarrow> None
          | Some (Some value) \<Rightarrow>
              resolve_tools_sync env ts (if value \<noteq> [] then out(tc_name t \<mapsto> value) else out)
          | Some None \<Rightarrow> resolve_tools_sync env ts out))"

definition resolve_tool_creds_sync_env_only ::
    "(string \<Rightarrow> string option) \<Rightarrow> app_config \<Rightarrow> resolved_creds option" where
  "resolve_tool_creds_sync_env_only env cfg = resolve_tools_sync env (cf_tools cfg) Map.empty"

section \<open>1Password references\<close>

text \<open>The resolver's state: the published cache, the number of \<open>op\<close> invocations, and the
  degradations reported on the operational log.\<close>

record op_resolver =
  op_cache :: "(string \<times> string) list"
  op_invocations :: u64
  op_degraded_log :: "string list"

definition op_resolver_new :: op_resolver where
  "op_resolver_new = \<lparr>op_cache = [], op_invocations = 0, op_degraded_log = []\<rparr>"

definition resolve_one :: "(string \<Rightarrow> string + string) \<Rightarrow> string \<Rightarrow> op_resolver \<Rightarrow> string option \<times> op_resolver" where
  "resolve_one read reference r =
    (let r' = r\<lparr>op_invocations := op_invocations r + 1\<rparr> in
     case read reference of
       Inr value \<Rightarrow>
         if value \<noteq> [] then (Some value, r')
         else (None, r'\<lparr>op_degraded_log := op_degraded_log r' @ [reference]\<rparr>)
     | Inl _ \<Rightarrow> (None, r'\<lparr>op_degraded_log := op_degraded_log r' @ [reference]\<rparr>))"

fun rebuild_loop ::
    "(string \<Rightarrow> string + string) \<Rightarrow> bool \<Rightarrow> string list \<Rightarrow> string list \<Rightarrow> (string \<times> string) list \<Rightarrow> op_resolver
       \<Rightarrow> (string \<times> string) list \<times> op_resolver" where
  "rebuild_loop read reuse [] seen acc r = (acc, r)"
| "rebuild_loop read reuse (x # xs) seen acc r =
    (if x \<in> set seen then rebuild_loop read reuse xs seen acc r
     else case (if reuse then map_of (op_cache r) x else None) of
       Some value \<Rightarrow> rebuild_loop read reuse xs (x # seen) (bt_insert x value acc) r
     | None \<Rightarrow>
         (case resolve_one read x r of
            (Some value, r') \<Rightarrow> rebuild_loop read reuse xs (x # seen) (bt_insert x value acc) r'
          | (None, r') \<Rightarrow> rebuild_loop read reuse xs (x # seen) acc r'))"

definition rebuild :: "(string \<Rightarrow> string + string) \<Rightarrow> string list \<Rightarrow> bool \<Rightarrow> op_resolver \<Rightarrow> op_resolver" where
  "rebuild read references reuse_cached r =
    (let (acc, r') = rebuild_loop read reuse_cached references [] [] r in r'\<lparr>op_cache := acc\<rparr>)"

definition op_refresh :: "(string \<Rightarrow> string + string) \<Rightarrow> string list \<Rightarrow> op_resolver \<Rightarrow> op_resolver" where
  "op_refresh read references r = rebuild read references False r"

definition op_sync :: "(string \<Rightarrow> string + string) \<Rightarrow> string list \<Rightarrow> op_resolver \<Rightarrow> op_resolver" where
  "op_sync read references r = rebuild read references True r"

definition op_get :: "string \<Rightarrow> op_resolver \<Rightarrow> string option" where
  "op_get reference r = map_of (op_cache r) reference"

definition cached_count :: "op_resolver \<Rightarrow> nat" where
  "cached_count r = length (op_cache r)"

definition catalog_op_references :: "catalog \<Rightarrow> string list" where
  "catalog_op_references c =
    fold (\<lambda>k. fold (\<lambda>r out.
            case op_reference (reg_auth r) of
              Some reference \<Rightarrow> if reference \<in> set out then out else out @ [reference]
            | None \<Rightarrow> out)
          (iter_enabled_by_kind k c))
      [Tool, Model, Infra] []"

text \<open>The whole cycle runs under the resync lock; \<open>d\<close> is the database of the override table when
  one is attached, \<open>task_ok\<close> whether the blocking task ran to its end.\<close>

definition resync_op_references ::
    "(string \<Rightarrow> string + string) \<Rightarrow> bool \<Rightarrow> catalog \<Rightarrow> db option \<Rightarrow> op_resolver \<Rightarrow> op_resolver" where
  "resync_op_references read task_ok c d r =
    (let refs = catalog_op_references c in
     case d of
       None \<Rightarrow> if task_ok then op_sync read refs r else r
     | Some d \<Rightarrow>
         (case creds_list_all d of
            Inl _ \<Rightarrow> r
          | Inr rows \<Rightarrow>
              if task_ok
              then op_sync read (refs @ List.map_filter (\<lambda>ov. op_reference (co_auth_spec ov)) rows) r
              else r))"

section \<open>Lemmas\<close>

lemma visit_map_single_key:
  "visit_map F m = Inr sr \<Longrightarrow> \<exists>k v. m = [(YStr k, v)] \<and> read_tagged F k v = Inr sr"
  by (cases m rule: next_key.cases; cases "tl m" rule: next_key.cases)
    (auto simp: visit_map_def split: option.splits)

lemma expand_legacy_eq_expand_env_vars: "expand_legacy env s = expand_env_vars env s"
proof -
  have 1: "expand_env_vars env s = Some y" if "expand_legacy env s = Some y" for s y
  proof (rule expand_legacy.raw_induct [where P = "\<lambda>env s y. expand_env_vars env s = Some y", OF _ that])
    fix f env s y
    assume "\<And>env s y. f env s = Some y \<Longrightarrow> expand_env_vars env s = Some y"
      and "(case split_once_str ''${'' s of
       Some (before, rest) \<Rightarrow>
         (case split_once (CHR ''}'') rest of
            Some (var_name, after) \<Rightarrow>
              f env (before @ (case env var_name of Some value \<Rightarrow> value | None \<Rightarrow> []) @ after)
          | None \<Rightarrow> Some s)
     | None \<Rightarrow> Some s) = Some y"
    then show "expand_env_vars env s = Some y"
      by (subst expand_env_vars.simps) (auto simp: expand_step_def split: option.splits prod.splits)
  qed
  have 2: "expand_legacy env s = Some y" if "expand_env_vars env s = Some y" for s y
  proof (rule expand_env_vars.raw_induct [where P = "\<lambda>env s y. expand_legacy env s = Some y", OF _ that])
    fix f env s y
    assume "\<And>env s y. f env s = Some y \<Longrightarrow> expand_legacy env s = Some y"
      and "(case expand_step env s of None \<Rightarrow> Some s | Some s' \<Rightarrow> f env s') = Some y"
    then show "expand_legacy env s = Some y"
      by (subst expand_legacy.simps) (auto simp: expand_step_def split: option.splits prod.splits)
  qed
  show ?thesis
  proof (cases "expand_legacy env s")
    case None
    with 2 [of s] show ?thesis by (cases "expand_env_vars env s") simp_all
  next
    case (Some y)
    with 1 [OF Some] show ?thesis by simp
  qed
qed

lemma secret_resolve_returns:
  assumes "\<forall>v w. env v = Some w \<longrightarrow> CHR ''$'' \<notin> set w"
  shows "\<exists>r R'. secret_resolve env S sr R = Some (r, R')"
proof (cases sr)
  case (LegacyString raw)
  from expand_env_vars_returns [OF assms, of raw] show ?thesis
    by (auto simp: LegacyString expand_legacy_eq_expand_env_vars)
qed (auto simp: split_beta split: option.splits)

lemma resolve_tools_returns:
  assumes "\<forall>v w. env v = Some w \<longrightarrow> CHR ''$'' \<notin> set w"
  shows "\<exists>m R'. resolve_tools env S ts R out = Some (m, R')"
proof (induction ts arbitrary: R out)
  case (Cons t ts)
  show ?case
  proof (cases "tc_auth t")
    case (Some auth)
    obtain r R' where "secret_resolve env S (ta_value auth) R = Some (r, R')"
      using secret_resolve_returns [OF assms] by blast
    with Some Cons show ?thesis by (cases r) auto
  qed (use Cons in auto)
qed simp

lemma resolve_tools_nonempty:
  "resolve_tools env S ts R out = Some (m, R') \<Longrightarrow> \<forall>n v. out n = Some v \<longrightarrow> v \<noteq> []
    \<Longrightarrow> m n = Some v \<Longrightarrow> v \<noteq> [] \<and> (out n = Some v \<or> n \<in> tc_name ` set ts)"
proof (induction ts arbitrary: R out)
  case (Cons t ts)
  show ?case
  proof (cases "tc_auth t")
    case None
    with Cons.prems Cons.IH show ?thesis by fastforce
  next
    case (Some auth)
    with Cons.prems(1) obtain r R1 where 1: "secret_resolve env S (ta_value auth) R = Some (r, R1)"
      by (auto split: option.splits)
    define out1 where "out1 = (case r of Inr value \<Rightarrow> if value \<noteq> [] then out(tc_name t \<mapsto> value) else out | Inl _ \<Rightarrow> out)"
    have "resolve_tools env S ts R1 out1 = Some (m, R')"
      using Cons.prems(1) Some 1 by (cases r) (auto simp: out1_def)
    moreover have "\<forall>n v. out1 n = Some v \<longrightarrow> v \<noteq> []"
      using Cons.prems(2) by (auto simp: out1_def split: sum.splits)
    ultimately have "v \<noteq> [] \<and> (out1 n = Some v \<or> n \<in> tc_name ` set ts)"
      using Cons.IH Cons.prems(3) by blast
    then show ?thesis
      by (auto simp: out1_def split: sum.splits if_splits)
  qed
qed auto

text \<open>Start-up resolution of the configured tools always returns when no environment value contains a
  dollar sign, whatever the files contain; and a tool the daemon then treats as active either declares
  no credential or has a resolved, non-empty one.\<close>

theorem tool_creds_total:
  assumes "\<forall>v w. env v = Some w \<longrightarrow> CHR ''$'' \<notin> set w"
  shows "\<exists>m R'. resolve_tool_creds env S cfg R = Some (m, R')
    \<and> list_all (\<lambda>t. tc_auth t = None \<or> (\<exists>v. m (tc_name t) = Some v \<and> v \<noteq> [])) (active_tools_against cfg m)"
proof -
  obtain m R' where m: "resolve_tools env S (cf_tools cfg) R Map.empty = Some (m, R')"
    using resolve_tools_returns [OF assms] by blast
  have "list_all (\<lambda>t. tc_auth t = None \<or> (\<exists>v. m (tc_name t) = Some v \<and> v \<noteq> [])) (active_tools_against cfg m)"
    using resolve_tools_nonempty [OF m]
    by (auto simp: active_tools_against_def list_all_iff split: option.splits)
  with m show ?thesis by (auto simp: resolve_tool_creds_def)
qed

definition demo_tool :: tool_config where
  "demo_tool = \<lparr>tc_name = ''search'', tc_description = [], tc_upstream = ''https://search.test'',
     tc_egress = Direct, tc_auth = Some \<lparr>ta_header = ''x-key'', ta_value = LegacyString ''Bearer ${T}''\<rparr>,
     tc_timeouts = default_timeouts, tc_body_limit_bytes = default_body_limit, tc_response = None\<rparr>"

definition demo_config :: app_config where
  "demo_config = \<lparr>cf_listen = \<lparr>ln_host = ''127.0.0.1'', ln_port = 9200, ln_admin_socket = None,
       ln_admin_https = None, ln_auth_mode = ModeBearer, ln_mtls = None, ln_bootstrap_only = None\<rparr>,
     cf_inbound_auth = None, cf_egress_proxy = None, cf_upstream_ca_bundle = None, cf_logging = None,
     cf_drain_window_seconds = 30, cf_tools = [demo_tool], cf_operator_credentials_path = None,
     cf_database_path = None, cf_audit = None, cf_operational_log = None, cf_credential_store = None\<rparr>"

theorem tool_creds_total_witness:
  "\<exists>m R'. resolve_tool_creds (\<lambda>v. if v = ''T'' then Some ''s3'' else None)
        \<lparr>fl_mode = (\<lambda>p. None), fl_read = (\<lambda>p. None)\<rparr> demo_config resolver_env_only = Some (m, R')
    \<and> list_all (\<lambda>t. tc_auth t = None \<or> (\<exists>v. m (tc_name t) = Some v \<and> v \<noteq> [])) (active_tools_against demo_config m)"
  by (rule tool_creds_total) simp

text \<open>Sealed files: with permission checks on, a value comes from disk only when no group or world bit
  is set on the file; once resolved, the same value is returned whatever becomes of the file.\<close>

theorem sealed_file_guarded:
  assumes "fb_enforce_permissions b" and "fb_cache b path = None"
    and "file_sealed_resolve S (FromFileSealed path) b = (Inr v, b')"
  shows "(\<exists>m. fl_mode S path = Some m \<and> m AND 0x3F = 0)
    \<and> file_sealed_resolve S' (FromFileSealed path) b' = (Inr v, b')"
proof -
  from assms have r: "read_path S b path = Inr v" and b': "b' = b\<lparr>fb_cache := (fb_cache b)(path \<mapsto> v)\<rparr>"
    by (auto split: sum.splits)
  from r assms(1) obtain m where m: "fl_mode S path = Some m" and z: "(m AND 0x1FF) AND 0x3F = 0"
    by (auto simp: read_path_def check_permissions_def Let_def split: option.splits if_splits)
  have "(m AND 0x1FF) AND 0x3F = m AND (0x3F :: 32 word)"
    by (simp add: and.assoc)
  with m z b' show ?thesis by auto
qed

theorem sealed_file_guarded_witness:
  "(\<exists>m. fl_mode \<lparr>fl_mode = (\<lambda>p. Some 0x180), fl_read = (\<lambda>p. Some ''k'')\<rparr> ''/run/k'' = Some m \<and> m AND 0x3F = 0)
    \<and> file_sealed_resolve \<lparr>fl_mode = (\<lambda>p. None), fl_read = (\<lambda>p. None)\<rparr> (FromFileSealed ''/run/k'')
        (file_sealed_new\<lparr>fb_cache := [''/run/k'' \<mapsto> ''k'']\<rparr>)
      = (Inr ''k'', file_sealed_new\<lparr>fb_cache := [''/run/k'' \<mapsto> ''k'']\<rparr>)"
  by (rule sealed_file_guarded [of file_sealed_new])
    (simp_all add: file_sealed_new_def read_path_def check_permissions_def Let_def utf8_valid_ascii byte_in_def)

section \<open>The cache of 1Password references\<close>

definition op_fetch :: "(string \<Rightarrow> string + string) \<Rightarrow> string \<Rightarrow> string option" where
  "op_fetch read x = (case read x of Inr v \<Rightarrow> if v \<noteq> [] then Some v else None | Inl _ \<Rightarrow> None)"

lemma resolve_one_eq:
  "resolve_one read x r = (op_fetch read x,
     r\<lparr>op_invocations := op_invocations r + 1,
       op_degraded_log := op_degraded_log r @ (if op_fetch read x = None then [x] else [])\<rparr>)"
  by (simp add: resolve_one_def op_fetch_def Let_def split: sum.splits)

definition op_kept :: "bool \<Rightarrow> op_resolver \<Rightarrow> string \<Rightarrow> string option" where
  "op_kept reuse r x = (if reuse then map_of (op_cache r) x else None)"

definition op_needed :: "bool \<Rightarrow> op_resolver \<Rightarrow> string list \<Rightarrow> string list \<Rightarrow> string set" where
  "op_needed reuse r xs seen = {x \<in> set xs - set seen. op_kept reuse r x = None}"

lemma op_needed_Nil [simp]: "op_needed reuse r [] seen = {}"
  by (simp add: op_needed_def)

lemma op_needed_finite [simp]: "finite (op_needed reuse r xs seen)"
  by (simp add: op_needed_def)

lemma op_needed_Cons:
  "op_needed reuse r (x # xs) seen =
    (if x \<in> set seen then op_needed reuse r xs seen
     else if op_kept reuse r x = None then insert x (op_needed reuse r xs (x # seen))
     else op_needed reuse r xs (x # seen))"
  by (auto simp: op_needed_def)

lemma op_needed_fresh [simp]: "x \<notin> op_needed reuse r xs (x # seen)"
  by (simp add: op_needed_def)

definition op_noted :: "(string \<Rightarrow> string + string) \<Rightarrow> string \<Rightarrow> op_resolver \<Rightarrow> op_resolver" where
  "op_noted read x r = r\<lparr>op_invocations := op_invocations r + 1,
     op_degraded_log := op_degraded_log r @ (if op_fetch read x = None then [x] else [])\<rparr>"

lemma op_cache_noted [simp]: "op_cache (op_noted read x r) = op_cache r"
  by (simp add: op_noted_def)

lemma op_noted_simps [simp]:
  "op_kept reuse (op_noted read x r) = op_kept reuse r"
  "op_needed reuse (op_noted read x r) xs seen = op_needed reuse r xs seen"
  "op_invocations (op_noted read x r) = op_invocations r + 1"
  "set (op_degraded_log (op_noted read x r)) =
     (if op_fetch read x = None then insert x (set (op_degraded_log r)) else set (op_degraded_log r))"
proof -
  show k: "op_kept reuse (op_noted read x r) = op_kept reuse r" by (rule ext) (simp add: op_kept_def)
  show "op_needed reuse (op_noted read x r) xs seen = op_needed reuse r xs seen" by (simp add: op_needed_def k)
next
  show "op_invocations (op_noted read x r) = op_invocations r + 1" by (cases r) (simp only: op_noted_def op_resolver.simps)
next
  show "set (op_degraded_log (op_noted read x r)) =
     (if op_fetch read x = None then insert x (set (op_degraded_log r)) else set (op_degraded_log r))"
    by (cases "op_fetch read x") (simp_all add: op_noted_def)
qed

lemma rebuild_loop_Cons:
  "rebuild_loop read reuse (x # xs) seen acc r =
    (if x \<in> set seen then rebuild_loop read reuse xs seen acc r
     else case op_kept reuse r x of
       Some value \<Rightarrow> rebuild_loop read reuse xs (x # seen) (bt_insert x value acc) r
     | None \<Rightarrow> rebuild_loop read reuse xs (x # seen)
                 (case op_fetch read x of Some value \<Rightarrow> bt_insert x value acc | None \<Rightarrow> acc) (op_noted read x r))"
  unfolding rebuild_loop.simps op_kept_def resolve_one_eq op_noted_def
  by (cases "op_fetch read x"; cases "map_of (op_cache r) x") simp_all

declare rebuild_loop.simps(2) [simp del]

lemma rebuild_loop_counts:
  "rebuild_loop read reuse xs seen acc r = (acc', r') \<Longrightarrow>
    op_invocations r' = op_invocations r + of_nat (card (op_needed reuse r xs seen))
    \<and> set (op_degraded_log r') = set (op_degraded_log r)
        \<union> {x \<in> op_needed reuse r xs seen. op_fetch read x = None}"
proof (induction xs arbitrary: seen acc r)
  case (Cons x xs)
  consider "x \<in> set seen" | v where "x \<notin> set seen" "op_kept reuse r x = Some v"
    | "x \<notin> set seen" "op_kept reuse r x = None" by (cases "op_kept reuse r x") auto
  then show ?case
  proof cases
    case 1
    with Cons show ?thesis by (simp add: rebuild_loop_Cons op_needed_Cons)
  next
    case 2
    with Cons show ?thesis by (simp add: rebuild_loop_Cons op_needed_Cons)
  next
    case 3
    with Cons.prems have "rebuild_loop read reuse xs (x # seen)
        (case op_fetch read x of Some value \<Rightarrow> bt_insert x value acc | None \<Rightarrow> acc) (op_noted read x r) = (acc', r')"
      by (simp add: rebuild_loop_Cons)
    from Cons.IH [OF this] 3 show ?thesis by (auto simp: op_needed_Cons)
  qed
qed simp

lemma rebuild_loop_cache:
  "rebuild_loop read reuse xs seen acc r = (acc', r') \<Longrightarrow>
    map_of acc' k = (if k \<in> set xs \<and> k \<notin> set seen
       then (case op_kept reuse r k of Some v \<Rightarrow> Some v
             | None \<Rightarrow> (case op_fetch read k of Some v \<Rightarrow> Some v | None \<Rightarrow> map_of acc k))
       else map_of acc k)"
proof (induction xs arbitrary: seen acc r)
  case (Cons x xs)
  consider "x \<in> set seen" | v where "x \<notin> set seen" "op_kept reuse r x = Some v"
    | "x \<notin> set seen" "op_kept reuse r x = None" by (cases "op_kept reuse r x") auto
  then show ?case
  proof cases
    case 1
    with Cons.prems Cons.IH [of seen acc r] show ?thesis by (auto simp: rebuild_loop_Cons)
  next
    case 2
    with Cons.prems Cons.IH [of "x # seen" "bt_insert x v acc" r] show ?thesis
      by (cases "k = x") (simp_all add: rebuild_loop_Cons split: option.split)
  next
    case 3
    with Cons.prems have "rebuild_loop read reuse xs (x # seen)
        (case op_fetch read x of Some value \<Rightarrow> bt_insert x value acc | None \<Rightarrow> acc) (op_noted read x r) = (acc', r')"
      by (simp add: rebuild_loop_Cons)
    from Cons.IH [OF this] 3 show ?thesis
      by (cases "k = x"; cases "op_fetch read x") (simp_all split: option.split)
  qed
qed simp

lemma op_sync_get:
  "op_get x (op_sync read refs r) =
    (if x \<in> set refs then (case op_get x r of Some v \<Rightarrow> Some v | None \<Rightarrow> op_fetch read x) else None)"
  using rebuild_loop_cache [of read True refs "[]" "[]" r _ _ x]
  by (cases "rebuild_loop read True refs [] [] r")
    (simp add: op_sync_def rebuild_def op_get_def op_kept_def split: option.splits)

lemma op_sync_counts:
  "op_invocations (op_sync read refs r) = op_invocations r + of_nat (card {x \<in> set refs. op_get x r = None})"
  "set (op_degraded_log (op_sync read refs r)) =
     set (op_degraded_log r) \<union> {x \<in> set refs. op_get x r = None \<and> op_fetch read x = None}"
  using rebuild_loop_counts [of read True refs "[]" "[]" r]
  by (cases "rebuild_loop read True refs [] [] r";
      auto simp: op_sync_def rebuild_def op_get_def op_needed_def op_kept_def)+

lemma set_map_filter_option: "set (List.map_filter f xs) = {y. \<exists>x \<in> set xs. f x = Some y}"
  by (induction xs) (auto simp: map_filter_simps split: option.splits)

lemma set_op_fold:
  "set (fold (\<lambda>r out. case op_reference (reg_auth r) of
        Some reference \<Rightarrow> if reference \<in> set out then out else out @ [reference] | None \<Rightarrow> out) rs out)
   = set out \<union> {x. \<exists>r \<in> set rs. op_reference (reg_auth r) = Some x}"
  by (induction rs arbitrary: out) (auto split: option.splits)

lemma set_catalog_op_references:
  "set (catalog_op_references c) =
    {x. \<exists>r \<in> snd ` set c. \<not> reg_disabled r \<and> op_reference (reg_auth r) = Some x}"
proof -
  have "reg_kind r = Tool \<or> reg_kind r = Model \<or> reg_kind r = Infra" for r :: registration
    by (cases "reg_kind r") auto
  then show ?thesis
    by (auto simp: catalog_op_references_def set_op_fold iter_enabled_by_kind_def)
qed

text \<open>Resynchronising the 1Password cache: afterwards a reference resolves exactly when it is in use by
  an enabled registration or by some account binding and is either cached from before or readable now
  as a non-empty value; nothing else stays cached.  \<open>op\<close> runs once per reference in use that was not
  cached, and exactly the references that fail are reported.  When the bindings cannot be read the
  resolver is unchanged.\<close>

theorem op_resync_exact:
  assumes "creds_list_all d = Inr rows"
    and "used = {x. (\<exists>r \<in> snd ` set c. \<not> reg_disabled r \<and> op_reference (reg_auth r) = Some x)
                 \<or> (\<exists>ov \<in> set rows. op_reference (co_auth_spec ov) = Some x)}"
    and "r' = resync_op_references read True c (Some d) r"
  shows "(\<forall>x. op_get x r' = (if x \<in> used then (case op_get x r of Some v \<Rightarrow> Some v | None \<Rightarrow> op_fetch read x) else None))
    \<and> op_invocations r' = op_invocations r + of_nat (card {x \<in> used. op_get x r = None})
    \<and> set (op_degraded_log r') = set (op_degraded_log r) \<union> {x \<in> used. op_get x r = None \<and> op_fetch read x = None}
    \<and> resync_op_references read True c (Some (d\<lparr>db_down := True\<rparr>)) r = r"
proof -
  let ?refs = "catalog_op_references c @ List.map_filter (\<lambda>ov. op_reference (co_auth_spec ov)) rows"
  have u: "used = set ?refs"
    by (auto simp: assms(2) set_catalog_op_references set_map_filter_option)
  have r': "r' = op_sync read ?refs r"
    using assms(1) by (simp add: assms(3) resync_op_references_def Let_def)
  have "creds_list_all (d\<lparr>db_down := True\<rparr>) = Inl Sqlx" by (simp add: creds_list_all_def)
  then show ?thesis
    unfolding r' u using op_sync_counts [of read ?refs r]
    by (simp add: op_sync_get resync_op_references_def Let_def)
qed

theorem op_resync_exact_witness:
  "op_get ''op://v/i/f'' (resync_op_references (\<lambda>x. Inr ''s'') True
     [(''a'', demo_reg\<lparr>reg_auth := OpBearer ''op://v/i/f''\<rparr>)] (Some empty_db) op_resolver_new) = Some ''s''"
proof -
  have "creds_list_all empty_db = Inr []"
    by (simp add: creds_list_all_def empty_db_def)
  from op_resync_exact [OF this refl refl, of "\<lambda>x. Inr ''s''"
      "[(''a'', demo_reg\<lparr>reg_auth := OpBearer ''op://v/i/f''\<rparr>)]" op_resolver_new, THEN conjunct1, rule_format, of "''op://v/i/f''"]
  show ?thesis by (simp add: op_get_def op_resolver_new_def op_fetch_def demo_defs)
qed

end
