(* ===== verification/ResponseControls.thy ===== *)
theory ResponseControls
  imports Config SecretStore
begin

text \<open>
  \<open>response_controls.rs\<close>: the size cap, content-type allowlist and redaction of a tool's responses, and
  the stream adapter that truncates a body at the cap.  The \<open>regex\<close> crate is the parameter \<open>regex_lib\<close>
  (a compiled expression is named by its source text) and SHA-256 is one of its functions here.  A body
  stream is the list of the results its polls give, ended by the end of the list.
\<close>

section \<open>Compiled controls\<close>

record regex_lib =
  rx_new :: "string \<Rightarrow> bool"
  rx_find_iter :: "string \<Rightarrow> string \<Rightarrow> string list"
  rx_replace_all :: "string \<Rightarrow> string \<Rightarrow> string \<Rightarrow> string"
  rx_sha256 :: "string \<Rightarrow> 8 word list"

record redaction_record =
  rr_pattern_id :: string
  rr_matches :: nat
  rr_match_hash :: string

datatype apply_outcome =
    OutAllowed string "redaction_record list"
  | SizeExceeded nat u64
  | ContentTypeDisallowed string

record compiled_pattern =
  cp_id :: string
  cp_regex :: string
  cp_replacement :: string

record response_controls =
  rc_max_size_bytes :: "u64 option"
  rc_content_type_allowlist :: "string list option"
  rc_patterns :: "compiled_pattern list"

definition compile_pattern :: "regex_lib \<Rightarrow> redaction_pattern_config \<Rightarrow> unit + compiled_pattern" where
  "compile_pattern X p =
    (if \<not> rx_new X (rp_regex p) then Inl ()
     else Inr \<lparr>cp_id = rp_id p, cp_regex = rp_regex p,
       cp_replacement = (case rp_replacement p of Some r \<Rightarrow> r | None \<Rightarrow> ''[REDACTED:'' @ rp_id p @ '']'')\<rparr>)"

definition rc_compile :: "regex_lib \<Rightarrow> response_controls_config \<Rightarrow> unit + response_controls" where
  "rc_compile X cfg =
    result_bind (collect_results (map (compile_pattern X) (rcc_redaction_patterns cfg))) (\<lambda>patterns.
      Inr \<lparr>rc_max_size_bytes = rcc_max_size_bytes cfg,
           rc_content_type_allowlist = rcc_content_type_allowlist cfg, rc_patterns = patterns\<rparr>)"

section \<open>Buffered responses\<close>

definition hex_sha256 :: "8 word list \<Rightarrow> string" where
  "hex_sha256 bytes = concat (map hex_byte bytes)"

definition observed_type :: "string option \<Rightarrow> string" where
  "observed_type content_type =
    to_lower (str_trim (hd (split_by (\<lambda>c. c = CHR '';'') (case content_type of Some s \<Rightarrow> s | None \<Rightarrow> []))))"

definition streaming_content_type_allowed :: "response_controls \<Rightarrow> string option \<Rightarrow> bool" where
  "streaming_content_type_allowed rc content_type =
    (case rc_content_type_allowlist rc of
       None \<Rightarrow> True
     | Some allow \<Rightarrow> list_ex (\<lambda>a. eq_ignore_ascii_case a (observed_type content_type)) allow)"

definition redact_step ::
    "regex_lib \<Rightarrow> compiled_pattern \<Rightarrow> string \<times> redaction_record list \<Rightarrow> string \<times> redaction_record list" where
  "redact_step X pattern = (\<lambda>(working, records).
    let found = rx_find_iter X (cp_regex pattern) working in
    if length found = 0 then (working, records)
    else (rx_replace_all X (cp_regex pattern) (cp_replacement pattern) working,
          records @ [\<lparr>rr_pattern_id = cp_id pattern, rr_matches = length found,
                      rr_match_hash = hex_sha256 (rx_sha256 X (concat found))\<rparr>]))"

definition apply_non_streaming ::
    "regex_lib \<Rightarrow> response_controls \<Rightarrow> string option \<Rightarrow> string \<Rightarrow> apply_outcome" where
  "apply_non_streaming X rc content_type body =
    (if (case rc_max_size_bytes rc of Some cap \<Rightarrow> (of_nat (length body) :: u64) > cap | None \<Rightarrow> False)
     then SizeExceeded (length body) (the (rc_max_size_bytes rc))
     else if (case rc_content_type_allowlist rc of
         Some allow \<Rightarrow> \<not> list_ex (\<lambda>a. eq_ignore_ascii_case a (observed_type content_type)) allow | None \<Rightarrow> False)
     then ContentTypeDisallowed (case content_type of Some s \<Rightarrow> s | None \<Rightarrow> [])
     else if rc_patterns rc = [] then OutAllowed body []
     else if \<not> utf8_valid body then OutAllowed body []
     else (let (working, records) = fold (redact_step X) (rc_patterns rc) (body, []) in OutAllowed working records))"

definition streaming_size_cap :: "response_controls \<Rightarrow> u64 option" where
  "streaming_size_cap rc = rc_max_size_bytes rc"

definition has_redaction_patterns :: "response_controls \<Rightarrow> bool" where
  "has_redaction_patterns rc \<longleftrightarrow> rc_patterns rc \<noteq> []"

section \<open>Streamed responses\<close>

definition STREAM_TRUNCATION_MARKER :: string where
  "STREAM_TRUNCATION_MARKER =
    [CHR 10] @ ''{'' @ [CHR 34] @ ''_locksmith'' @ [CHR 34] @ '':'' @ [CHR 34] @ ''response_size_exceeded'' @ [CHR 34]
      @ ''}'' @ [CHR 10]"

datatype body_event = BodyPending | BodyErr string | BodyChunk string

datatype poll = PollPending | PollNone | PollErr string | PollChunk string

text \<open>\<open>cs_calls\<close> records the calls of the callback \<open>on_truncate\<close>, \<open>cs_armed\<close> is that it has not been
  taken yet.\<close>

record capped_stream =
  cs_inner :: "body_event list"
  cs_cap :: "u64 option"
  cs_seen :: u64
  cs_truncated :: bool
  cs_pending_marker :: "string option"
  cs_armed :: bool
  cs_calls :: "u64 list"

definition capped_stream_new :: "body_event list \<Rightarrow> u64 option \<Rightarrow> capped_stream" where
  "capped_stream_new inner cap = \<lparr>cs_inner = inner, cs_cap = cap, cs_seen = 0, cs_truncated = False,
     cs_pending_marker = None, cs_armed = True, cs_calls = []\<rparr>"

definition fire_truncation :: "capped_stream \<Rightarrow> capped_stream" where
  "fire_truncation s = s\<lparr>cs_truncated := True,
     cs_calls := (if cs_armed s then cs_calls s @ [cs_seen s] else cs_calls s), cs_armed := False,
     cs_pending_marker := Some STREAM_TRUNCATION_MARKER\<rparr>"

definition poll_inner :: "capped_stream \<Rightarrow> poll \<times> capped_stream" where
  "poll_inner s =
    (case cs_inner s of
       [] \<Rightarrow> (PollNone, s)
     | BodyPending # rest \<Rightarrow> (PollPending, s\<lparr>cs_inner := rest\<rparr>)
     | BodyErr e # rest \<Rightarrow> (PollErr e, s\<lparr>cs_inner := rest\<rparr>)
     | BodyChunk c # rest \<Rightarrow> (PollChunk c, s\<lparr>cs_inner := rest\<rparr>))"

definition poll_next :: "capped_stream \<Rightarrow> poll \<times> capped_stream" where
  "poll_next s =
    (case cs_pending_marker s of
       Some m \<Rightarrow> (PollChunk m, s\<lparr>cs_pending_marker := None\<rparr>)
     | None \<Rightarrow>
         if cs_truncated s then (PollNone, s)
         else (case cs_cap s of
            None \<Rightarrow> poll_inner s
          | Some cap \<Rightarrow>
              (case poll_inner s of
                 (PollChunk chunk, s') \<Rightarrow>
                   let new_total = u64_saturating_add (cs_seen s') (of_nat (length chunk)) in
                   if new_total \<le> cap then (PollChunk chunk, s'\<lparr>cs_seen := new_total\<rparr>)
                   else
                     let allowed = unat (u64_saturating_sub cap (cs_seen s')) in
                     (PollChunk (take allowed chunk), fire_truncation (s'\<lparr>cs_seen := cap\<rparr>))
               | r \<Rightarrow> r)))"

text \<open>What a reader that polls until the end receives.  Each poll consumes an event or the queued marker,
  so the reading ends.\<close>

definition stream_size :: "capped_stream \<Rightarrow> nat" where
  "stream_size s = 2 * length (cs_inner s) + (case cs_pending_marker s of Some _ \<Rightarrow> 1 | None \<Rightarrow> 0)"

lemma poll_next_size:
  "poll_next s = (r, s') \<Longrightarrow> r \<noteq> PollNone \<Longrightarrow> stream_size s' < stream_size s"
  by (auto simp: poll_next_def poll_inner_def stream_size_def fire_truncation_def Let_def
      split: option.splits list.splits body_event.splits if_splits)

function read_all :: "capped_stream \<Rightarrow> poll list \<times> capped_stream" where
  "read_all s =
    (case poll_next s of
       (PollNone, s') \<Rightarrow> ([], s')
     | (r, s') \<Rightarrow> (let (rs, t) = read_all s' in (r # rs, t)))"
  by pat_completeness auto

termination
  by (relation "measure stream_size") (auto intro: poll_next_size [OF sym])

declare read_all.simps [simp del]

fun poll_bytes :: "poll \<Rightarrow> string" where
  "poll_bytes (PollChunk c) = c"
| "poll_bytes _ = []"

fun event_bytes :: "body_event \<Rightarrow> string" where
  "event_bytes (BodyChunk c) = c"
| "event_bytes _ = []"

definition received :: "poll list \<Rightarrow> string" where
  "received rs = concat (map poll_bytes rs)"

definition sent :: "body_event list \<Rightarrow> string" where
  "sent es = concat (map event_bytes es)"

fun event_poll :: "body_event \<Rightarrow> poll" where
  "event_poll BodyPending = PollPending"
| "event_poll (BodyErr e) = PollErr e"
| "event_poll (BodyChunk c) = PollChunk c"

lemma sent_simps [simp]: "sent [] = []" "sent (e # es) = event_bytes e @ sent es"
  by (simp_all add: sent_def)

lemma received_simps [simp]: "received [] = []" "received (r # rs) = poll_bytes r @ received rs"
  by (simp_all add: received_def)

lemma read_all_None: "poll_next s = (PollNone, s') \<Longrightarrow> read_all s = ([], s')"
  by (simp add: read_all.simps)

lemma read_all_Some:
  "poll_next s = (r, s') \<Longrightarrow> r \<noteq> PollNone \<Longrightarrow> read_all s = (r # fst (read_all s'), snd (read_all s'))"
  by (subst read_all.simps) (cases r; simp add: split_beta)

lemma read_all_marker:
  assumes "cs_truncated s" and "cs_pending_marker s = Some m"
  shows "read_all s = ([PollChunk m], s\<lparr>cs_pending_marker := None\<rparr>)"
proof -
  have "poll_next s = (PollChunk m, s\<lparr>cs_pending_marker := None\<rparr>)" using assms by (simp add: poll_next_def)
  moreover have "read_all (s\<lparr>cs_pending_marker := None\<rparr>) = ([], s\<lparr>cs_pending_marker := None\<rparr>)"
    by (rule read_all_None) (use assms in \<open>simp add: poll_next_def\<close>)
  ultimately show ?thesis by (simp add: read_all_Some)
qed

lemma poll_next_open:
  assumes "cs_pending_marker s = None" and "\<not> cs_truncated s" and "cs_inner s = e # es"
  shows "poll_next s =
    (case e of
       BodyChunk c \<Rightarrow>
         (case cs_cap s of
            None \<Rightarrow> (PollChunk c, s\<lparr>cs_inner := es\<rparr>)
          | Some cap \<Rightarrow>
              let n = u64_saturating_add (cs_seen s) (of_nat (length c)) in
              if n \<le> cap then (PollChunk c, s\<lparr>cs_inner := es, cs_seen := n\<rparr>)
              else (PollChunk (take (unat (u64_saturating_sub cap (cs_seen s))) c),
                    fire_truncation (s\<lparr>cs_inner := es, cs_seen := cap\<rparr>)))
     | _ \<Rightarrow> (event_poll e, s\<lparr>cs_inner := es\<rparr>))"
  using assms by (simp add: poll_next_def poll_inner_def Let_def split: option.split body_event.split)

lemma read_all_uncapped:
  assumes "cs_cap s = None" and "cs_pending_marker s = None" and "\<not> cs_truncated s"
  shows "fst (read_all s) = map event_poll (cs_inner s)"
  using assms
proof (induction "cs_inner s" arbitrary: s)
  case Nil
  then have "poll_next s = (PollNone, s)" by (simp add: poll_next_def poll_inner_def)
  with Nil show ?case by (simp add: read_all_None)
next
  case (Cons e es)
  have "poll_next s = (event_poll e, s\<lparr>cs_inner := es\<rparr>)"
    using Cons.prems Cons.hyps(2) [symmetric] by (simp add: poll_next_open split: body_event.split)
  moreover have "event_poll e \<noteq> PollNone" by (cases e) auto
  ultimately have "fst (read_all s) = event_poll e # fst (read_all (s\<lparr>cs_inner := es\<rparr>))"
    by (simp add: read_all_Some)
  with Cons.hyps(1) [of "s\<lparr>cs_inner := es\<rparr>"] Cons.prems Cons.hyps(2) [symmetric] show ?case by simp
qed

lemma seen_add:
  assumes "unat seen + n < 2 ^ 64"
  shows "unat (u64_saturating_add seen (of_nat n)) = unat seen + n"
  using assms by (simp add: unat_u64_saturating_add unat_of_nat take_bit_nat_eq_self)

definition open_stream :: "u64 \<Rightarrow> capped_stream \<Rightarrow> bool" where
  "open_stream cap s \<longleftrightarrow> cs_cap s = Some cap \<and> cs_pending_marker s = None \<and> \<not> cs_truncated s
     \<and> cs_seen s \<le> cap \<and> cs_armed s \<and> cs_calls s = [] \<and> unat (cs_seen s) + length (sent (cs_inner s)) < 2 ^ 64"

lemma read_all_capped:
  assumes "open_stream cap s"
  shows "if unat (cs_seen s) + length (sent (cs_inner s)) \<le> unat cap
    then fst (read_all s) = map event_poll (cs_inner s) \<and> cs_calls (snd (read_all s)) = []
    else received (fst (read_all s)) = take (unat cap - unat (cs_seen s)) (sent (cs_inner s)) @ STREAM_TRUNCATION_MARKER
      \<and> cs_calls (snd (read_all s)) = [cap]"
  using assms
proof (induction "cs_inner s" arbitrary: s)
  case Nil
  then have "poll_next s = (PollNone, s)" by (simp add: poll_next_def poll_inner_def open_stream_def)
  with Nil show ?case by (simp add: read_all_None open_stream_def word_le_nat_alt)
next
  case (Cons e es)
  note o = Cons.prems [unfolded open_stream_def] and i = Cons.hyps(2) [symmetric]
  let ?step = "\<lambda>s'. read_all s = (event_poll e # fst (read_all s'), snd (read_all s'))"
  show ?case
  proof (cases e)
    case (BodyChunk c)
    let ?n = "u64_saturating_add (cs_seen s) (of_nat (length c))"
    from o i BodyChunk have n: "unat ?n = unat (cs_seen s) + length c" by (intro seen_add) simp
    show ?thesis
    proof (cases "?n \<le> cap")
      case True
      let ?s = "s\<lparr>cs_inner := es, cs_seen := ?n\<rparr>"
      from True o i BodyChunk have "poll_next s = (PollChunk c, ?s)" by (simp add: poll_next_open)
      then have r: "read_all s = (PollChunk c # fst (read_all ?s), snd (read_all ?s))" by (simp add: read_all_Some)
      have "open_stream cap ?s" using o i BodyChunk True n by (simp add: open_stream_def)
      from Cons.hyps(1) [OF _ this] r n i BodyChunk True show ?thesis
        by (auto simp: word_le_nat_alt split: if_splits)
    next
      case False
      let ?s = "fire_truncation (s\<lparr>cs_inner := es, cs_seen := cap\<rparr>)"
      let ?p = "take (unat (u64_saturating_sub cap (cs_seen s))) c"
      from False o i BodyChunk have "poll_next s = (PollChunk ?p, ?s)" by (simp add: poll_next_open)
      then have "read_all s = (PollChunk ?p # fst (read_all ?s), snd (read_all ?s))" by (simp add: read_all_Some)
      moreover have "read_all ?s = ([PollChunk STREAM_TRUNCATION_MARKER], ?s\<lparr>cs_pending_marker := None\<rparr>)"
        by (rule read_all_marker) (simp_all add: fire_truncation_def)
      ultimately show ?thesis
        using False n o i BodyChunk
        by (simp add: word_le_nat_alt unat_u64_saturating_sub fire_truncation_def)
    qed
  next
    case BodyPending
    let ?s = "s\<lparr>cs_inner := es\<rparr>"
    from o i BodyPending have "poll_next s = (PollPending, ?s)" by (simp add: poll_next_open)
    then have r: "read_all s = (PollPending # fst (read_all ?s), snd (read_all ?s))" by (simp add: read_all_Some)
    have "open_stream cap ?s" using o i BodyPending by (simp add: open_stream_def)
    from Cons.hyps(1) [OF _ this] r i BodyPending show ?thesis by (auto split: if_splits)
  next
    case (BodyErr x)
    let ?s = "s\<lparr>cs_inner := es\<rparr>"
    from o i BodyErr have "poll_next s = (PollErr x, ?s)" by (simp add: poll_next_open)
    then have r: "read_all s = (PollErr x # fst (read_all ?s), snd (read_all ?s))" by (simp add: read_all_Some)
    have "open_stream cap ?s" using o i BodyErr by (simp add: open_stream_def)
    from Cons.hyps(1) [OF _ this] r i BodyErr show ?thesis by (auto split: if_splits)
  qed
qed

text \<open>C38. The stream adapter: reading to the end always ends; without a cap, or when the body fits, every
  event passes unchanged and in order and the callback stays silent; a longer body is cut to exactly the
  first \<open>cap\<close> bytes, the marker follows, nothing comes after it, and the callback runs once.\<close>

theorem stream_capped:
  assumes "length (sent es) < 2 ^ 64"
  shows "fst (read_all (capped_stream_new es None)) = map event_poll es
    \<and> (if length (sent es) \<le> unat cap
       then fst (read_all (capped_stream_new es (Some cap))) = map event_poll es
         \<and> cs_calls (snd (read_all (capped_stream_new es (Some cap)))) = []
       else received (fst (read_all (capped_stream_new es (Some cap)))) = take (unat cap) (sent es) @ STREAM_TRUNCATION_MARKER
         \<and> cs_calls (snd (read_all (capped_stream_new es (Some cap)))) = [cap])"
proof -
  have "open_stream cap (capped_stream_new es (Some cap))"
    using assms by (simp add: open_stream_def capped_stream_new_def)
  from read_all_capped [OF this] read_all_uncapped [of "capped_stream_new es None"]
  show ?thesis by (auto simp: capped_stream_new_def split: if_splits)
qed

theorem stream_capped_witness:
  "received (fst (read_all (capped_stream_new [BodyChunk ''abc'', BodyPending, BodyChunk ''def''] (Some 4))))
     = ''abcd'' @ STREAM_TRUNCATION_MARKER"
  using stream_capped [of "[BodyChunk ''abc'', BodyPending, BodyChunk ''def'']" 4] by simp

end
