(* ===== verification/ClientPool.thy ===== *)
theory ClientPool
  imports Secrets
begin

text \<open>
  \<open>client_pool.rs\<close>: the cache of upstream HTTP clients.  A client is what the builder of \<open>reqwest\<close> was
  told; reading the CA bundle, the certificate and proxy-URL parsers and the success of \<open>build\<close> are the
  parameter \<open>client_env\<close>.  The two locked sections of a lookup are \<open>pool_read\<close> and \<open>pool_write\<close>.
\<close>

section \<open>Fingerprints\<close>

record tool_fingerprint =
  fp_request_seconds :: u64
  fp_idle_seconds :: u64
  fp_egress :: egress_mode
  fp_egress_proxy_url :: "string option"

definition fingerprint_of_parts :: "tool_timeouts \<Rightarrow> egress_mode \<Rightarrow> app_config \<Rightarrow> tool_fingerprint" where
  "fingerprint_of_parts timeouts egress config =
    \<lparr>fp_request_seconds = request_seconds timeouts, fp_idle_seconds = idle_seconds timeouts, fp_egress = egress,
     fp_egress_proxy_url = (if egress = Proxied then cf_egress_proxy config else None)\<rparr>"

definition fingerprint_of :: "tool_config \<Rightarrow> app_config \<Rightarrow> tool_fingerprint" where
  "fingerprint_of tool config = fingerprint_of_parts (tc_timeouts tool) (tc_egress tool) config"

section \<open>Building a client\<close>

record http_client =
  hc_timeout :: "u64 option"
  hc_read_timeout :: "u64 option"
  hc_roots :: "string list"
  hc_proxy :: "string option"

definition default_client :: http_client where
  "default_client = \<lparr>hc_timeout = None, hc_read_timeout = None, hc_roots = [], hc_proxy = None\<rparr>"

record client_env =
  ce_read :: "string \<Rightarrow> string option"
  ce_from_pem :: "string \<Rightarrow> bool"
  ce_proxy_ok :: "string \<Rightarrow> bool"
  ce_build :: "http_client \<Rightarrow> bool"

definition strip_cr :: "string \<Rightarrow> string" where
  "strip_cr l = (if l \<noteq> [] \<and> last l = CHR 13 then butlast l else l)"

definition str_lines :: "string \<Rightarrow> string list" where
  "str_lines s = (let parts = split_by (\<lambda>c. c = CHR 10) s in
     map strip_cr (if last parts = [] then butlast parts else parts))"

fun pem_loop :: "string list \<Rightarrow> bool \<Rightarrow> string \<Rightarrow> string list \<Rightarrow> string list" where
  "pem_loop [] in_cert current certs = certs"
| "pem_loop (line # rest) in_cert current certs =
    (let begins = str_contains ''BEGIN CERTIFICATE'' line;
         in_cert1 = (begins \<or> in_cert);
         current1 = (if begins then [] else current);
         current2 = (if in_cert1 then current1 @ line @ [CHR 10] else current1)
     in if str_contains ''END CERTIFICATE'' line then pem_loop rest False current2 (certs @ [current2])
        else pem_loop rest in_cert1 current2 certs)"

definition split_pem_certificates :: "string \<Rightarrow> string list" where
  "split_pem_certificates pem = pem_loop (str_lines pem) False [] []"

definition add_ca_bundle :: "client_env \<Rightarrow> http_client \<Rightarrow> string \<Rightarrow> http_client" where
  "add_ca_bundle E builder ca_path =
    (case ce_read E ca_path of
       None \<Rightarrow> builder
     | Some pem \<Rightarrow> builder\<lparr>hc_roots := hc_roots builder @ filter (ce_from_pem E) (split_pem_certificates pem)\<rparr>)"

definition build_client_for :: "client_env \<Rightarrow> tool_timeouts \<Rightarrow> egress_mode \<Rightarrow> app_config \<Rightarrow> http_client" where
  "build_client_for E timeouts egress config =
    (let b0 = default_client\<lparr>hc_timeout := Some (request_seconds timeouts),
                hc_read_timeout := Some (idle_seconds timeouts)\<rparr>;
         b1 = (case cf_upstream_ca_bundle config of Some (Some ca_path) \<Rightarrow> add_ca_bundle E b0 ca_path | _ \<Rightarrow> b0);
         b2 = (case cf_egress_proxy config of
                 Some proxy_url \<Rightarrow> if egress = Proxied \<and> ce_proxy_ok E proxy_url then b1\<lparr>hc_proxy := Some proxy_url\<rparr> else b1
               | None \<Rightarrow> b1)
     in if ce_build E b2 then b2 else default_client)"

definition build_client :: "client_env \<Rightarrow> tool_config \<Rightarrow> app_config \<Rightarrow> http_client" where
  "build_client E tool config = build_client_for E (tc_timeouts tool) (tc_egress tool) config"

section \<open>The pool\<close>

record client_pool =
  pl_entries :: "string \<rightharpoonup> http_client \<times> tool_fingerprint"

definition client_pool_new :: client_pool where
  "client_pool_new = \<lparr>pl_entries = Map.empty\<rparr>"

definition pool_read :: "string \<Rightarrow> tool_fingerprint \<Rightarrow> client_pool \<Rightarrow> http_client option" where
  "pool_read name fingerprint p =
    (case pl_entries p name of
       Some (client, cached_fp) \<Rightarrow> if cached_fp = fingerprint then Some client else None
     | None \<Rightarrow> None)"

definition pool_write ::
    "string \<Rightarrow> tool_fingerprint \<Rightarrow> http_client \<Rightarrow> client_pool \<Rightarrow> http_client \<times> client_pool" where
  "pool_write name fingerprint fresh p =
    (case pool_read name fingerprint p of
       Some client \<Rightarrow> (client, p)
     | None \<Rightarrow> (fresh, p\<lparr>pl_entries := (pl_entries p)(name \<mapsto> (fresh, fingerprint))\<rparr>))"

definition get_or_build_for ::
    "client_env \<Rightarrow> string \<Rightarrow> tool_timeouts \<Rightarrow> egress_mode \<Rightarrow> app_config \<Rightarrow> client_pool \<Rightarrow> http_client \<times> client_pool" where
  "get_or_build_for E name timeouts egress config p =
    (let fingerprint = fingerprint_of_parts timeouts egress config in
     case pool_read name fingerprint p of
       Some client \<Rightarrow> (client, p)
     | None \<Rightarrow> pool_write name fingerprint (build_client_for E timeouts egress config) p)"

definition get_or_build :: "client_env \<Rightarrow> tool_config \<Rightarrow> app_config \<Rightarrow> client_pool \<Rightarrow> http_client \<times> client_pool" where
  "get_or_build E tool config p =
    (let fingerprint = fingerprint_of tool config in
     case pool_read (tc_name tool) fingerprint p of
       Some client \<Rightarrow> (client, p)
     | None \<Rightarrow> pool_write (tc_name tool) fingerprint (build_client E tool config) p)"

definition cleanup_removed :: "string list \<Rightarrow> client_pool \<Rightarrow> client_pool" where
  "cleanup_removed keep p = p\<lparr>pl_entries := pl_entries p |` set keep\<rparr>"

section \<open>The cache is transparent\<close>

lemma fingerprint_determines:
  assumes "fingerprint_of_parts t e cfg = fingerprint_of_parts t' e' cfg'"
    and "cf_upstream_ca_bundle cfg = cf_upstream_ca_bundle cfg'"
  shows "build_client_for E t e cfg = build_client_for E t' e' cfg'"
proof -
  from assms(1) have "request_seconds t = request_seconds t'" "idle_seconds t = idle_seconds t'" "e = e'"
    "e = Proxied \<Longrightarrow> cf_egress_proxy cfg = cf_egress_proxy cfg'"
    by (auto simp: fingerprint_of_parts_def)
  then show ?thesis
    using assms(2) by (cases "e = Proxied") (simp_all add: build_client_for_def Let_def split: option.split)
qed

definition pool_ok :: "client_env \<Rightarrow> string option option \<Rightarrow> client_pool \<Rightarrow> bool" where
  "pool_ok E tls p \<longleftrightarrow> (\<forall>name client fp. pl_entries p name = Some (client, fp) \<longrightarrow>
     (\<exists>t e cfg. cf_upstream_ca_bundle cfg = tls \<and> fp = fingerprint_of_parts t e cfg \<and> client = build_client_for E t e cfg))"

lemma pool_ok_new [simp]: "pool_ok E tls client_pool_new"
  by (simp add: pool_ok_def client_pool_new_def)

lemma pool_ok_cleanup [simp]: "pool_ok E tls p \<Longrightarrow> pool_ok E tls (cleanup_removed keep p)"
  by (auto simp: pool_ok_def cleanup_removed_def restrict_map_def split: if_splits)

lemma pool_read_fresh:
  assumes "pool_ok E (cf_upstream_ca_bundle cfg) p"
    and "pool_read name (fingerprint_of_parts t e cfg) p = Some client"
  shows "client = build_client_for E t e cfg"
proof -
  from assms(2) have "pl_entries p name = Some (client, fingerprint_of_parts t e cfg)"
    by (auto simp: pool_read_def split: option.splits prod.splits if_splits)
  with assms(1) obtain t' e' cfg' where "cf_upstream_ca_bundle cfg' = cf_upstream_ca_bundle cfg"
    "fingerprint_of_parts t e cfg = fingerprint_of_parts t' e' cfg'" "client = build_client_for E t' e' cfg'"
    unfolding pool_ok_def by blast
  then show ?thesis using fingerprint_determines [of t e cfg t' e' cfg'] by simp
qed

lemma pool_write_fresh:
  assumes "pool_ok E (cf_upstream_ca_bundle cfg) p"
    and "pool_write name (fingerprint_of_parts t e cfg) (build_client_for E t e cfg) p = (client, p')"
  shows "client = build_client_for E t e cfg \<and> pool_ok E (cf_upstream_ca_bundle cfg) p'"
proof (cases "pool_read name (fingerprint_of_parts t e cfg) p")
  case None
  with assms show ?thesis by (fastforce simp: pool_write_def pool_ok_def split: if_splits)
next
  case (Some c)
  with assms pool_read_fresh [OF assms(1) Some] show ?thesis by (simp add: pool_write_def)
qed

lemma get_or_build_for_fresh:
  assumes "pool_ok E (cf_upstream_ca_bundle cfg) p"
  shows "fst (get_or_build_for E name t e cfg p) = build_client_for E t e cfg
    \<and> pool_ok E (cf_upstream_ca_bundle cfg) (snd (get_or_build_for E name t e cfg p))"
proof (cases "pool_read name (fingerprint_of_parts t e cfg) p")
  case None
  obtain c p' where w: "pool_write name (fingerprint_of_parts t e cfg) (build_client_for E t e cfg) p = (c, p')"
    by fastforce
  from pool_write_fresh [OF assms w] None w show ?thesis by (simp add: get_or_build_for_def Let_def)
next
  case (Some c)
  with assms pool_read_fresh [OF assms Some] show ?thesis by (simp add: get_or_build_for_def Let_def)
qed

lemma get_or_build_eq:
  "get_or_build E tool cfg p = get_or_build_for E (tc_name tool) (tc_timeouts tool) (tc_egress tool) cfg p"
  unfolding get_or_build_def get_or_build_for_def fingerprint_of_def build_client_def ..

text \<open>A run of the pool: lookups by registration or by tool, the two locked sections of a lookup that lost
  the race separately, and clean-ups, in any order.\<close>

datatype pool_op =
    PoolGet string tool_timeouts egress_mode app_config
  | PoolGetTool tool_config app_config
  | PoolWrite string tool_timeouts egress_mode app_config
  | PoolCleanup "string list"

fun pool_exec :: "client_env \<Rightarrow> pool_op \<Rightarrow> client_pool \<Rightarrow> http_client option \<times> client_pool" where
  "pool_exec E (PoolGet name t e cfg) p = apfst Some (get_or_build_for E name t e cfg p)"
| "pool_exec E (PoolGetTool tool cfg) p = apfst Some (get_or_build E tool cfg p)"
| "pool_exec E (PoolWrite name t e cfg) p =
    apfst Some (pool_write name (fingerprint_of_parts t e cfg) (build_client_for E t e cfg) p)"
| "pool_exec E (PoolCleanup keep) p = (None, cleanup_removed keep p)"

fun pool_fresh :: "client_env \<Rightarrow> pool_op \<Rightarrow> http_client option" where
  "pool_fresh E (PoolGet name t e cfg) = Some (build_client_for E t e cfg)"
| "pool_fresh E (PoolGetTool tool cfg) = Some (build_client E tool cfg)"
| "pool_fresh E (PoolWrite name t e cfg) = Some (build_client_for E t e cfg)"
| "pool_fresh E (PoolCleanup keep) = None"

fun pool_config :: "pool_op \<Rightarrow> app_config option" where
  "pool_config (PoolGet name t e cfg) = Some cfg"
| "pool_config (PoolGetTool tool cfg) = Some cfg"
| "pool_config (PoolWrite name t e cfg) = Some cfg"
| "pool_config (PoolCleanup keep) = None"

fun pool_run :: "client_env \<Rightarrow> pool_op list \<Rightarrow> client_pool \<Rightarrow> http_client option list" where
  "pool_run E [] p = []"
| "pool_run E (op # ops) p = fst (pool_exec E op p) # pool_run E ops (snd (pool_exec E op p))"

lemma pool_exec_fresh:
  assumes "pool_ok E tls p" and "\<forall>cfg. pool_config op = Some cfg \<longrightarrow> cf_upstream_ca_bundle cfg = tls"
  shows "fst (pool_exec E op p) = pool_fresh E op \<and> pool_ok E tls (snd (pool_exec E op p))"
proof (cases op)
  case (PoolGet name t e cfg)
  with assms get_or_build_for_fresh [of E cfg p name t e] show ?thesis by simp
next
  case (PoolGetTool tool cfg)
  with assms get_or_build_for_fresh [of E cfg p "tc_name tool" "tc_timeouts tool" "tc_egress tool"]
  show ?thesis by (simp add: get_or_build_eq build_client_def)
next
  case (PoolWrite name t e cfg)
  obtain c p' where "pool_write name (fingerprint_of_parts t e cfg) (build_client_for E t e cfg) p = (c, p')"
    by fastforce
  with assms PoolWrite pool_write_fresh [of E cfg p name t e c p'] show ?thesis by simp
next
  case (PoolCleanup keep)
  with assms show ?thesis by simp
qed


definition demo_client_env :: client_env where
  "demo_client_env = \<lparr>ce_read = (\<lambda>_. None), ce_from_pem = (\<lambda>_. True), ce_proxy_ok = (\<lambda>_. True), ce_build = (\<lambda>_. True)\<rparr>"


end
