(* ===== verification/CodexBody.thy ===== *)
theory CodexBody
  imports Prelude
begin

text \<open>
  \<open>codex_body.rs\<close>: the rewriting of a request body bound for the Responses endpoint.  The JSON reader
  and printer of \<open>serde_json\<close> are the parameter \<open>json_lib\<close>; the map of a JSON object is an ordered map.
\<close>

section \<open>The rewriting\<close>

record json_lib =
  jl_from_slice :: "string \<Rightarrow> json option"
  jl_to_vec :: "json \<Rightarrow> string"

definition MAX_BODY_BYTES :: nat where "MAX_BODY_BYTES = 1024 * 1024"

definition DEFAULT_INSTRUCTIONS :: string where "DEFAULT_INSTRUCTIONS = ''You are a helpful assistant.''"

datatype codex_body_error = TooLarge

record fixup_summary =
  fx_fields_added :: "string list"
  fx_fields_overridden :: "string list"
  fx_fields_removed :: "string list"

definition default_summary :: fixup_summary where
  "default_summary = \<lparr>fx_fields_added = [], fx_fields_overridden = [], fx_fields_removed = []\<rparr>"

definition is_noop :: "fixup_summary \<Rightarrow> bool" where
  "is_noop s \<longleftrightarrow> fx_fields_added s = [] \<and> fx_fields_overridden s = [] \<and> fx_fields_removed s = []"

type_synonym fixup_state = "(string \<times> json) list \<times> fixup_summary"

definition apply_store_rule :: "fixup_state \<Rightarrow> fixup_state" where
  "apply_store_rule = (\<lambda>(m, s).
    case map_of m ''store'' of
      Some v \<Rightarrow>
        if v = JBool False then (m, s)
        else (bt_insert ''store'' (JBool False) m, s\<lparr>fx_fields_overridden := fx_fields_overridden s @ [''store'']\<rparr>)
    | None \<Rightarrow> (bt_insert ''store'' (JBool False) m, s\<lparr>fx_fields_added := fx_fields_added s @ [''store'']\<rparr>))"

definition apply_stream_rule :: "fixup_state \<Rightarrow> fixup_state" where
  "apply_stream_rule = (\<lambda>(m, s).
    case map_of m ''stream'' of
      Some v \<Rightarrow>
        if v = JBool True then (m, s)
        else (bt_insert ''stream'' (JBool True) m, s\<lparr>fx_fields_overridden := fx_fields_overridden s @ [''stream'']\<rparr>)
    | None \<Rightarrow> (bt_insert ''stream'' (JBool True) m, s\<lparr>fx_fields_added := fx_fields_added s @ [''stream'']\<rparr>))"

definition apply_instructions_rule :: "fixup_state \<Rightarrow> fixup_state" where
  "apply_instructions_rule = (\<lambda>(m, s).
    if map_of m ''instructions'' = None
    then (bt_insert ''instructions'' (JStr DEFAULT_INSTRUCTIONS) m,
          s\<lparr>fx_fields_added := fx_fields_added s @ [''instructions'']\<rparr>)
    else (m, s))"

definition apply_max_output_tokens_rule :: "fixup_state \<Rightarrow> fixup_state" where
  "apply_max_output_tokens_rule = (\<lambda>(m, s).
    if map_of m ''max_output_tokens'' \<noteq> None
    then (bt_remove ''max_output_tokens'' m,
          s\<lparr>fx_fields_removed := fx_fields_removed s @ [''max_output_tokens'']\<rparr>)
    else (m, s))"

definition fixup_rules :: "(string \<times> json) list \<Rightarrow> fixup_state" where
  "fixup_rules m =
    apply_max_output_tokens_rule (apply_instructions_rule (apply_stream_rule (apply_store_rule (m, default_summary))))"

definition fixup :: "json_lib \<Rightarrow> string \<Rightarrow> codex_body_error + (string \<times> fixup_summary)" where
  "fixup J body =
    (if MAX_BODY_BYTES < length body then Inl TooLarge
     else case jl_from_slice J body of
       Some (JObj m) \<Rightarrow>
         let (m', summary) = fixup_rules m in
         if is_noop summary then Inr (body, summary)
         else Inr (jl_to_vec J (JObj m'), summary)
     | _ \<Rightarrow> Inr (body, default_summary))"

section \<open>What it does\<close>

definition responses_ready :: "(string \<times> json) list \<Rightarrow> bool" where
  "responses_ready m \<longleftrightarrow> map_of m ''store'' = Some (JBool False) \<and> map_of m ''stream'' = Some (JBool True)
     \<and> map_of m ''instructions'' \<noteq> None \<and> map_of m ''max_output_tokens'' = None"

lemma store_rule:
  "apply_store_rule (m, s) =
    (if map_of m ''store'' = Some (JBool False) then m else bt_insert ''store'' (JBool False) m,
     s\<lparr>fx_fields_added := fx_fields_added s @ (if map_of m ''store'' = None then [''store''] else []),
       fx_fields_overridden := fx_fields_overridden s @
         (if map_of m ''store'' \<in> {None, Some (JBool False)} then [] else [''store''])\<rparr>)"
  by (auto simp: apply_store_rule_def split: option.split)

lemma stream_rule:
  "apply_stream_rule (m, s) =
    (if map_of m ''stream'' = Some (JBool True) then m else bt_insert ''stream'' (JBool True) m,
     s\<lparr>fx_fields_added := fx_fields_added s @ (if map_of m ''stream'' = None then [''stream''] else []),
       fx_fields_overridden := fx_fields_overridden s @
         (if map_of m ''stream'' \<in> {None, Some (JBool True)} then [] else [''stream''])\<rparr>)"
  by (auto simp: apply_stream_rule_def split: option.split)

lemma instructions_rule:
  "apply_instructions_rule (m, s) =
    (if map_of m ''instructions'' = None then bt_insert ''instructions'' (JStr DEFAULT_INSTRUCTIONS) m else m,
     s\<lparr>fx_fields_added := fx_fields_added s @ (if map_of m ''instructions'' = None then [''instructions''] else [])\<rparr>)"
  by (simp add: apply_instructions_rule_def)

lemma max_output_tokens_rule:
  "apply_max_output_tokens_rule (m, s) =
    (if map_of m ''max_output_tokens'' \<noteq> None then bt_remove ''max_output_tokens'' m else m,
     s\<lparr>fx_fields_removed := fx_fields_removed s @ (if map_of m ''max_output_tokens'' \<noteq> None then [''max_output_tokens''] else [])\<rparr>)"
  by (simp add: apply_max_output_tokens_rule_def)

lemma map_of_if: "map_of (if b then m else m') k = (if b then map_of m k else map_of m' k)"
  by simp

lemmas fixup_rules_steps = fixup_rules_def store_rule stream_rule instructions_rule max_output_tokens_rule

lemma fixup_rules_map:
  "map_of (fst (fixup_rules m)) k =
    (if k = ''store'' then Some (JBool False) else if k = ''stream'' then Some (JBool True)
     else if k = ''max_output_tokens'' then None
     else if k = ''instructions'' \<and> map_of m k = None then Some (JStr DEFAULT_INSTRUCTIONS)
     else map_of m k)"
  by (simp add: fixup_rules_steps map_of_if del: not_None_eq)

lemma fixup_rules_snd:
  "snd (fixup_rules m) =
    \<lparr>fx_fields_added = filter (\<lambda>k. map_of m k = None) [''store'', ''stream'', ''instructions''],
     fx_fields_overridden = filter (\<lambda>k. map_of m k \<notin> {None, map_of (fst (fixup_rules m)) k}) [''store'', ''stream''],
     fx_fields_removed = filter (\<lambda>k. map_of m k \<noteq> None) [''max_output_tokens'']\<rparr>"
  unfolding fixup_rules_map by (simp add: fixup_rules_steps map_of_if default_summary_def del: not_None_eq)

lemma fixup_rules_noop: "is_noop (snd (fixup_rules m)) \<longleftrightarrow> responses_ready m"
  by (auto simp: fixup_rules_snd is_noop_def responses_ready_def fixup_rules_map)

lemma fixup_rules_ready:
  assumes "responses_ready m"
  shows "fixup_rules m = (m, default_summary)"
proof (rule prod_eqI)
  show "fst (fixup_rules m) = fst (m, default_summary)"
    using assms by (auto simp: fixup_rules_steps responses_ready_def)
  show "snd (fixup_rules m) = snd (m, default_summary)"
    using assms by (simp add: fixup_rules_snd fixup_rules_map responses_ready_def default_summary_def)
qed

lemma fixup_rules_makes_ready: "responses_ready (fst (fixup_rules m))"
  by (auto simp: responses_ready_def fixup_rules_map)

text \<open>C39. The body that leaves for the Responses endpoint: a JSON object arrives with \<open>store\<close> false,
  \<open>stream\<close> true, \<open>instructions\<close> present (the agent's own if it sent any), no \<open>max_output_tokens\<close> and every
  other field as sent; the summary names exactly the fields added, overridden and removed; an object that
  needed nothing is forwarded byte for byte; and rewriting the result again changes nothing, unless the
  rewriting took it over the size limit.\<close>

theorem codex_fixup_exact:
  assumes "fixup J body = Inr (body', s)" and "jl_from_slice J body = Some (JObj m)"
    and "\<forall>m'. body' = jl_to_vec J (JObj m') \<longrightarrow> jl_from_slice J body' = Some (JObj m')"
  shows "(\<exists>m'. jl_from_slice J body' = Some (JObj m')
      \<and> map_of m' = (map_of m)(''store'' \<mapsto> JBool False, ''stream'' \<mapsto> JBool True, ''max_output_tokens'' := None,
           ''instructions'' \<mapsto> (case map_of m ''instructions'' of Some v \<Rightarrow> v | None \<Rightarrow> JStr DEFAULT_INSTRUCTIONS)))
    \<and> set (fx_fields_added s) = {k \<in> {''store'', ''stream'', ''instructions''}. map_of m k = None}
    \<and> set (fx_fields_overridden s) = {k. k = ''store'' \<and> map_of m k \<notin> {None, Some (JBool False)}
           \<or> k = ''stream'' \<and> map_of m k \<notin> {None, Some (JBool True)}}
    \<and> set (fx_fields_removed s) = {k \<in> {''max_output_tokens''}. map_of m k \<noteq> None}
    \<and> (is_noop s \<longrightarrow> body' = body)
    \<and> (length body' \<le> MAX_BODY_BYTES \<longrightarrow> fixup J body' = Inr (body', default_summary))"
proof -
  obtain m' sm where r: "fixup_rules m = (m', sm)" by (cases "fixup_rules m")
  then have m': "m' = fst (fixup_rules m)" by simp
  from assms(1,2) r have s: "s = snd (fixup_rules m)"
    and b: "body' = (if is_noop s then body else jl_to_vec J (JObj m'))"
    by (auto simp: fixup_def split: if_splits)
  have read: "jl_from_slice J body' = Some (JObj m')"
  proof (cases "is_noop s")
    case True
    then have "m' = m" using s m' fixup_rules_noop [of m] fixup_rules_ready [of m] by simp
    with True b assms(2) show ?thesis by simp
  next
    case False
    with b have "body' = jl_to_vec J (JObj m')" by simp
    with assms(3) show ?thesis by blast
  qed
  have idem: "fixup J body' = Inr (body', default_summary)" if "length body' \<le> MAX_BODY_BYTES"
    using that read fixup_rules_ready [OF fixup_rules_makes_ready [of m]] m'
    by (simp add: fixup_def Let_def is_noop_def default_summary_def)
  have maps: "map_of m' = (map_of m)(''store'' \<mapsto> JBool False, ''stream'' \<mapsto> JBool True, ''max_output_tokens'' := None,
      ''instructions'' \<mapsto> (case map_of m ''instructions'' of Some v \<Rightarrow> v | None \<Rightarrow> JStr DEFAULT_INSTRUCTIONS))"
    by (rule ext) (simp add: m' fixup_rules_map split: option.split)
  have sets: "set (fx_fields_added s) = {k \<in> {''store'', ''stream'', ''instructions''}. map_of m k = None}"
    "set (fx_fields_overridden s) = {k \<in> {''store'', ''stream''}. map_of m k \<notin> {None, map_of m' k}}"
    "set (fx_fields_removed s) = {k \<in> {''max_output_tokens''}. map_of m k \<noteq> None}"
    unfolding s m' by (subst fixup_rules_snd, simp only: fixup_summary.simps set_filter list.set)+
  have "{k \<in> {''store'', ''stream''}. map_of m k \<notin> {None, map_of m' k}} =
      {k. k = ''store'' \<and> map_of m k \<notin> {None, Some (JBool False)} \<or> k = ''stream'' \<and> map_of m k \<notin> {None, Some (JBool True)}}"
    unfolding m' fixup_rules_map by auto
  note over = sets(2) [unfolded this]
  from b have "is_noop s \<longrightarrow> body' = body" by simp
  with read idem maps sets(1,3) over show ?thesis by blast
qed

definition demo_json_lib :: json_lib where
  "demo_json_lib = \<lparr>jl_from_slice = (\<lambda>b.
       if b = ''in'' then Some (JObj [(''max_output_tokens'', JNum 9), (''store'', JBool True)])
       else if b = ''out'' then Some (JObj (fst (fixup_rules [(''max_output_tokens'', JNum 9), (''store'', JBool True)])))
       else None),
     jl_to_vec = (\<lambda>v. if v = JObj (fst (fixup_rules [(''max_output_tokens'', JNum 9), (''store'', JBool True)]))
       then ''out'' else ''other'')\<rparr>"

lemma demo_fixup:
  "fixup demo_json_lib ''in'' = Inr (''out'', \<lparr>fx_fields_added = [''stream'', ''instructions''],
     fx_fields_overridden = [''store''], fx_fields_removed = [''max_output_tokens'']\<rparr>)"
proof -
  let ?m = "[(''max_output_tokens'', JNum 9), (''store'', JBool True)]"
  have "snd (fixup_rules ?m) = \<lparr>fx_fields_added = [''stream'', ''instructions''],
      fx_fields_overridden = [''store''], fx_fields_removed = [''max_output_tokens'']\<rparr>"
    by (simp add: fixup_rules_snd fixup_rules_map)
  moreover obtain m' sm where "fixup_rules ?m = (m', sm)" by fastforce
  ultimately show ?thesis
    by (simp add: fixup_def demo_json_lib_def MAX_BODY_BYTES_def is_noop_def)
qed

theorem codex_fixup_exact_witness:
  "fixup demo_json_lib ''out'' = Inr (''out'', default_summary)"
proof -
  have "jl_from_slice demo_json_lib ''in'' = Some (JObj [(''max_output_tokens'', JNum 9), (''store'', JBool True)])"
    and "\<forall>m'. ''out'' = jl_to_vec demo_json_lib (JObj m') \<longrightarrow> jl_from_slice demo_json_lib ''out'' = Some (JObj m')"
    by (simp_all add: demo_json_lib_def)
  from codex_fixup_exact [OF demo_fixup this] show ?thesis
    by (simp add: MAX_BODY_BYTES_def)
qed

end
