(* ===== verification/Admission.thy ===== *)
theory Admission
  imports Identity HttpService OAuthRefresh Secrets
    ResponseControls ClientPool CodexBody
begin

text \<open>
  Who may use what: \<open>registrations/admission.rs\<close> (one SQL statement reads the agent's policy, the
  connection and the selected account together), \<open>legacy_admission.rs\<close>, the state shared by the
  handlers of \<open>app.rs\<close>, and the discovery listing of \<open>registrations/api.rs\<close>.  The agent table has unique
  ids and bindings are unique per agent and registration, so each left join gives at most one row.
\<close>

section \<open>Shared state\<close>

record oauth_runtime =
  ort_sealing_key :: sealing_key
  ort_locks :: refresh_lock_map

record app_state =
  st_listener :: listener
  st_client_pool :: client_pool
  st_audit :: bool
  st_resolved_creds :: resolved_creds
  st_response_controls :: "string \<rightharpoonup> response_controls"
  st_registrations :: bool
  st_catalog :: catalog
  st_oauth :: "oauth_runtime option"
  st_agent_creds :: bool
  st_credential_sealing_key :: "credential_sealing_key option"
  st_credential_secrets :: bool
  st_operational_log :: "emitter option"
  st_op_resolver :: "op_resolver option"

abbreviation st_config :: "app_state \<Rightarrow> app_config" where
  "st_config st \<equiv> ls_config (st_listener st)"

fun compile_tools :: "regex_lib \<Rightarrow> tool_config list \<Rightarrow> (string \<rightharpoonup> response_controls) \<Rightarrow> string \<rightharpoonup> response_controls" where
  "compile_tools X [] out = out"
| "compile_tools X (t # ts) out =
    (case tc_response t of
       None \<Rightarrow> compile_tools X ts out
     | Some rc_cfg \<Rightarrow>
         (case rc_compile X rc_cfg of
            Inr rc \<Rightarrow> compile_tools X ts (out(tc_name t \<mapsto> rc))
          | Inl _ \<Rightarrow> compile_tools X ts out))"

definition compile_response_controls :: "regex_lib \<Rightarrow> app_config \<Rightarrow> string \<rightharpoonup> response_controls" where
  "compile_response_controls X cfg = compile_tools X (cf_tools cfg) Map.empty"

section \<open>The admission snapshot\<close>

record http_admission =
  ha_registration :: registration
  ha_account :: "auth_spec option"
  ha_agent_active :: bool
  ha_grant :: "string + unit"

datatype admission_unavailable = AdmissionUnavailable

definition admission_list :: "string list jcol option \<Rightarrow> admission_unavailable + string list option" where
  "admission_list c =
    (case c of None \<Rightarrow> Inr None | Some (JVal l) \<Rightarrow> Inr (Some l) | Some JBad \<Rightarrow> Inl AdmissionUnavailable)"

definition joined_agent :: "agent_identity \<Rightarrow> db \<Rightarrow> agent_row option" where
  "joined_agent i d = find (\<lambda>a. ag_id a = ai_id i \<and> ag_public_id a = ai_public_id i) (agents d)"

definition joined_binding :: "agent_row option \<Rightarrow> string \<Rightarrow> db \<Rightarrow> override_row option" where
  "joined_binding a name d = Option.bind a (\<lambda>a. find (binding_key_is (ag_id a) name) (overrides d))"

definition agent_active :: "int \<Rightarrow> agent_row option \<Rightarrow> bool" where
  "agent_active now a =
    (case a of
       None \<Rightarrow> False
     | Some a \<Rightarrow> ag_revoked_at a = None \<and> (case ag_expires_at a of None \<Rightarrow> True | Some t \<Rightarrow> now < t))"

definition admission_of_row ::
    "int \<Rightarrow> agent_identity \<Rightarrow> db \<Rightarrow> reg_row \<Rightarrow> admission_unavailable + http_admission" where
  "admission_of_row now identity d row =
    (let agent = joined_agent identity d;
         reviewed = (case agent of Some a \<Rightarrow> ag_grants_reviewed a | None \<Rightarrow> False) in
     result_bind (if reviewed then admission_list (Option.bind agent ag_tool_allowlist) else Inr None) (\<lambda>allowlist.
     result_bind (admission_list (Option.bind agent ag_tool_denylist)) (\<lambda>denylist.
     result_bind
       (case joined_binding agent (rg_name row) d of
          None \<Rightarrow> Inr None
        | Some b \<Rightarrow> (case ov_auth_spec b of JVal s \<Rightarrow> Inr (Some s) | JBad \<Rightarrow> Inl AdmissionUnavailable)) (\<lambda>account.
     case row_to_registration row of
       Inl _ \<Rightarrow> Inl AdmissionUnavailable
     | Inr reg \<Rightarrow>
         Inr \<lparr>ha_registration = reg, ha_account = account, ha_agent_active = agent_active now agent,
              ha_grant = allows_tool (identity\<lparr>ai_tool_allowlist := allowlist, ai_tool_denylist := denylist\<rparr>) (rg_name row)\<rparr>))))"

definition http_admissions ::
    "int \<Rightarrow> agent_identity \<Rightarrow> string option \<Rightarrow> db \<Rightarrow> admission_unavailable + http_admission list" where
  "http_admissions now identity name d =
    (if db_down d then Inl AdmissionUnavailable
     else
       let rows = sort_key rg_name (filter (\<lambda>r. (case name of None \<Rightarrow> True | Some n \<Rightarrow> rg_name r = n)
                    \<and> (rg_kind r = ''tool'' \<or> rg_kind r = ''model'')) (registrations d));
           snapshots = map (admission_of_row now identity d) rows
       in if name \<noteq> None then collect_results snapshots
          else Inr (List.map_filter (\<lambda>r. case r of Inr a \<Rightarrow> Some a | Inl _ \<Rightarrow> None) snapshots))"

definition activation :: "registration \<Rightarrow> catalog option \<Rightarrow> string" where
  "activation reg c =
    (if reg_disabled reg then ''disabled''
     else if Option.bind c (\<lambda>c. lookup_any c (reg_name reg)) = Some reg then ''active''
     else ''pending'')"

lemma activation_active_iff [simp]:
  "activation reg (Some c) = ''active'' \<longleftrightarrow> \<not> reg_disabled reg \<and> lookup_any c (reg_name reg) = Some reg"
  by (simp add: activation_def)

definition discoverable :: "kind \<Rightarrow> catalog \<Rightarrow> http_admission \<Rightarrow> bool" where
  "discoverable k c a \<longleftrightarrow> ha_agent_active a \<and> ha_grant a = Inr () \<and> reg_kind (ha_registration a) = k
     \<and> activation (ha_registration a) (Some c) = ''active''"

section \<open>Discovery\<close>

definition service_entry :: "service_codec \<Rightarrow> (http_service \<Rightarrow> json) \<Rightarrow> http_admission \<Rightarrow> json" where
  "service_entry C to_json a =
    (let r = ha_registration a in
     JObj ([(''account_selected'', JBool (ha_account a \<noteq> None)), (''activation'', JStr ''active''),
            (''credential_readiness'', JStr ''not_checked''), (''description'', JStr (reg_description r))]
       @ (case from_metadata C (reg_metadata r) of Inr (Some s) \<Rightarrow> [(''http_service'', to_json s)] | _ \<Rightarrow> [])
       @ [(''name'', JStr (reg_name r)), (''path'', JStr (''/api/'' @ reg_name r)), (''type'', JStr ''api'')]))"

definition list_public ::
    "service_codec \<Rightarrow> (http_service \<Rightarrow> json) \<Rightarrow> int \<Rightarrow> catalog \<Rightarrow> kind \<Rightarrow> agent_identity option \<Rightarrow> db
       \<Rightarrow> registration_error + json list" where
  "list_public C to_json now c k identity d =
    (case identity of
       None \<Rightarrow> Inr []
     | Some i \<Rightarrow>
         (case http_admissions now i None d of
            Inl _ \<Rightarrow> Inl (RegBackend ''admission state unavailable'')
          | Inr rows \<Rightarrow> Inr (map (service_entry C to_json) (filter (discoverable k c) rows))))"

definition tool_entry :: "tool_config \<Rightarrow> json" where
  "tool_entry t = JObj [(''activation'', JStr ''configuration_only''), (''credential_readiness'', JStr ''not_checked''),
     (''description'', JStr (tc_description t)), (''name'', JStr (tc_name t)),
     (''path'', JStr (''/api/'' @ tc_name t)), (''type'', JStr ''api'')]"

definition catalog_listing ::
    "service_codec \<Rightarrow> (http_service \<Rightarrow> json) \<Rightarrow> int \<Rightarrow> app_state \<Rightarrow> agent_identity option \<Rightarrow> kind \<Rightarrow> db \<Rightarrow> json list" where
  "catalog_listing C to_json now st identity k d =
    (if st_registrations st then
       (case list_public C to_json now (st_catalog st) k identity d of Inr items \<Rightarrow> items | Inl _ \<Rightarrow> [])
     else if k \<noteq> Tool then []
     else map tool_entry (filter (\<lambda>t. case identity of None \<Rightarrow> True | Some i \<Rightarrow> allows_tool i (tc_name t) = Inr ())
            (active_tools_against (st_config st) (st_resolved_creds st))))"

section \<open>Deployments without agent identities\<close>

definition UPGRADE_MESSAGE :: string where
  "UPGRADE_MESSAGE = ''enable the admin database/listener, register an agent, authenticate with its bearer or mTLS identity, and explicitly select an account; a shared bearer cannot select an account''"

definition credentialed :: "app_state \<Rightarrow> string \<Rightarrow> bool" where
  "credentialed st name =
    (case lookup_active (st_catalog st) name of
       Some row \<Rightarrow> injects_header (reg_auth row)
     | None \<Rightarrow> list_ex (\<lambda>t. tc_name t = name \<and> tc_auth t \<noteq> None) (cf_tools (st_config st)))"

definition incompatible_tools :: "app_state \<Rightarrow> string list" where
  "incompatible_tools st =
    (if ls_agent_auth (st_listener st) \<noteq> None \<or> ls_mtls (st_listener st) \<noteq> None then []
     else remdups_adj (sort (map tc_name (filter (\<lambda>t. tc_auth t \<noteq> None) (cf_tools (st_config st)))
       @ concat (map (\<lambda>k. map reg_name (filter (\<lambda>r. injects_header (reg_auth r)) (iter_enabled_by_kind k (st_catalog st))))
           [Tool, Model]))))"

section \<open>Readiness\<close>

definition json_response :: "nat \<Rightarrow> json \<Rightarrow> http_response" where
  "json_response status v = \<lparr>hr_status = status, hr_headers = [], hr_body = RJson v\<rparr>"

definition livez_handler :: "u64 \<Rightarrow> http_response" where
  "livez_handler uptime = json_response 200 (JObj [(''status'', JStr ''live''), (''uptime_seconds'', JNum (uint uptime))])"

definition readyz_handler :: "u64 \<Rightarrow> app_state \<Rightarrow> http_response" where
  "readyz_handler uptime st =
    (let incompatible = incompatible_tools st in
     if incompatible \<noteq> [] then
       json_response 503 (JObj [(''reason'', JStr ''agent_identity_required''), (''status'', JStr ''not_ready''),
         (''tools'', JArr (map JStr incompatible)), (''upgrade'', JStr UPGRADE_MESSAGE)])
     else
       let unconfigured = map tc_name (filter (\<lambda>t. tc_auth t \<noteq> None \<and> st_resolved_creds st (tc_name t) = None)
             (cf_tools (st_config st)))
       in if unconfigured \<noteq> [] then
            json_response 503 (JObj [(''reason'', JStr ''tool_credentials_unresolved''), (''status'', JStr ''not_ready''),
              (''tools'', JArr (map JStr unconfigured))])
          else json_response 200 (JObj [(''status'', JStr ''ready''), (''uptime_seconds'', JNum (uint uptime))]))"

section \<open>Admission decisions\<close>

text \<open>What an agent row allows at a given moment: the agent is neither revoked nor expired, the name is among
  its reviewed grants and not on its denylist.\<close>

definition row_allows :: "int \<Rightarrow> agent_row \<Rightarrow> string \<Rightarrow> bool" where
  "row_allows now a n \<longleftrightarrow> ag_revoked_at a = None \<and> (case ag_expires_at a of None \<Rightarrow> True | Some t \<Rightarrow> now < t)
     \<and> n \<in> set (reviewed_grants a)
     \<and> (case ag_tool_denylist a of None \<Rightarrow> True | Some (JVal l) \<Rightarrow> n \<notin> set l | Some JBad \<Rightarrow> False)"

definition connection_row :: "string \<Rightarrow> reg_row \<Rightarrow> bool" where
  "connection_row n r \<longleftrightarrow> rg_name r = n \<and> (rg_kind r = ''tool'' \<or> rg_kind r = ''model'')"

lemma joined_agent_Some_iff:
  assumes "db_ok d"
  shows "joined_agent i d = Some a \<longleftrightarrow> a \<in> set (agents d) \<and> ag_id a = ai_id i \<and> ag_public_id a = ai_public_id i"
proof
  assume "joined_agent i d = Some a"
  then show "a \<in> set (agents d) \<and> ag_id a = ai_id i \<and> ag_public_id a = ai_public_id i"
    by (auto simp: joined_agent_def dest: find_SomeD)
next
  assume a: "a \<in> set (agents d) \<and> ag_id a = ai_id i \<and> ag_public_id a = ai_public_id i"
  then obtain b where b: "joined_agent i d = Some b"
    unfolding joined_agent_def by (metis (mono_tags, lifting) find_None_iff not_None_eq)
  then have "b \<in> set (agents d)" "ag_id b = ai_id i"
    by (auto simp: joined_agent_def dest: find_SomeD)
  moreover have "inj_on ag_id (set (agents d))"
    using assms by (simp add: db_ok_def distinct_map)
  ultimately have "b = a" using a by (metis inj_onD)
  with b show "joined_agent i d = Some a" by simp
qed

lemma joined_binding_creds_get:
  assumes "\<not> db_down d"
  shows "creds_get (ag_id a) n d =
    (case joined_binding (Some a) n d of None \<Rightarrow> Inr None | Some r \<Rightarrow> result_bind (row_to_override r) (\<lambda>co. Inr (Some co)))"
  using assms by (simp add: creds_get_def joined_binding_def)

lemma admission_list_Inr_iff [simp]:
  "admission_list c = Inr x \<longleftrightarrow> c = map_option JVal x"
  by (cases c; cases x) (auto simp: admission_list_def split: jcol.splits)

lemma filter_unique_key:
  assumes "distinct (map f xs)" and "x \<in> set xs"
  shows "filter (\<lambda>y. f y = f x) xs = [x]"
  using assms
proof (induction xs)
  case (Cons y ys)
  show ?case
  proof (cases "x = y")
    case True
    with Cons.prems have "f z \<noteq> f x" if "z \<in> set ys" for z using that by (metis distinct.simps(2) image_eqI list.map(2) list.set_map)
    then have "filter (\<lambda>z. f z = f x) ys = []" by (simp add: filter_empty_conv)
    with True show ?thesis by simp
  next
    case False
    with Cons.prems have "f y \<noteq> f x" by auto
    with False Cons show ?thesis by simp
  qed
qed simp

lemma allows_tool_Inr_iff:
  "allows_tool i n = Inr () \<longleftrightarrow>
    (\<exists>l. ai_tool_allowlist i = Some l \<and> n \<in> set l) \<and> (case ai_tool_denylist i of None \<Rightarrow> True | Some l \<Rightarrow> n \<notin> set l)"
  by (auto simp: allows_tool_def split: option.splits)

lemma admission_of_row_InrD:
  assumes "admission_of_row now i d row = Inr h"
  shows "row_to_registration row = Inr (ha_registration h)"
    and "ha_agent_active h = agent_active now (joined_agent i d)"
    and "joined_binding (joined_agent i d) (rg_name row) d = None \<longleftrightarrow> ha_account h = None"
    and "joined_binding (joined_agent i d) (rg_name row) d = Some b \<Longrightarrow> map_option JVal (ha_account h) = Some (ov_auth_spec b)"
    and "joined_agent i d = Some a \<Longrightarrow> ha_agent_active h \<and> ha_grant h = Inr () \<longleftrightarrow> row_allows now a (rg_name row)"
proof -
  let ?a = "joined_agent i d"
  obtain reg where reg: "row_to_registration row = Inr reg"
    using assms unfolding admission_of_row_def Let_def by (cases "row_to_registration row") auto
  from assms reg obtain al dl ac where
    al: "(if (case ?a of Some a \<Rightarrow> ag_grants_reviewed a | None \<Rightarrow> False) then admission_list (Option.bind ?a ag_tool_allowlist)
          else Inr None) = Inr al"
    and dl: "Option.bind ?a ag_tool_denylist = map_option JVal dl"
    and ac: "(case joined_binding ?a (rg_name row) d of None \<Rightarrow> Inr None
       | Some b \<Rightarrow> (case ov_auth_spec b of JVal s \<Rightarrow> Inr (Some s) | JBad \<Rightarrow> Inl AdmissionUnavailable)) = Inr ac"
    and eq: "h = \<lparr>ha_registration = reg, ha_account = ac, ha_agent_active = agent_active now ?a,
      ha_grant = allows_tool (i\<lparr>ai_tool_allowlist := al, ai_tool_denylist := dl\<rparr>) (rg_name row)\<rparr>"
    unfolding admission_of_row_def Let_def by auto
  show "row_to_registration row = Inr (ha_registration h)" "ha_agent_active h = agent_active now ?a"
    using reg eq by simp_all
  show "joined_binding ?a (rg_name row) d = None \<longleftrightarrow> ha_account h = None"
    using ac eq by (auto split: option.splits jcol.splits)
  show "map_option JVal (ha_account h) = Some (ov_auth_spec b)" if "joined_binding ?a (rg_name row) d = Some b"
    using that ac eq by (auto split: jcol.splits)
  show "ha_agent_active h \<and> ha_grant h = Inr () \<longleftrightarrow> row_allows now a (rg_name row)" if "?a = Some a"
  proof -
    have g: "(\<exists>l. al = Some l \<and> n \<in> set l) \<longleftrightarrow> n \<in> set (reviewed_grants a)" for n
    proof (cases "ag_grants_reviewed a")
      case True
      with al that have "ag_tool_allowlist a = map_option JVal al" by simp
      with True show ?thesis by (cases al) (simp_all add: reviewed_grants_def)
    next
      case False
      with al that show ?thesis by (simp add: reviewed_grants_def split: option.split jcol.split)
    qed
    from dl that have "ag_tool_denylist a = map_option JVal dl" by simp
    then have "(case dl of None \<Rightarrow> True | Some l \<Rightarrow> n \<notin> set l) \<longleftrightarrow>
        (case ag_tool_denylist a of None \<Rightarrow> True | Some (JVal l) \<Rightarrow> n \<notin> set l | Some JBad \<Rightarrow> False)" for n
      by (cases dl) simp_all
    with g that eq show ?thesis
      by (auto simp: allows_tool_Inr_iff row_allows_def agent_active_def)
  qed
qed

lemma unique_connection_row:
  assumes "db_ok d" and "r \<in> set (registrations d)" and "connection_row n r"
  shows "filter (\<lambda>r. rg_name r = n \<and> (rg_kind r = ''tool'' \<or> rg_kind r = ''model'')) (registrations d) = [r]"
proof -
  have f: "filter (\<lambda>r. rg_name r = n) (registrations d) = [r]"
    using filter_unique_key [of rg_name "registrations d" r] assms by (simp add: db_ok_def connection_row_def)
  have "filter (\<lambda>r. rg_name r = n \<and> (rg_kind r = ''tool'' \<or> rg_kind r = ''model'')) (registrations d)
      = filter (\<lambda>r. rg_kind r = ''tool'' \<or> rg_kind r = ''model'') (filter (\<lambda>r. rg_name r = n) (registrations d))"
    by (simp add: conj_commute)
  with f assms(3) show ?thesis by (auto simp: connection_row_def)
qed

lemma named_admission:
  assumes "db_ok d" and "\<not> db_down d"
  shows "http_admissions now i (Some n) d =
    (case find (connection_row n) (registrations d) of
       None \<Rightarrow> Inr []
     | Some r \<Rightarrow> (case admission_of_row now i d r of Inl e \<Rightarrow> Inl e | Inr h \<Rightarrow> Inr [h]))"
proof (cases "find (connection_row n) (registrations d)")
  case None
  then have "filter (\<lambda>r. rg_name r = n \<and> (rg_kind r = ''tool'' \<or> rg_kind r = ''model'')) (registrations d) = []"
    by (simp add: find_None_iff connection_row_def filter_empty_conv)
  with None assms(2) show ?thesis by (simp add: http_admissions_def)
next
  case (Some r)
  then have "r \<in> set (registrations d)" "connection_row n r" by (auto dest: find_SomeD)
  from unique_connection_row [OF assms(1) this] Some assms(2) show ?thesis
    by (simp add: http_admissions_def split: sum.split)
qed

lemma named_admission_Inr:
  assumes "db_ok d" and "http_admissions now i (Some n) d = Inr rows" and "rows \<noteq> []"
  obtains r h where "r \<in> set (registrations d)" "connection_row n r" "admission_of_row now i d r = Inr h" "rows = [h]"
proof -
  have "\<not> db_down d" using assms(2) by (auto simp: http_admissions_def)
  from named_admission [OF assms(1) this, of now i n] assms(2)
  have c: "(case find (connection_row n) (registrations d) of
      None \<Rightarrow> Inr []
    | Some r \<Rightarrow> (case admission_of_row now i d r of Inl e \<Rightarrow> Inl e | Inr h \<Rightarrow> Inr [h])) = Inr rows" by simp
  then obtain r where r: "find (connection_row n) (registrations d) = Some r"
    using assms(3) by (cases "find (connection_row n) (registrations d)") simp_all
  with c obtain h where h: "admission_of_row now i d r = Inr h" "rows = [h]"
    by (cases "admission_of_row now i d r") simp_all
  from r have "r \<in> set (registrations d)" "connection_row n r" by (auto dest: find_SomeD)
  with h show thesis using that by blast
qed

lemma discovery_members:
  assumes "\<not> db_down d"
  obtains rows where "http_admissions now i None d = Inr rows"
    and "set rows = {h. \<exists>r \<in> set (registrations d). (rg_kind r = ''tool'' \<or> rg_kind r = ''model'') \<and> admission_of_row now i d r = Inr h}"
proof -
  let ?g = "\<lambda>r. case r of Inr a \<Rightarrow> Some a | Inl (_ :: admission_unavailable) \<Rightarrow> None"
  let ?rows = "sort_key rg_name (filter (\<lambda>r. rg_kind r = ''tool'' \<or> rg_kind r = ''model'') (registrations d))"
  have g: "?g x = Some h \<longleftrightarrow> x = Inr h" for x h by (cases x) auto
  have "http_admissions now i None d = Inr (List.map_filter ?g (map (admission_of_row now i d) ?rows))"
    using assms by (simp add: http_admissions_def)
  moreover have "set (List.map_filter ?g (map (admission_of_row now i d) ?rows)) =
      {h. \<exists>r \<in> set (registrations d). (rg_kind r = ''tool'' \<or> rg_kind r = ''model'') \<and> admission_of_row now i d r = Inr h}"
    unfolding set_map_filter_option g set_map set_sort set_filter bex_simps by (simp add: conj_ac Bex_def)
  ultimately show thesis by (rule that)
qed

lemma admission_of_row_allowed:
  assumes "joined_agent i d = Some a"
  shows "(\<exists>h. admission_of_row now i d row = Inr h \<and> ha_agent_active h \<and> ha_grant h = Inr () \<and> ha_registration h = reg) \<longleftrightarrow>
    row_allows now a (rg_name row) \<and> row_to_registration row = Inr reg
    \<and> (\<forall>b. joined_binding (Some a) (rg_name row) d = Some b \<longrightarrow> ov_auth_spec b \<noteq> JBad)" (is "?l \<longleftrightarrow> ?r")
proof
  assume ?l
  then obtain h where h: "admission_of_row now i d row = Inr h" "ha_agent_active h" "ha_grant h = Inr ()" "ha_registration h = reg"
    by blast
  from admission_of_row_InrD [OF h(1)] h(2-4) assms show ?r by (auto simp: option.map_sel)
next
  assume r: ?r
  then have "rg_name row \<in> set (reviewed_grants a)" by (simp add: row_allows_def)
  then obtain al where al: "ag_tool_allowlist a = map_option JVal (Some al)"
    by (cases "ag_tool_allowlist a"; cases "the (ag_tool_allowlist a)") (auto simp: reviewed_grants_def)
  from r have "ag_tool_denylist a \<noteq> Some JBad" by (auto simp: row_allows_def)
  then have "admission_list (ag_tool_denylist a) \<noteq> Inl e" for e
    by (auto simp: admission_list_def split: option.splits jcol.splits)
  then obtain dl where dl: "ag_tool_denylist a = map_option JVal dl"
    by (metis admission_list_Inr_iff sum.exhaust)
  from r obtain ac where "(case joined_binding (Some a) (rg_name row) d of None \<Rightarrow> Inr None
       | Some b \<Rightarrow> (case ov_auth_spec b of JVal s \<Rightarrow> Inr (Some s) | JBad \<Rightarrow> Inl AdmissionUnavailable)) = Inr ac"
    by (cases "joined_binding (Some a) (rg_name row) d"; cases "ov_auth_spec (the (joined_binding (Some a) (rg_name row) d))") auto
  moreover from al dl have "admission_list (ag_tool_allowlist a) = Inr (Some al)" "admission_list (ag_tool_denylist a) = Inr dl"
    by simp_all
  ultimately have "\<exists>h. admission_of_row now i d row = Inr h \<and> ha_registration h = reg"
    using r assms unfolding admission_of_row_def Let_def
    by (cases "ag_grants_reviewed a") (simp_all del: admission_list_Inr_iff)
  then obtain h where h: "admission_of_row now i d row = Inr h" "ha_registration h = reg" by blast
  from admission_of_row_InrD(5) [OF h(1) assms] r h show ?l by blast
qed

text \<open>The names a listing shows.\<close>

definition listed_names :: "json list \<Rightarrow> string set" where
  "listed_names items = {n. \<exists>j \<in> set items. Option.bind (json_get ''name'' j) json_as_str = Some n}"

lemma service_entry_name [simp]:
  "Option.bind (json_get ''name'' (service_entry C to_json a)) json_as_str = Some (reg_name (ha_registration a))"
  by (auto simp: service_entry_def Let_def split: sum.split option.split)

lemma row_to_registration_fields:
  assumes "row_to_registration r = Inr reg"
  shows "reg_name reg = rg_name r" and "reg_kind reg = k \<longleftrightarrow> rg_kind r = kind_as_str k" and "reg_disabled reg = rg_disabled r"
proof -
  from assms show "reg_name reg = rg_name r" "reg_disabled reg = rg_disabled r" by (auto simp: row_to_registration_def)
  from assms have "row_kind (rg_kind r) = Inr (reg_kind reg)" by (auto simp: row_to_registration_def)
  then show "reg_kind reg = k \<longleftrightarrow> rg_kind r = kind_as_str k"
    by (cases k) (auto simp: row_kind_def split: if_splits)
qed


definition demo_identity :: agent_identity where
  "demo_identity = \<lparr>ai_id = 1, ai_public_id = ''abcdefgh'', ai_name = ''hermes'',
     ai_tool_allowlist = Some [''github''], ai_tool_denylist = None\<rparr>"

definition demo_state :: app_state where
  "demo_state = \<lparr>st_listener = demo_listener, st_client_pool = client_pool_new, st_audit = True,
     st_resolved_creds = Map.empty, st_response_controls = Map.empty, st_registrations = True,
     st_catalog = [(''github'', demo_reg)], st_oauth = None, st_agent_creds = True,
     st_credential_sealing_key = None, st_credential_secrets = False, st_operational_log = None,
     st_op_resolver = None\<rparr>"

lemma demo_row: "row_to_registration (registration_to_row demo_reg) = Inr demo_reg"
  by (simp add: row_to_registration_to_row) (simp add: demo_reg_def registration_new_def)

lemma demo_allows: "row_allows 200 demo_agent ''github''"
  by (simp add: row_allows_def demo_agent_def reviewed_grants_def)


end
