(* ===== verification/Proxy.thy ===== *)
theory Proxy
  imports Admission
begin

text \<open>
  The proxy hot path: \<open>proxy.rs\<close>, \<open>proxy/admission.rs\<close> and \<open>proxy/selection.rs\<close>.  One request is handled
  in one step: the database reads of a request, and the OAuth refresh under its session lock, see one
  database.  The upstream is a parameter: \<open>pe_send\<close> gives its reply to the request that leaves.  The
  environment, the URL parser, the AEAD cipher, the JSON and regex libraries and the clock readings of a
  request are the other fields of \<open>proxy_env\<close>.  Header names are in lower case, as the \<open>http\<close> crate
  keeps them.
\<close>

section \<open>Types\<close>

record request_ctx =
  cx_tool_name :: string
  cx_request_path :: string
  cx_method :: string
  cx_auth_method :: string
  cx_agent_public_id :: "string option"
  cx_agent_name :: "string option"
  cx_codex_body_fixup :: "json option"

datatype proxy_auth =
    PaNone
  | PaHeader (pa_header: string) (pa_mode: string) (pa_override: "string option")
  | PaBearer (pa_override: "string option")
  | PaStored (pa_opt_header: "string option") (pa_mode: string) (pa_secret_ref: string) (pa_resolved: "string option")
  | PaOp (pa_opt_header: "string option") (pa_mode: string) (pa_reference: string) (pa_resolved: "string option")
  | PaOauth (pa_mode: string) (pa_session_id: string) (pa_access_token: "string option") (pa_account_id: "string option")

record proxy_target =
  pt_name :: string
  pt_upstream :: string
  pt_body_limit_bytes :: u64
  pt_timeouts :: tool_timeouts
  pt_egress :: egress_mode
  pt_auth :: proxy_auth
  pt_auth_source :: string
  pt_oauth_session_label :: "string option"
  pt_oauth_selection :: "auth_spec option"

record upstream_request =
  ur_client :: http_client
  ur_method :: string
  ur_url :: string
  ur_headers :: "(string \<times> string) list"
  ur_body :: "string option"

record upstream_response =
  us_status :: "16 word"
  us_headers :: "(string \<times> string) list"
  us_events :: "body_event list"

datatype upstream_result = UpTimeout | UpFailed | UpReply upstream_response

datatype proxy_reply = Full http_response | Streamed nat "(string \<times> string) list" capped_stream

record proxy_env =
  pe_vars :: "string \<Rightarrow> string option"
  pe_parse_url :: "string \<Rightarrow> url_view option"
  pe_seal :: seal_lib
  pe_refresh :: refresh_env
  pe_json :: json_lib
  pe_regex :: regex_lib
  pe_client :: client_env
  pe_send :: "upstream_request \<Rightarrow> upstream_result"
  pe_now :: int
  pe_degraded_at :: int
  pe_now_ms :: int
  pe_latency_ms :: u64
  pe_body_fails :: bool

section \<open>Request context\<close>

definition ctx_snapshot ::
    "http_request \<Rightarrow> authenticated_as option \<Rightarrow> agent_identity option \<Rightarrow> string \<Rightarrow> request_ctx" where
  "ctx_snapshot req as_method identity tool_name =
    \<lparr>cx_tool_name = tool_name, cx_request_path = rq_path req, cx_method = rq_method req,
     cx_auth_method = (if as_method = Some AsMtls then ''mtls'' else ''bearer''),
     cx_agent_public_id = map_option ai_public_id identity, cx_agent_name = map_option ai_name identity,
     cx_codex_body_fixup = None\<rparr>"

definition audit_event_base :: "proxy_env \<Rightarrow> request_ctx \<Rightarrow> audit_event" where
  "audit_event_base P ctx =
    default_event\<lparr>ae_ts_ms := pe_now_ms P, ae_tool := Some (cx_tool_name ctx), ae_method := Some (cx_method ctx),
      ae_path := Some (cx_request_path ctx), ae_latency_ms := Some (pe_latency_ms P),
      ae_auth_method := Some (cx_auth_method ctx), ae_agent_public_id := cx_agent_public_id ctx\<rparr>"

fun audit_mode :: "proxy_auth \<Rightarrow> string" where
  "audit_mode PaNone = ''none''"
| "audit_mode (PaHeader _ m _) = m"
| "audit_mode (PaBearer _) = ''bearer''"
| "audit_mode (PaStored _ m _ _) = m"
| "audit_mode (PaOp _ m _ _) = m"
| "audit_mode (PaOauth m _ _ _) = m"

fun oauth_session_id :: "proxy_auth \<Rightarrow> string option" where
  "oauth_session_id (PaOauth _ sid _ _) = Some sid"
| "oauth_session_id _ = None"

fun strip_header_lower :: "proxy_auth \<Rightarrow> string option" where
  "strip_header_lower PaNone = None"
| "strip_header_lower (PaHeader h _ _) = Some (to_lower h)"
| "strip_header_lower (PaBearer _) = None"
| "strip_header_lower (PaStored h _ _ _) = map_option to_lower h"
| "strip_header_lower (PaOp h _ _ _) = map_option to_lower h"
| "strip_header_lower (PaOauth _ _ _ _) = None"

section \<open>Targets\<close>

fun registration_auth :: "auth_spec \<Rightarrow> proxy_auth" where
  "registration_auth AuthNone = PaNone"
| "registration_auth (Header h _) = PaHeader h ''header'' None"
| "registration_auth (Bearer _) = PaBearer None"
| "registration_auth (StoredHeader h r) = PaStored (Some h) ''stored_header'' r None"
| "registration_auth (StoredBearer r) = PaStored None ''stored_bearer'' r None"
| "registration_auth (OpHeader h r) = PaOp (Some h) ''op_header'' r None"
| "registration_auth (OpBearer r) = PaOp None ''op_bearer'' r None"
| "registration_auth (OauthPkce _ _ _ _ _ _) = PaOauth ''oauth_pkce'' [] None None"
| "registration_auth (OauthDeviceCode _ _ _ _ _) = PaOauth ''oauth_device_code'' [] None None"

definition from_registration :: "registration \<Rightarrow> proxy_target" where
  "from_registration r =
    \<lparr>pt_name = reg_name r, pt_upstream = reg_upstream r, pt_body_limit_bytes = reg_body_limit_bytes r,
     pt_timeouts = reg_timeouts r, pt_egress = reg_egress r, pt_auth = registration_auth (reg_auth r),
     pt_auth_source = ''registration_default'', pt_oauth_session_label = None, pt_oauth_selection = None\<rparr>"

definition from_tool_config :: "tool_config \<Rightarrow> proxy_target" where
  "from_tool_config t =
    \<lparr>pt_name = tc_name t, pt_upstream = tc_upstream t, pt_body_limit_bytes = tc_body_limit_bytes t,
     pt_timeouts = tc_timeouts t, pt_egress = tc_egress t,
     pt_auth = (case tc_auth t of None \<Rightarrow> PaNone | Some a \<Rightarrow> PaHeader (ta_header a) ''config'' None),
     pt_auth_source = ''registration_default'', pt_oauth_session_label = None, pt_oauth_selection = None\<rparr>"

definition resolve_target :: "app_state \<Rightarrow> string \<Rightarrow> proxy_target option" where
  "resolve_target st name =
    (case lookup_active (st_catalog st) name of
       Some r \<Rightarrow> Some (from_registration r)
     | None \<Rightarrow> map_option from_tool_config (find (\<lambda>t. tc_name t = name) (active_tools (st_config st))))"

section \<open>Responses that record an audit row\<close>

definition proxy_audit :: "app_state \<Rightarrow> audit_event \<Rightarrow> db \<Rightarrow> db" where
  "proxy_audit st e d = note_event (st_audit st) e d"

definition error_json :: "(string \<times> json) list \<Rightarrow> json" where
  "error_json fs = JObj [(''error'', JObj fs)]"

definition record_authz_denied ::
    "proxy_env \<Rightarrow> app_state \<Rightarrow> request_ctx \<Rightarrow> string \<Rightarrow> db \<Rightarrow> http_response \<times> db" where
  "record_authz_denied P st ctx reason d =
    (json_response 403 (error_json [(''code'', JStr ''tool_not_allowed''), (''message'', JStr ''tool access denied''),
       (''type'', JStr ''authz_error'')]),
     proxy_audit st ((audit_event_base P ctx)\<lparr>ae_event_class := EcSecurity, ae_event := ''authz_denied'',
       ae_status := Some 403, ae_decision := Denied, ae_details := Some (JObj [(''reason'', JStr reason)])\<rparr>) d)"

definition record_tool_not_found :: "proxy_env \<Rightarrow> app_state \<Rightarrow> request_ctx \<Rightarrow> db \<Rightarrow> http_response \<times> db" where
  "record_tool_not_found P st ctx d =
    (json_response 404 (error_json [(''code'', JStr ''tool_not_found''),
       (''message'', JStr (''Unknown tool: '' @ cx_tool_name ctx)), (''type'', JStr ''not_found'')]),
     proxy_audit st ((audit_event_base P ctx)\<lparr>ae_event_class := EcProxy, ae_event := ''tool_not_found'',
       ae_status := Some 404, ae_decision := Denied\<rparr>) d)"

definition record_body_read_error ::
    "proxy_env \<Rightarrow> app_state \<Rightarrow> request_ctx \<Rightarrow> string option \<Rightarrow> db \<Rightarrow> http_response \<times> db" where
  "record_body_read_error P st ctx upstream_host d =
    (json_response 400 (error_json [(''message'', JStr ''Failed to read request body''), (''type'', JStr ''bad_request'')]),
     proxy_audit st ((audit_event_base P ctx)\<lparr>ae_event_class := EcProxy, ae_event := ''request_body_read_error'',
       ae_status := Some 400, ae_decision := DecisionError, ae_upstream_host := upstream_host\<rparr>) d)"

definition record_codex_body_too_large ::
    "proxy_env \<Rightarrow> app_state \<Rightarrow> request_ctx \<Rightarrow> string option \<Rightarrow> db \<Rightarrow> http_response \<times> db" where
  "record_codex_body_too_large P st ctx upstream_host d =
    (json_response 413 (error_json [(''code'', JStr ''codex_body_too_large''),
       (''message'', JStr (''Codex request body exceeds '' @ dec_digits MAX_BODY_BYTES @ '' byte cap'')),
       (''type'', JStr ''payload_too_large'')]),
     proxy_audit st ((audit_event_base P ctx)\<lparr>ae_event_class := EcProxy, ae_event := ''codex_body_too_large'',
       ae_status := Some 413, ae_decision := Denied, ae_upstream_host := upstream_host\<rparr>) d)"

definition record_response_content_type_disallowed ::
    "proxy_env \<Rightarrow> app_state \<Rightarrow> request_ctx \<Rightarrow> string option \<Rightarrow> string option \<Rightarrow> db \<Rightarrow> http_response \<times> db" where
  "record_response_content_type_disallowed P st ctx upstream_host observed d =
    (json_response 502 (error_json [(''message'', JStr ''upstream content-type not allowed''),
       (''type'', JStr ''response_content_type_disallowed'')]),
     proxy_audit st ((audit_event_base P ctx)\<lparr>ae_event_class := EcProxy, ae_event := ''response_content_type_disallowed'',
       ae_status := Some 502, ae_decision := Denied, ae_upstream_host := upstream_host,
       ae_details := Some (JObj [(''observed_content_type'', jopt JStr observed)])\<rparr>) d)"

definition audit_details :: "request_ctx \<Rightarrow> proxy_target \<Rightarrow> json" where
  "audit_details ctx target =
    JObj ([(''auth_mode'', JStr (audit_mode (pt_auth target))), (''auth_source'', JStr (pt_auth_source target))]
      @ (case cx_codex_body_fixup ctx of Some f \<Rightarrow> [(''codex_body_fixup'', f)] | None \<Rightarrow> [])
      @ (case oauth_session_id (pt_auth target) of Some sid \<Rightarrow> [(''oauth_session_id'', JStr sid)] | None \<Rightarrow> [])
      @ (case pt_oauth_session_label target of Some l \<Rightarrow> [(''oauth_session_label'', JStr l)] | None \<Rightarrow> []))"

definition record_proxy_request_success ::
    "proxy_env \<Rightarrow> app_state \<Rightarrow> request_ctx \<Rightarrow> proxy_target \<Rightarrow> string option \<Rightarrow> 16 word \<Rightarrow> db \<Rightarrow> db" where
  "record_proxy_request_success P st ctx target upstream_host upstream_status d =
    proxy_audit st ((audit_event_base P ctx)\<lparr>ae_event_class := EcProxy, ae_event := ''proxy_request'',
      ae_status := Some upstream_status,
      ae_decision := (if 500 \<le> upstream_status then DecisionError else Allowed),
      ae_upstream_host := upstream_host, ae_details := Some (audit_details ctx target)\<rparr>) d"

definition record_upstream_error ::
    "proxy_env \<Rightarrow> app_state \<Rightarrow> request_ctx \<Rightarrow> proxy_target \<Rightarrow> string option \<Rightarrow> bool \<Rightarrow> db \<Rightarrow> http_response \<times> db" where
  "record_upstream_error P st ctx target upstream_host is_timeout d =
    (let (status, k, message) = (if is_timeout then (504, ''timeout'', ''Upstream timeout'')
           else (502, ''upstream_error'', ''Upstream error'')) in
     (json_response status (error_json [(''message'', JStr message), (''type'', JStr k)]),
      proxy_audit st ((audit_event_base P ctx)\<lparr>ae_event_class := EcProxy, ae_event := k,
        ae_status := Some (of_nat status), ae_decision := DecisionError, ae_upstream_host := upstream_host,
        ae_details := Some (audit_details ctx target)\<rparr>) d))"

definition record_upstream_body_read_error ::
    "proxy_env \<Rightarrow> app_state \<Rightarrow> request_ctx \<Rightarrow> string option \<Rightarrow> string \<Rightarrow> db \<Rightarrow> http_response \<times> db" where
  "record_upstream_body_read_error P st ctx upstream_host e d =
    (json_response 502 (error_json [(''message'', JStr ''upstream body read failed''), (''type'', JStr ''upstream_error'')]),
     proxy_audit st ((audit_event_base P ctx)\<lparr>ae_event_class := EcProxy, ae_event := ''upstream_body_read_error'',
       ae_status := Some 502, ae_decision := DecisionError, ae_upstream_host := upstream_host,
       ae_details := Some (JObj [(''error'', JStr e)])\<rparr>) d)"

definition record_response_size_exceeded_buffered ::
    "proxy_env \<Rightarrow> app_state \<Rightarrow> request_ctx \<Rightarrow> string option \<Rightarrow> nat \<Rightarrow> u64 \<Rightarrow> db \<Rightarrow> http_response \<times> db" where
  "record_response_size_exceeded_buffered P st ctx upstream_host observed cap d =
    (json_response 502 (error_json [(''message'', JStr ''response too large''), (''type'', JStr ''response_size_exceeded'')]),
     proxy_audit st ((audit_event_base P ctx)\<lparr>ae_event_class := EcProxy, ae_event := ''response_size_exceeded'',
       ae_status := Some 502, ae_decision := Denied, ae_upstream_host := upstream_host,
       ae_details := Some (JObj [(''cap_bytes'', JNum (uint cap)), (''flow'', JStr ''non_streaming''),
         (''observed_bytes'', JNum (int observed))])\<rparr>) d)"

definition record_response_redaction ::
    "proxy_env \<Rightarrow> app_state \<Rightarrow> request_ctx \<Rightarrow> string option \<Rightarrow> 16 word \<Rightarrow> redaction_record \<Rightarrow> db \<Rightarrow> db" where
  "record_response_redaction P st ctx upstream_host upstream_status rr d =
    proxy_audit st ((audit_event_base P ctx)\<lparr>ae_event_class := EcProxy, ae_event := ''response_redaction'',
      ae_status := Some upstream_status, ae_decision := Allowed, ae_upstream_host := upstream_host,
      ae_details := Some (JObj [(''match_hash'', JStr (rr_match_hash rr)), (''matches'', JNum (int (rr_matches rr))),
        (''pattern_id'', JStr (rr_pattern_id rr))])\<rparr>) d"

definition oauth_unavailable_envelope :: "nat \<Rightarrow> string \<Rightarrow> string \<Rightarrow> http_response" where
  "oauth_unavailable_envelope status code message =
    json_response status (error_json [(''code'', JStr code), (''message'', JStr message), (''type'', JStr ''auth_error'')])"

definition record_oauth_unavailable :: "proxy_env \<Rightarrow> app_state \<Rightarrow> request_ctx \<Rightarrow> string \<Rightarrow> db \<Rightarrow> db" where
  "record_oauth_unavailable P st ctx cause d =
    proxy_audit st ((audit_event_base P ctx)\<lparr>ae_event_class := EcProxy, ae_event := ''oauth_unavailable'',
      ae_status := Some 503, ae_decision := DecisionError, ae_details := Some (JObj [(''oauth_cause'', JStr cause)])\<rparr>) d"

definition stored_unavailable_envelope :: "string \<Rightarrow> http_response" where
  "stored_unavailable_envelope message =
    json_response 503 (error_json [(''code'', JStr ''credential_unresolved''), (''message'', JStr message),
      (''type'', JStr ''auth_error'')])"

definition record_stored_unavailable :: "proxy_env \<Rightarrow> app_state \<Rightarrow> request_ctx \<Rightarrow> string \<Rightarrow> db \<Rightarrow> db" where
  "record_stored_unavailable P st ctx cause d =
    proxy_audit st ((audit_event_base P ctx)\<lparr>ae_event_class := EcProxy, ae_event := ''credential_unavailable'',
      ae_status := Some 503, ae_decision := DecisionError, ae_details := Some (JObj [(''credential_cause'', JStr cause)])\<rparr>) d"

section \<open>Selecting the account\<close>

datatype failure = IdentityRequired | Missing | StoreUnavailable | CredentialUnavailable

definition record_failure ::
    "proxy_env \<Rightarrow> app_state \<Rightarrow> request_ctx \<Rightarrow> failure \<Rightarrow> db \<Rightarrow> http_response \<times> db" where
  "record_failure P st ctx f d =
    (case f of
       IdentityRequired \<Rightarrow>
         (json_response 401 (error_json [(''code'', JStr ''agent_identity_required''), (''message'', JStr UPGRADE_MESSAGE),
            (''type'', JStr ''auth_error'')]),
          proxy_audit st ((audit_event_base P ctx)\<lparr>ae_event_class := EcSecurity, ae_event := ''authz_denied'',
            ae_status := Some 401, ae_decision := Denied,
            ae_details := Some (JObj [(''reason'', JStr ''agent_identity_required'')])\<rparr>) d)
     | Missing \<Rightarrow> record_authz_denied P st ctx ''account_binding_missing'' d
     | StoreUnavailable \<Rightarrow>
         (stored_unavailable_envelope ''selected account credential is unavailable'',
          record_stored_unavailable P st ctx ''account_binding_unavailable'' d)
     | CredentialUnavailable \<Rightarrow>
         (stored_unavailable_envelope ''selected account credential is unavailable'',
          record_stored_unavailable P st ctx ''selected_credential_unavailable'' d))"

definition selected_env :: "proxy_env \<Rightarrow> string \<Rightarrow> failure + string" where
  "selected_env P name =
    (case pe_vars P name of
       Some v \<Rightarrow> if v \<noteq> [] then Inr v else Inl CredentialUnavailable
     | None \<Rightarrow> Inl CredentialUnavailable)"

definition apply_oauth :: "proxy_env \<Rightarrow> proxy_target \<Rightarrow> auth_spec \<Rightarrow> failure + proxy_target" where
  "apply_oauth P target spec =
    (if selected_parameters (pe_parse_url P) spec = None then Inl CredentialUnavailable
     else case oauth_session_label spec of
       Some label \<Rightarrow>
         if str_trim label \<noteq> [] then
           Inr (target\<lparr>pt_oauth_session_label := Some label, pt_oauth_selection := Some spec,
             pt_auth := PaOauth (case spec of OauthPkce _ _ _ _ _ _ \<Rightarrow> ''oauth_pkce'' | _ \<Rightarrow> ''oauth_device_code'') [] None None\<rparr>)
         else Inl CredentialUnavailable
     | None \<Rightarrow> Inl CredentialUnavailable)"

text \<open>The last arm of \<open>apply_custody_spec\<close> is unreachable: it is called for the custody and OAuth
  specifications only.\<close>

fun apply_spec :: "proxy_env \<Rightarrow> proxy_target \<Rightarrow> auth_spec \<Rightarrow> failure + proxy_target" where
  "apply_spec P target AuthNone = Inr (target\<lparr>pt_auth := PaNone\<rparr>)"
| "apply_spec P target (Header h env_var) =
    result_bind (selected_env P env_var) (\<lambda>v. Inr (target\<lparr>pt_auth := PaHeader h ''header'' (Some v)\<rparr>))"
| "apply_spec P target (Bearer env_var) =
    result_bind (selected_env P env_var) (\<lambda>v. Inr (target\<lparr>pt_auth := PaBearer (Some v)\<rparr>))"
| "apply_spec P target (StoredHeader h r) = Inr (target\<lparr>pt_auth := PaStored (Some h) ''stored_header'' r None\<rparr>)"
| "apply_spec P target (StoredBearer r) = Inr (target\<lparr>pt_auth := PaStored None ''stored_bearer'' r None\<rparr>)"
| "apply_spec P target (OpHeader h r) = Inr (target\<lparr>pt_auth := PaOp (Some h) ''op_header'' r None\<rparr>)"
| "apply_spec P target (OpBearer r) = Inr (target\<lparr>pt_auth := PaOp None ''op_bearer'' r None\<rparr>)"
| "apply_spec P target spec = apply_oauth P target spec"

definition selection_apply ::
    "proxy_env \<Rightarrow> app_state \<Rightarrow> proxy_target \<Rightarrow> agent_identity option \<Rightarrow> db \<Rightarrow> failure + proxy_target" where
  "selection_apply P st target identity d =
    (case identity of
       None \<Rightarrow> if pt_auth target = PaNone then Inr target else Inl IdentityRequired
     | Some i \<Rightarrow>
         if \<not> st_agent_creds st then Inl StoreUnavailable
         else (case creds_get (ai_id i) (pt_name target) d of
            Inl _ \<Rightarrow> Inl StoreUnavailable
          | Inr None \<Rightarrow> Inl Missing
          | Inr (Some row) \<Rightarrow>
              result_bind (apply_spec P target (co_auth_spec row)) (\<lambda>t. Inr (t\<lparr>pt_auth_source := ''agent_override''\<rparr>))))"

definition oauth_consistent :: "proxy_env \<Rightarrow> app_state \<Rightarrow> proxy_target \<Rightarrow> string \<Rightarrow> db \<Rightarrow> bool" where
  "oauth_consistent P st target label d =
    (case pt_oauth_selection target of
       None \<Rightarrow> False
     | Some spec \<Rightarrow> st_agent_creds st \<and> selected_source (pe_parse_url P) (pt_name target) label d = Inr (Some spec))"

section \<open>Admission\<close>

definition admission_unavailable_response ::
    "proxy_env \<Rightarrow> app_state \<Rightarrow> request_ctx \<Rightarrow> string \<Rightarrow> db \<Rightarrow> http_response \<times> db" where
  "admission_unavailable_response P st ctx code d =
    (json_response 503 (error_json [(''code'', JStr code),
       (''message'', JStr ''connection admission unavailable; ask the operator to check persisted configuration and runtime activation''),
       (''type'', JStr ''availability_error'')]),
     proxy_audit st ((audit_event_base P ctx)\<lparr>ae_status := Some 503, ae_decision := Denied,
       ae_details := Some (JObj [(''cause'', JStr code)])\<rparr>) d)"

definition record_agent_inactive :: "proxy_env \<Rightarrow> app_state \<Rightarrow> request_ctx \<Rightarrow> db \<Rightarrow> http_response \<times> db" where
  "record_agent_inactive P st ctx d =
    (json_response 401 (error_json [(''code'', JStr ''invalid_credential''), (''message'', JStr ''agent is no longer active''),
       (''type'', JStr ''auth_error'')]),
     proxy_audit st ((audit_event_base P ctx)\<lparr>ae_event_class := EcSecurity, ae_event := ''authz_denied'',
       ae_status := Some 401, ae_decision := Denied,
       ae_details := Some (JObj [(''reason'', JStr ''agent_inactive_at_admission'')])\<rparr>) d)"

definition refuse :: "http_response \<times> db \<Rightarrow> (http_response + 'a) \<times> db" where
  "refuse r = (Inl (fst r), snd r)"

definition admission_target ::
    "proxy_env \<Rightarrow> app_state \<Rightarrow> request_ctx \<Rightarrow> agent_identity option \<Rightarrow> db \<Rightarrow> (http_response + proxy_target) \<times> db" where
  "admission_target P st ctx identity d =
    (case identity of
       None \<Rightarrow> refuse (record_failure P st ctx IdentityRequired d)
     | Some i \<Rightarrow>
         if \<not> st_agent_creds st then refuse (record_failure P st ctx StoreUnavailable d)
         else case http_admissions (pe_now P) i (Some (cx_tool_name ctx)) d of
           Inl _ \<Rightarrow> refuse (record_failure P st ctx StoreUnavailable d)
         | Inr rows \<Rightarrow>
             if rows = [] then refuse (record_tool_not_found P st ctx d)
             else
               let row = last rows in
               if \<not> ha_agent_active row then refuse (record_agent_inactive P st ctx d)
               else case ha_grant row of
                 Inl reason \<Rightarrow> refuse (record_authz_denied P st ctx reason d)
               | Inr _ \<Rightarrow>
                   if reg_disabled (ha_registration row) then refuse (record_tool_not_found P st ctx d)
                   else if activation (ha_registration row) (Some (st_catalog st)) \<noteq> ''active''
                   then refuse (admission_unavailable_response P st ctx ''connection_not_active'' d)
                   else case ha_account row of
                     None \<Rightarrow> refuse (record_failure P st ctx Missing d)
                   | Some account \<Rightarrow>
                       (case apply_spec P (from_registration (ha_registration row)) account of
                          Inl f \<Rightarrow> refuse (record_failure P st ctx f d)
                        | Inr target \<Rightarrow> (Inr (target\<lparr>pt_auth_source := ''agent_override''\<rparr>), d)))"

section \<open>Materialising the credential\<close>

definition oauth_refused :: "string \<Rightarrow> string \<Rightarrow> string \<Rightarrow> http_response \<times> string" where
  "oauth_refused code message cause = (oauth_unavailable_envelope 503 code message, cause)"

definition oauth_mode :: "proxy_target \<Rightarrow> string" where
  "oauth_mode target = (case pt_auth target of PaOauth m _ _ _ \<Rightarrow> m | _ \<Rightarrow> ''oauth_unknown'')"

definition needs_refresh :: "int \<Rightarrow> oauth_session \<Rightarrow> bool" where
  "needs_refresh now s =
    (case ss_access_token s of
       None \<Rightarrow> True
     | Some _ \<Rightarrow> (case ss_access_token_expires_at s of Some e \<Rightarrow> e \<le> i64_add now 60 | None \<Rightarrow> False))"

definition session_auth :: "proxy_env \<Rightarrow> string \<Rightarrow> oauth_session \<Rightarrow> proxy_auth" where
  "session_auth P mode s =
    PaOauth mode (audit_session_id (pe_seal P) s) (ss_access_token s) (ss_account_id s)"

definition resolve_session ::
    "proxy_env \<Rightarrow> sealing_key \<Rightarrow> proxy_target \<Rightarrow> string \<Rightarrow> oauth_session \<Rightarrow> db
       \<Rightarrow> ((http_response \<times> string) + proxy_auth) \<times> db" where
  "resolve_session P key target label session d =
    (if ss_degraded session then
       (Inl (oauth_refused ''oauth_refresh_failed'' (''OAuth session degraded '' @ em_dash @ '' operator must re-bootstrap'') ''degraded''), d)
     else if ss_access_token session = Some [] \<or> ss_refresh_token session = [] then
       (Inl (oauth_refused ''oauth_session_empty'' ''selected OAuth session contains an empty token'' ''session_empty''), d)
     else if needs_refresh (pe_now P) session then
       (case pt_oauth_selection target of
          None \<Rightarrow>
            (Inl (oauth_refused ''oauth_selection_unavailable'' ''explicit OAuth selection is unavailable''
               ''selection_unavailable''), d)
        | Some selected \<Rightarrow>
            (case refresh_selected_session (pe_seal P) (pe_parse_url P) (pe_refresh P) selected key session d of
               (Inr updated, d') \<Rightarrow> (Inr (session_auth P (oauth_mode target) updated), d')
             | (Inl e, d') \<Rightarrow>
                 (Inl (oauth_refused ''oauth_refresh_failed'' (''OAuth refresh failed '' @ em_dash @ '' operator must re-bootstrap'')
                    (audit_cause e)),
                  snd (mark_degraded (pe_degraded_at P) (pt_name target) label d'))))
     else (Inr (session_auth P (oauth_mode target) session), d))"

definition resolve_oauth_token ::
    "proxy_env \<Rightarrow> app_state \<Rightarrow> proxy_target \<Rightarrow> string \<Rightarrow> db
       \<Rightarrow> ((http_response \<times> string) + proxy_auth) \<times> app_state \<times> db" where
  "resolve_oauth_token P st target label d =
    (case st_oauth st of
       None \<Rightarrow>
         (Inl (oauth_refused ''oauth_sealing_key_unset''
            ''OAuth registration requires LOCKSMITH_OAUTH_SEALING_KEY at daemon startup'' ''sealing_key_unset''), st, d)
     | Some rt \<Rightarrow>
         let st' = st\<lparr>st_oauth := Some (rt\<lparr>ort_locks := snd (lock_get (pt_name target) label (ort_locks rt))\<rparr>)\<rparr> in
         if \<not> oauth_consistent P st target label d then
           (Inl (oauth_refused ''oauth_selection_unavailable'' ''OAuth session requires consistent explicit selections''
              ''selection_unavailable''), st', d)
         else case oauth_get (pe_seal P) (ort_sealing_key rt) (pt_name target) label d of
           Inr None \<Rightarrow>
             (Inl (oauth_refused ''oauth_session_missing'' ''OAuth session not bootstrapped for this registration''
                ''session_missing''), st', d)
         | Inl _ \<Rightarrow>
             (Inl (oauth_refused ''oauth_session_read_failed'' ''OAuth session unavailable (sealing failure)''
                ''session_read_failed''), st', d)
         | Inr (Some session) \<Rightarrow>
             (case resolve_session P (ort_sealing_key rt) target label session d of (r, d') \<Rightarrow> (r, st', d')))"

definition resolve_stored_credential ::
    "proxy_env \<Rightarrow> app_state \<Rightarrow> string \<Rightarrow> db \<Rightarrow> (http_response \<times> string) + string" where
  "resolve_stored_credential P st secret_ref d =
    (case st_credential_sealing_key st of
       None \<Rightarrow> Inl (stored_unavailable_envelope
         ''credential store not configured (LOCKSMITH_CREDENTIAL_SEALING_KEY unset)'', ''credential_store_unconfigured'')
     | Some key \<Rightarrow>
         if \<not> st_credential_secrets st then
           Inl (stored_unavailable_envelope
             ''credential store not configured (LOCKSMITH_CREDENTIAL_SEALING_KEY unset)'', ''credential_store_unconfigured'')
         else case secret_get secret_ref d of
           Inr None \<Rightarrow>
             Inl (stored_unavailable_envelope ''stored credential not found (missing or rotated out)'', ''credential_unresolved'')
         | Inl _ \<Rightarrow> Inl (stored_unavailable_envelope ''stored credential store unavailable'', ''store_read_failed'')
         | Inr (Some sealed) \<Rightarrow>
             (case credential_unseal (pe_seal P) key (ss_sealed_value sealed) (ss_nonce sealed) of
                Inr plain \<Rightarrow>
                  if utf8_valid plain \<and> plain \<noteq> [] then Inr plain
                  else Inl (stored_unavailable_envelope ''stored credential could not be decoded'', ''unseal_failed'')
              | Inl _ \<Rightarrow> Inl (stored_unavailable_envelope ''stored credential could not be unsealed'', ''unseal_failed'')))"

definition emit_proxy_log :: "string \<Rightarrow> string \<Rightarrow> string \<Rightarrow> app_state \<Rightarrow> app_state" where
  "emit_proxy_log message name cause st =
    st\<lparr>st_operational_log := map_option (emit \<lparr>le_level = Warn, le_component = CompProxy,
      le_event = ''credential_unresolved'', le_message = message,
      le_fields = Some (JObj [(''cause'', JStr cause), (''registration'', JStr name)])\<rparr>) (st_operational_log st)\<rparr>"

text \<open>The phases of \<open>proxy_handler\<close>: each either answers the request or hands on.\<close>

type_synonym 'a phase = "app_state \<Rightarrow> db \<Rightarrow> (http_response + 'a) \<times> app_state \<times> db"

definition phase_bind :: "'a phase \<Rightarrow> ('a \<Rightarrow> 'b phase) \<Rightarrow> 'b phase" where
  "phase_bind m f st d = (case m st d of (Inl r, st', d') \<Rightarrow> (Inl r, st', d') | (Inr a, st', d') \<Rightarrow> f a st' d')"

definition gate_phase :: "proxy_env \<Rightarrow> request_ctx \<Rightarrow> agent_identity option \<Rightarrow> unit phase" where
  "gate_phase P ctx identity st d =
    (case identity of
       Some i \<Rightarrow>
         (case allows_tool i (cx_tool_name ctx) of
            Inl reason \<Rightarrow> (case record_authz_denied P st ctx reason d of (r, d') \<Rightarrow> (Inl r, st, d'))
          | Inr _ \<Rightarrow> (Inr (), st, d))
     | None \<Rightarrow>
         if credentialed st (cx_tool_name ctx) then
           (case record_failure P st ctx IdentityRequired d of (r, d') \<Rightarrow> (Inl r, st, d'))
         else (Inr (), st, d))"

definition target_phase :: "proxy_env \<Rightarrow> request_ctx \<Rightarrow> agent_identity option \<Rightarrow> proxy_target phase" where
  "target_phase P ctx identity st d =
    (if st_registrations st then (case admission_target P st ctx identity d of (r, d') \<Rightarrow> (r, st, d'))
     else case resolve_target st (cx_tool_name ctx) of
       None \<Rightarrow> (case record_tool_not_found P st ctx d of (r, d') \<Rightarrow> (Inl r, st, d'))
     | Some target \<Rightarrow>
         (case selection_apply P st target identity d of
            Inl f \<Rightarrow> (case record_failure P st ctx f d of (r, d') \<Rightarrow> (Inl r, st, d'))
          | Inr t \<Rightarrow> (Inr t, st, d)))"

definition oauth_phase :: "proxy_env \<Rightarrow> request_ctx \<Rightarrow> proxy_target \<Rightarrow> proxy_target phase" where
  "oauth_phase P ctx target st d =
    (case pt_auth target of
       PaOauth _ _ _ _ \<Rightarrow>
         (case pt_oauth_session_label target of
            None \<Rightarrow> (case record_failure P st ctx CredentialUnavailable d of (r, d') \<Rightarrow> (Inl r, st, d'))
          | Some label \<Rightarrow>
              (case resolve_oauth_token P st target label d of
                 (Inr auth, st', d') \<Rightarrow> (Inr (target\<lparr>pt_auth := auth\<rparr>), st', d')
               | (Inl (r, cause), st', d') \<Rightarrow> (Inl r, st', record_oauth_unavailable P st' ctx cause d')))
     | _ \<Rightarrow> (Inr target, st, d))"

definition stored_phase :: "proxy_env \<Rightarrow> request_ctx \<Rightarrow> proxy_target \<Rightarrow> proxy_target phase" where
  "stored_phase P ctx target st d =
    (case pt_auth target of
       PaStored h m secret_ref _ \<Rightarrow>
         (case resolve_stored_credential P st secret_ref d of
            Inr value \<Rightarrow> (Inr (target\<lparr>pt_auth := PaStored h m secret_ref (Some value)\<rparr>), st, d)
          | Inl (r, cause) \<Rightarrow>
              (Inl r, emit_proxy_log ''stored credential could not be resolved; request failed 503'' (pt_name target) cause st,
               record_stored_unavailable P st ctx cause d))
     | _ \<Rightarrow> (Inr target, st, d))"

definition op_phase :: "proxy_env \<Rightarrow> request_ctx \<Rightarrow> proxy_target \<Rightarrow> proxy_target phase" where
  "op_phase P ctx target st d =
    (case pt_auth target of
       PaOp h m reference _ \<Rightarrow>
         (case Option.bind (st_op_resolver st) (op_get reference) of
            Some value \<Rightarrow>
              if value \<noteq> [] then (Inr (target\<lparr>pt_auth := PaOp h m reference (Some value)\<rparr>), st, d)
              else (Inl (stored_unavailable_envelope ''op:// credential not resolved (cache miss or op unavailable)''),
                    emit_proxy_log ''op:// credential not resolved (cache miss); request failed 503'' (pt_name target)
                      ''op_reference_unresolved'' st,
                    record_stored_unavailable P st ctx ''op_reference_unresolved'' d)
          | None \<Rightarrow>
              (Inl (stored_unavailable_envelope ''op:// credential not resolved (cache miss or op unavailable)''),
               emit_proxy_log ''op:// credential not resolved (cache miss); request failed 503'' (pt_name target)
                 ''op_reference_unresolved'' st,
               record_stored_unavailable P st ctx ''op_reference_unresolved'' d))
     | _ \<Rightarrow> (Inr target, st, d))"

section \<open>The upstream request\<close>

definition url_host :: "string \<Rightarrow> string option" where
  "url_host url =
    (let stripped = (case strip_prefix ''https://'' url of Some s \<Rightarrow> s
           | None \<Rightarrow> (case strip_prefix ''http://'' url of Some s \<Rightarrow> s | None \<Rightarrow> url));
         host = hd (split_by (\<lambda>c. c = CHR ''/'' \<or> c = CHR '':'') stripped)
     in if host = [] then None else Some host)"

definition upstream_url :: "string \<Rightarrow> string \<Rightarrow> string option \<Rightarrow> string" where
  "upstream_url upstream path query =
    (case query of
       Some q \<Rightarrow> if q \<noteq> [] then trim_end_matches (CHR ''/'') upstream @ ''/'' @ path @ ''?'' @ q
                 else trim_end_matches (CHR ''/'') upstream @ ''/'' @ path
     | None \<Rightarrow> trim_end_matches (CHR ''/'') upstream @ ''/'' @ path)"

definition read_request_body :: "proxy_env \<Rightarrow> http_request \<Rightarrow> u64 \<Rightarrow> string option" where
  "read_request_body P req body_limit =
    (if pe_body_fails P \<or> unat body_limit < length (rq_body req) then None else Some (rq_body req))"

definition is_chatgpt_codex_upstream :: "string \<Rightarrow> bool" where
  "is_chatgpt_codex_upstream upstream \<longleftrightarrow> str_contains ''/backend-api/codex'' (to_lower upstream)"

definition request_path_ends_with_responses :: "string \<Rightarrow> bool" where
  "request_path_ends_with_responses path \<longleftrightarrow> ends_with ''/responses'' (to_lower path)"

definition stripped_header :: "proxy_target \<Rightarrow> string \<Rightarrow> bool" where
  "stripped_header target name \<longleftrightarrow>
     (let lower = to_lower name in
      lower = ''host'' \<or> lower = ''authorization'' \<or> lower = ''x-api-key'' \<or> lower = ''content-length''
    \<or> lower = ''transfer-encoding''
    \<or> is_chatgpt_codex_upstream (pt_upstream target) \<and> lower = ''openai-beta''
    \<or> strip_header_lower (pt_auth target) = Some lower)"

definition auth_or_bearer :: "string option \<Rightarrow> string \<Rightarrow> (string \<times> string) list" where
  "auth_or_bearer h value =
    (case h of Some name \<Rightarrow> [(name, value)] | None \<Rightarrow> [(''Authorization'', ''Bearer '' @ value)])"

definition injected_headers :: "app_state \<Rightarrow> proxy_target \<Rightarrow> (string \<times> string) list" where
  "injected_headers st target =
    (case pt_auth target of
       PaNone \<Rightarrow> []
     | PaHeader h _ override \<Rightarrow>
         (case override of
            Some value \<Rightarrow> [(h, value)]
          | None \<Rightarrow> (case st_resolved_creds st (pt_name target) of Some value \<Rightarrow> [(h, value)] | None \<Rightarrow> []))
     | PaBearer override \<Rightarrow>
         (case override of
            Some value \<Rightarrow> [(''Authorization'', ''Bearer '' @ value)]
          | None \<Rightarrow>
              (case st_resolved_creds st (pt_name target) of
                 Some value \<Rightarrow> [(''Authorization'', ''Bearer '' @ value)] | None \<Rightarrow> []))
     | PaStored h _ _ resolved \<Rightarrow> (case resolved of Some value \<Rightarrow> auth_or_bearer h value | None \<Rightarrow> [])
     | PaOp h _ _ resolved \<Rightarrow> (case resolved of Some value \<Rightarrow> auth_or_bearer h value | None \<Rightarrow> [])
     | PaOauth _ _ access_token account_id \<Rightarrow>
         (case access_token of Some token \<Rightarrow> [(''Authorization'', ''Bearer '' @ token)] | None \<Rightarrow> [])
         @ (case account_id of
              Some acct \<Rightarrow> if is_chatgpt_codex_upstream (pt_upstream target) then [(''ChatGPT-Account-ID'', acct)] else []
            | None \<Rightarrow> []))"

definition codex_headers :: "proxy_target \<Rightarrow> (string \<times> string) list \<Rightarrow> string option \<Rightarrow> (string \<times> string) list" where
  "codex_headers target headers agent_name =
    (if is_chatgpt_codex_upstream (pt_upstream target) then
       (''OpenAI-Beta'', ''responses=experimental'')
       # (if list_ex (\<lambda>(name, _). eq_ignore_ascii_case name ''originator'') headers then []
          else [(''originator'', case agent_name of Some n \<Rightarrow> n | None \<Rightarrow> ''locksmith-proxy'')])
     else [])"

definition build_upstream_request ::
    "proxy_env \<Rightarrow> app_state \<Rightarrow> proxy_target \<Rightarrow> string \<Rightarrow> string \<Rightarrow> (string \<times> string) list \<Rightarrow> string
       \<Rightarrow> string option \<Rightarrow> upstream_request \<times> app_state" where
  "build_upstream_request P st target method url headers body agent_name =
    (case get_or_build_for (pe_client P) (pt_name target) (pt_timeouts target) (pt_egress target) (st_config st)
            (st_client_pool st) of
       (client, pool) \<Rightarrow>
         (\<lparr>ur_client = client, ur_method = method, ur_url = url,
           ur_headers = filter (\<lambda>(name, _). \<not> stripped_header target name) headers
             @ injected_headers st target @ codex_headers target headers agent_name,
           ur_body = (if body \<noteq> [] then Some body else None)\<rparr>,
          st\<lparr>st_client_pool := pool\<rparr>))"

section \<open>The response\<close>

definition header_insert :: "string \<Rightarrow> string \<Rightarrow> (string \<times> string) list \<Rightarrow> (string \<times> string) list" where
  "header_insert name v hs =
    (if map_of hs name = None then hs @ [(name, v)] else map (\<lambda>(n, w). if n = name then (n, v) else (n, w)) hs)"

definition hop_by_hop :: "string list" where
  "hop_by_hop = [''transfer-encoding'', ''content-length'', ''connection'', ''keep-alive'', ''proxy-connection'',
     ''upgrade'', ''te'', ''trailer'']"

definition forward_response_headers :: "(string \<times> string) list \<Rightarrow> (string \<times> string) list" where
  "forward_response_headers upstream =
    fold (\<lambda>(name, v) out. if to_lower name \<in> set hop_by_hop then out else header_insert name v out) upstream []"

definition status_from_u16 :: "16 word \<Rightarrow> nat" where
  "status_from_u16 s = (if 100 \<le> s \<and> s \<le> 999 then unat s else 502)"

definition rc_should_buffer :: "response_controls \<Rightarrow> bool" where
  "rc_should_buffer rc = has_redaction_patterns rc"

fun collect_body :: "body_event list \<Rightarrow> string + string" where
  "collect_body [] = Inr []"
| "collect_body (BodyErr e # es) = Inl e"
| "collect_body (BodyPending # es) = collect_body es"
| "collect_body (BodyChunk c # es) = (case collect_body es of Inl e \<Rightarrow> Inl e | Inr s \<Rightarrow> Inr (c @ s))"

definition apply_buffered_response_controls ::
    "proxy_env \<Rightarrow> app_state \<Rightarrow> response_controls \<Rightarrow> request_ctx \<Rightarrow> proxy_target \<Rightarrow> string option \<Rightarrow> string option
       \<Rightarrow> (string \<times> string) list \<Rightarrow> upstream_response \<Rightarrow> db \<Rightarrow> http_response \<times> db" where
  "apply_buffered_response_controls P st rc ctx target upstream_host content_type response_headers resp d =
    (case collect_body (us_events resp) of
       Inl e \<Rightarrow> record_upstream_body_read_error P st ctx upstream_host e d
     | Inr body_bytes \<Rightarrow>
         (case apply_non_streaming (pe_regex P) rc content_type body_bytes of
            SizeExceeded observed cap \<Rightarrow> record_response_size_exceeded_buffered P st ctx upstream_host observed cap d
          | ContentTypeDisallowed observed \<Rightarrow>
              record_response_content_type_disallowed P st ctx upstream_host (Some observed) d
          | OutAllowed body redactions \<Rightarrow>
              (\<lparr>hr_status = status_from_u16 (us_status resp), hr_headers = response_headers, hr_body = RBytes body\<rparr>,
               record_proxy_request_success P st ctx target upstream_host (us_status resp)
                 (fold (record_response_redaction P st ctx upstream_host (us_status resp)) redactions d))))"

definition handle_upstream_response ::
    "proxy_env \<Rightarrow> app_state \<Rightarrow> request_ctx \<Rightarrow> proxy_target \<Rightarrow> string option \<Rightarrow> upstream_response \<Rightarrow> db
       \<Rightarrow> proxy_reply \<times> db" where
  "handle_upstream_response P st ctx target upstream_host resp d =
    (let content_type = Option.bind (header_get ''content-type'' (us_headers resp)) (ls_to_str (st_listener st));
         response_headers = forward_response_headers (us_headers resp);
         rc = st_response_controls st (cx_tool_name ctx);
         streamed = (\<lambda>cap. (Streamed (status_from_u16 (us_status resp)) response_headers (capped_stream_new (us_events resp) cap),
           record_proxy_request_success P st ctx target upstream_host (us_status resp) d))
     in case rc of
          None \<Rightarrow> streamed None
        | Some rc \<Rightarrow>
            if \<not> streaming_content_type_allowed rc content_type then
              apfst Full (record_response_content_type_disallowed P st ctx upstream_host content_type d)
            else if rc_should_buffer rc then
              apfst Full (apply_buffered_response_controls P st rc ctx target upstream_host content_type
                response_headers resp d)
            else streamed (streaming_size_cap rc))"

definition truncation_event ::
    "proxy_env \<Rightarrow> request_ctx \<Rightarrow> string option \<Rightarrow> 16 word \<Rightarrow> u64 \<Rightarrow> u64 \<Rightarrow> audit_event" where
  "truncation_event P ctx upstream_host upstream_status cap observed =
    default_event\<lparr>ae_ts_ms := pe_now_ms P, ae_event_class := EcProxy, ae_event := ''response_size_exceeded'',
      ae_tool := Some (cx_tool_name ctx), ae_upstream_host := upstream_host, ae_method := Some (cx_method ctx),
      ae_path := Some (cx_request_path ctx), ae_status := Some upstream_status, ae_decision := Denied,
      ae_auth_method := Some (cx_auth_method ctx), ae_agent_public_id := cx_agent_public_id ctx,
      ae_details := Some (JObj [(''cap_bytes'', JNum (uint cap)), (''flow'', JStr ''streaming''),
        (''observed_bytes'', JNum (uint observed))])\<rparr>"

section \<open>The handler\<close>

definition codex_phase ::
    "proxy_env \<Rightarrow> proxy_target \<Rightarrow> string option \<Rightarrow> request_ctx \<Rightarrow> string \<Rightarrow> (request_ctx \<times> string) phase" where
  "codex_phase P target upstream_host ctx body st d =
    (if is_chatgpt_codex_upstream (pt_upstream target) \<and> request_path_ends_with_responses (cx_request_path ctx) then
       (case fixup (pe_json P) body of
          Inr (new_body, summary) \<Rightarrow>
            (Inr (if is_noop summary then ctx
                  else ctx\<lparr>cx_codex_body_fixup := Some (JObj
                    [(''fields_added'', JArr (map JStr (fx_fields_added summary))),
                     (''fields_overridden'', JArr (map JStr (fx_fields_overridden summary))),
                     (''fields_removed'', JArr (map JStr (fx_fields_removed summary)))])\<rparr>, new_body), st, d)
        | Inl TooLarge \<Rightarrow> (case record_codex_body_too_large P st ctx upstream_host d of (r, d') \<Rightarrow> (Inl r, st, d')))
     else (Inr (ctx, body), st, d))"

definition body_phase ::
    "proxy_env \<Rightarrow> http_request \<Rightarrow> proxy_target \<Rightarrow> string option \<Rightarrow> request_ctx \<Rightarrow> string phase" where
  "body_phase P req target upstream_host ctx st d =
    (case read_request_body P req (pt_body_limit_bytes target) of
       Some body \<Rightarrow> (Inr body, st, d)
     | None \<Rightarrow> (case record_body_read_error P st ctx upstream_host d of (r, d') \<Rightarrow> (Inl r, st, d')))"

definition prepare_target :: "proxy_env \<Rightarrow> request_ctx \<Rightarrow> agent_identity option \<Rightarrow> proxy_target phase" where
  "prepare_target P ctx identity =
    phase_bind (gate_phase P ctx identity) (\<lambda>_.
    phase_bind (target_phase P ctx identity) (\<lambda>target.
    phase_bind (oauth_phase P ctx target) (\<lambda>target.
    phase_bind (stored_phase P ctx target) (op_phase P ctx))))"

record proxy_result =
  pr_reply :: proxy_reply
  pr_sent :: "upstream_request option"
  pr_state :: app_state
  pr_db :: db

definition send_phase ::
    "proxy_env \<Rightarrow> http_request \<Rightarrow> string \<Rightarrow> string option \<Rightarrow> proxy_target \<Rightarrow> request_ctx \<Rightarrow> string \<Rightarrow> app_state \<Rightarrow> db
       \<Rightarrow> proxy_result" where
  "send_phase P req path query target ctx body st d =
    (let upstream_host = url_host (pt_upstream target) in
     case build_upstream_request P st target (rq_method req) (upstream_url (pt_upstream target) path query)
            (rq_headers req) body (cx_agent_name ctx) of
       (u, st') \<Rightarrow>
         (case pe_send P u of
            UpReply resp \<Rightarrow>
              (case handle_upstream_response P st' ctx target upstream_host resp d of
                 (reply, d') \<Rightarrow> \<lparr>pr_reply = reply, pr_sent = Some u, pr_state = st', pr_db = d'\<rparr>)
          | e \<Rightarrow>
              (case record_upstream_error P st' ctx target upstream_host (e = UpTimeout) d of
                 (r, d') \<Rightarrow> \<lparr>pr_reply = Full r, pr_sent = Some u, pr_state = st', pr_db = d'\<rparr>)))"

definition proxy_handler ::
    "proxy_env \<Rightarrow> authenticated_as option \<Rightarrow> agent_identity option \<Rightarrow> string \<Rightarrow> string \<Rightarrow> string option \<Rightarrow> http_request
       \<Rightarrow> app_state \<Rightarrow> db \<Rightarrow> proxy_result" where
  "proxy_handler P as_method identity tool_name path query req st d =
    (let ctx = ctx_snapshot req as_method identity tool_name in
     case phase_bind (prepare_target P ctx identity) (\<lambda>target.
            let upstream_host = url_host (pt_upstream target) in
            phase_bind (body_phase P req target upstream_host ctx) (\<lambda>body.
            phase_bind (codex_phase P target upstream_host ctx body) (\<lambda>(ctx', body') st d.
            (Inr (target, ctx', body'), st, d)))) st d of
       (Inl r, st', d') \<Rightarrow> \<lparr>pr_reply = Full r, pr_sent = None, pr_state = st', pr_db = d'\<rparr>
     | (Inr (target, ctx', body'), st', d') \<Rightarrow> send_phase P req path query target ctx' body' st' d')"

end
