(* ===== verification/ProxyPhases.thy ===== *)
theory ProxyPhases
  imports Proxy
begin

text \<open>
  The contract of the phases of \<open>proxy_handler\<close> (\<open>proxy.rs\<close>): what a request may change in the database and in
  the shared state, and that a phase which answers the request has recorded it.
\<close>

section \<open>What a request may change\<close>

text \<open>Everything but the audit table and the OAuth rows, whose keys stay the same.\<close>

definition proxy_core :: "db \<Rightarrow> db" where
  "proxy_core d = d\<lparr>audit := [], next_audit_id := 0, oauth_sessions := []\<rparr>"

definition proxy_frame :: "db \<Rightarrow> db \<Rightarrow> bool" where
  "proxy_frame d d' \<longleftrightarrow> proxy_core d' = proxy_core d \<and> map oauth_key (oauth_sessions d') = map oauth_key (oauth_sessions d)"

lemma proxy_frame_refl [simp]: "proxy_frame d d"
  by (simp add: proxy_frame_def)

lemma proxy_frame_trans [trans]: "proxy_frame d d' \<Longrightarrow> proxy_frame d' d'' \<Longrightarrow> proxy_frame d d''"
  by (simp add: proxy_frame_def)

lemma proxy_frameD:
  assumes "proxy_frame d d'"
  shows "db_down d' = db_down d" "registrations d' = registrations d" "agents d' = agents d" "overrides d' = overrides d"
    "credential_secrets d' = credential_secrets d" "bootstrap_tokens d' = bootstrap_tokens d"
    "next_agent_id d' = next_agent_id d" "next_bootstrap_id d' = next_bootstrap_id d"
proof -
  from assms have c: "proxy_core d' = proxy_core d" by (simp add: proxy_frame_def)
  show "db_down d' = db_down d" using arg_cong [OF c, of db_down] by (simp add: proxy_core_def)
  show "registrations d' = registrations d" using arg_cong [OF c, of registrations] by (simp add: proxy_core_def)
  show "agents d' = agents d" using arg_cong [OF c, of agents] by (simp add: proxy_core_def)
  show "overrides d' = overrides d" using arg_cong [OF c, of overrides] by (simp add: proxy_core_def)
  show "credential_secrets d' = credential_secrets d" using arg_cong [OF c, of credential_secrets] by (simp add: proxy_core_def)
  show "bootstrap_tokens d' = bootstrap_tokens d" using arg_cong [OF c, of bootstrap_tokens] by (simp add: proxy_core_def)
  show "next_agent_id d' = next_agent_id d" using arg_cong [OF c, of next_agent_id] by (simp add: proxy_core_def)
  show "next_bootstrap_id d' = next_bootstrap_id d" using arg_cong [OF c, of next_bootstrap_id] by (simp add: proxy_core_def)
qed

lemma proxy_frame_note [simp]: "proxy_frame d (note_event on e d)"
  by (simp add: proxy_frame_def proxy_core_def note_event_def audit_record_def)

lemma proxy_frame_audit [simp]: "proxy_frame d (proxy_audit st e d)"
  by (simp add: proxy_audit_def)

lemma map_key_update_where:
  "(\<And>r. f (g r) = f r) \<Longrightarrow> map f (update_where Q g xs) = map f xs"
  by (simp add: update_where_def)

lemma proxy_frame_update_tokens:
  "update_tokens L now n1 n2 key name label at ex rt d = (r, d') \<Longrightarrow> proxy_frame d d'"
  by (auto simp: update_tokens_def Let_def proxy_frame_def proxy_core_def map_key_update_where
      split: sum.splits option.splits if_splits)

lemma proxy_frame_refresh:
  "refresh_selected_session L parse_url E sel key s d = (r, d') \<Longrightarrow> proxy_frame d d'"
  by (erule refresh_selected_session_db) (auto intro: proxy_frame_update_tokens)

lemma proxy_frame_degraded [simp]: "proxy_frame d (snd (mark_degraded now name label d))"
  by (simp add: mark_degraded_def proxy_frame_def proxy_core_def map_key_update_where)

lemma audit_update_tokens:
  "update_tokens L now n1 n2 key name label at ex rt d = (r, d') \<Longrightarrow> audit d' = audit d"
  by (auto simp: update_tokens_def Let_def split: sum.splits option.splits if_splits)

lemma audit_refresh:
  "refresh_selected_session L parse_url E sel key s d = (r, d') \<Longrightarrow> audit d' = audit d"
  by (erule refresh_selected_session_db) (auto dest: audit_update_tokens)

lemma audit_degraded [simp]: "audit (snd (mark_degraded now name label d)) = audit d"
  by (simp add: mark_degraded_def)

text \<open>An audit row of the request.\<close>

definition request_row :: "request_ctx \<Rightarrow> audit_row \<Rightarrow> bool" where
  "request_row ctx row \<longleftrightarrow> au_tool row = Some (cx_tool_name ctx) \<and> au_agent_public_id row = cx_agent_public_id ctx
     \<and> au_method row = Some (cx_method ctx) \<and> au_path row = Some (cx_request_path ctx)"

definition logs :: "request_ctx \<Rightarrow> app_state \<Rightarrow> db \<Rightarrow> db \<Rightarrow> bool" where
  "logs ctx st d d' \<longleftrightarrow> proxy_frame d d'
     \<and> (\<exists>rows. audit d' = audit d @ rows \<and> list_all (request_row ctx) rows \<and> (st_audit st \<and> \<not> db_down d \<longrightarrow> rows \<noteq> []))"

lemma logs_audit:
  assumes "ae_tool e = Some (cx_tool_name ctx)" and "ae_agent_public_id e = cx_agent_public_id ctx"
    and "ae_method e = Some (cx_method ctx)" and "ae_path e = Some (cx_request_path ctx)"
  shows "logs ctx st d (proxy_audit st e d)"
proof -
  have "\<exists>rows. audit (proxy_audit st e d) = audit d @ rows \<and> list_all (request_row ctx) rows \<and> (st_audit st \<and> \<not> db_down d \<longrightarrow> rows \<noteq> [])"
    using assms by (auto simp: request_row_def proxy_audit_def note_event_def audit_record_def event_to_row_def)
  then show ?thesis by (simp add: logs_def)
qed

lemma logs_frame: "logs ctx st d d' \<Longrightarrow> proxy_frame d d'"
  by (simp add: logs_def)

lemma logs_after:
  assumes "proxy_frame d d1" and "audit d1 = audit d" and "logs ctx st d1 d'"
  shows "logs ctx st d d'"
  using assms proxy_frame_trans proxy_frameD(1) [OF assms(1)] unfolding logs_def by metis

lemma logs_before:
  assumes "logs ctx st d d1" and "logs ctx st d1 d'"
  shows "logs ctx st d d'"
proof -
  from assms(1) obtain r1 where 1: "proxy_frame d d1" "audit d1 = audit d @ r1" "list_all (request_row ctx) r1"
    "st_audit st \<and> \<not> db_down d \<longrightarrow> r1 \<noteq> []" by (auto simp: logs_def)
  from assms(2) obtain r2 where 2: "proxy_frame d1 d'" "audit d' = audit d1 @ r2" "list_all (request_row ctx) r2"
    by (auto simp: logs_def)
  have "audit d' = audit d @ (r1 @ r2) \<and> list_all (request_row ctx) (r1 @ r2) \<and> (st_audit st \<and> \<not> db_down d \<longrightarrow> r1 @ r2 \<noteq> [])"
    using 1 2 by simp
  with 1(1) 2(1) show ?thesis unfolding logs_def using proxy_frame_trans by blast
qed

text \<open>The services of the state that no request changes.\<close>

definition same_services :: "app_state \<Rightarrow> app_state \<Rightarrow> bool" where
  "same_services st st' \<longleftrightarrow>
     st'\<lparr>st_client_pool := st_client_pool st, st_oauth := st_oauth st, st_operational_log := st_operational_log st\<rparr> = st"

lemma same_services_refl [simp]: "same_services st st"
  by (simp add: same_services_def)

lemma same_servicesD:
  assumes "same_services st st'"
  shows "st_listener st' = st_listener st" "st_audit st' = st_audit st" "st_registrations st' = st_registrations st"
    "st_catalog st' = st_catalog st" "st_resolved_creds st' = st_resolved_creds st"
    "st_response_controls st' = st_response_controls st"
proof -
  from assms have c: "st'\<lparr>st_client_pool := st_client_pool st, st_oauth := st_oauth st,
    st_operational_log := st_operational_log st\<rparr> = st" by (simp add: same_services_def)
  show "st_listener st' = st_listener st" using arg_cong [OF c, of st_listener] by simp
  show "st_audit st' = st_audit st" using arg_cong [OF c, of st_audit] by simp
  show "st_registrations st' = st_registrations st" using arg_cong [OF c, of st_registrations] by simp
  show "st_catalog st' = st_catalog st" using arg_cong [OF c, of st_catalog] by simp
  show "st_resolved_creds st' = st_resolved_creds st" using arg_cong [OF c, of st_resolved_creds] by simp
  show "st_response_controls st' = st_response_controls st" using arg_cong [OF c, of st_response_controls] by simp
qed

lemma same_services_trans:
  assumes "same_services st st'" and "same_services st' st''"
  shows "same_services st st''"
proof -
  have "st''\<lparr>st_client_pool := st_client_pool st, st_oauth := st_oauth st, st_operational_log := st_operational_log st\<rparr>
    = st''\<lparr>st_client_pool := st_client_pool st', st_oauth := st_oauth st', st_operational_log := st_operational_log st'\<rparr>
        \<lparr>st_client_pool := st_client_pool st, st_oauth := st_oauth st, st_operational_log := st_operational_log st\<rparr>" by simp
  with assms show ?thesis by (simp add: same_services_def)
qed

lemma same_services_updates [simp]:
  "same_services st (st\<lparr>st_oauth := x\<rparr>)" "same_services st (st\<lparr>st_client_pool := p\<rparr>)"
  "same_services st (emit_proxy_log m n c st)"
  by (simp_all add: same_services_def emit_proxy_log_def)

lemma logs_same: "same_services st st' \<Longrightarrow> logs ctx st' d d' \<longleftrightarrow> logs ctx st d d'"
  by (simp add: logs_def same_servicesD)

lemmas record_defs =
  record_authz_denied_def record_tool_not_found_def record_body_read_error_def record_codex_body_too_large_def
  record_response_content_type_disallowed_def record_proxy_request_success_def record_upstream_error_def
  record_upstream_body_read_error_def record_response_size_exceeded_buffered_def record_response_redaction_def
  record_oauth_unavailable_def record_stored_unavailable_def admission_unavailable_response_def record_agent_inactive_def

lemma record_logs [simp]:
  "logs ctx st d (snd (record_authz_denied P st ctx reason d))"
  "logs ctx st d (snd (record_tool_not_found P st ctx d))"
  "logs ctx st d (snd (record_body_read_error P st ctx h d))"
  "logs ctx st d (snd (record_codex_body_too_large P st ctx h d))"
  "logs ctx st d (snd (record_response_content_type_disallowed P st ctx h obs d))"
  "logs ctx st d (record_proxy_request_success P st ctx t h s d)"
  "logs ctx st d (snd (record_upstream_body_read_error P st ctx h e d))"
  "logs ctx st d (snd (record_response_size_exceeded_buffered P st ctx h n cap d))"
  "logs ctx st d (record_response_redaction P st ctx h s rr d)"
  "logs ctx st d (record_oauth_unavailable P st ctx c d)"
  "logs ctx st d (record_stored_unavailable P st ctx c d)"
  "logs ctx st d (snd (admission_unavailable_response P st ctx c d))"
  "logs ctx st d (snd (record_agent_inactive P st ctx d))"
  by (simp_all add: record_defs logs_audit audit_event_base_def)

lemma upstream_error_logs [simp]: "logs ctx st d (snd (record_upstream_error P st ctx t h b d))"
  by (cases b) (simp_all add: record_upstream_error_def logs_audit audit_event_base_def)

lemma record_failure_logs [simp]: "logs ctx st d (snd (record_failure P st ctx f d))"
  by (cases f) (simp_all add: record_failure_def logs_audit audit_event_base_def)

lemma record_status [simp]:
  "400 \<le> hr_status (fst (record_authz_denied P st ctx reason d))"
  "400 \<le> hr_status (fst (record_tool_not_found P st ctx d))"
  "400 \<le> hr_status (fst (record_body_read_error P st ctx h d))"
  "400 \<le> hr_status (fst (record_codex_body_too_large P st ctx h d))"
  "400 \<le> hr_status (fst (admission_unavailable_response P st ctx c d))"
  "400 \<le> hr_status (fst (record_agent_inactive P st ctx d))"
  "400 \<le> hr_status (stored_unavailable_envelope m)"
  by (simp_all add: record_defs json_response_def stored_unavailable_envelope_def)

lemma record_failure_status [simp]: "400 \<le> hr_status (fst (record_failure P st ctx f d))"
  by (cases f) (simp_all add: record_failure_def json_response_def)

section \<open>The contract of a phase\<close>

text \<open>A phase that answers the request has recorded it and answers with an error; one that hands on has
  recorded nothing.\<close>

definition phase_ok :: "request_ctx \<Rightarrow> 'a phase \<Rightarrow> bool" where
  "phase_ok ctx m \<longleftrightarrow> (\<forall>st d. case m st d of
      (Inl r, st', d') \<Rightarrow> logs ctx st d d' \<and> 400 \<le> hr_status r \<and> same_services st st'
    | (Inr _, st', d') \<Rightarrow> proxy_frame d d' \<and> audit d' = audit d \<and> same_services st st')"

lemma phase_okI:
  assumes "\<And>st d r st' d'. m st d = (Inl r, st', d') \<Longrightarrow> logs ctx st d d' \<and> 400 \<le> hr_status r \<and> same_services st st'"
    and "\<And>st d a st' d'. m st d = (Inr a, st', d') \<Longrightarrow> proxy_frame d d' \<and> audit d' = audit d \<and> same_services st st'"
  shows "phase_ok ctx m"
  using assms unfolding phase_ok_def by (auto split: prod.split sum.split)

lemma phase_ok_Inl:
  assumes "phase_ok ctx m" and "m st d = (Inl r, st', d')"
  shows "logs ctx st d d'" and "400 \<le> hr_status r" and "same_services st st'"
  using assms unfolding phase_ok_def by (metis (mono_tags, lifting) case_prod_conv sum.case(1))+

lemma phase_ok_Inr:
  assumes "phase_ok ctx m" and "m st d = (Inr a, st', d')"
  shows "proxy_frame d d'" and "audit d' = audit d" and "same_services st st'"
  using assms unfolding phase_ok_def by (metis (mono_tags, lifting) case_prod_conv sum.case(2))+

lemma phase_bind_InrE:
  assumes "phase_bind m f st d = (Inr b, st2, d2)"
  obtains a st1 d1 where "m st d = (Inr a, st1, d1)" "f a st1 d1 = (Inr b, st2, d2)"
  using assms by (auto simp: phase_bind_def split: prod.splits sum.splits)

lemma phase_bind_InlE:
  assumes "phase_bind m f st d = (Inl r, st2, d2)"
  obtains "m st d = (Inl r, st2, d2)" | a st1 d1 where "m st d = (Inr a, st1, d1)" "f a st1 d1 = (Inl r, st2, d2)"
  using assms by (auto simp: phase_bind_def split: prod.splits sum.splits)

lemma phase_ok_bind:
  assumes m: "phase_ok ctx m" and f: "\<And>a. phase_ok ctx (f a)"
  shows "phase_ok ctx (phase_bind m f)"
proof (rule phase_okI)
  fix st d r st' d'
  assume "phase_bind m f st d = (Inl r, st', d')"
  then show "logs ctx st d d' \<and> 400 \<le> hr_status r \<and> same_services st st'"
  proof (cases rule: phase_bind_InlE)
    case 1
    with phase_ok_Inl [OF m] show ?thesis by blast
  next
    case (2 a st1 d1)
    note i = phase_ok_Inr [OF m 2(1)] and j = phase_ok_Inl [OF f 2(2)]
    from logs_after [OF i(1,2)] j(1) logs_same [OF i(3)] have "logs ctx st d d'" by blast
    with j(2) same_services_trans [OF i(3) j(3)] show ?thesis by blast
  qed
next
  fix st d b st' d'
  assume "phase_bind m f st d = (Inr b, st', d')"
  then obtain a st1 d1 where "m st d = (Inr a, st1, d1)" "f a st1 d1 = (Inr b, st', d')" by (rule phase_bind_InrE)
  with phase_ok_Inr [OF m] phase_ok_Inr [OF f] proxy_frame_trans same_services_trans
  show "proxy_frame d d' \<and> audit d' = audit d \<and> same_services st st'" by metis
qed

lemma gate_phase_ok: "phase_ok ctx (gate_phase P ctx identity)"
  by (rule phase_okI) (auto simp: gate_phase_def split_beta split: option.splits sum.splits if_splits)

lemma refuse_eq [simp]: "refuse r = (Inl e, d') \<longleftrightarrow> e = fst r \<and> d' = snd r" "refuse r \<noteq> (Inr a, d')"
  by (auto simp: refuse_def)

text \<open>The refusals of \<open>admission_target\<close>: each is one recorded answer.\<close>

lemma admission_target_Inl:
  assumes "admission_target P st ctx identity d = (Inl r, d')"
  shows "logs ctx st d d' \<and> 400 \<le> hr_status r"
  using assms unfolding admission_target_def Let_def
  by (simp split: option.splits sum.splits if_splits)

lemma admission_target_Inr:
  assumes "admission_target P st ctx identity d = (Inr t, d')"
  obtains i rows account t0 where "d' = d" "identity = Some i" "st_agent_creds st"
    "http_admissions (pe_now P) i (Some (cx_tool_name ctx)) d = Inr rows" "rows \<noteq> []"
    "ha_agent_active (last rows)" "ha_grant (last rows) = Inr ()"
    "activation (ha_registration (last rows)) (Some (st_catalog st)) = ''active''"
    "ha_account (last rows) = Some account"
    "apply_spec P (from_registration (ha_registration (last rows))) account = Inr t0"
    "t = t0\<lparr>pt_auth_source := ''agent_override''\<rparr>"
  using assms unfolding admission_target_def Let_def
  by (simp del: activation_active_iff split: option.splits sum.splits if_splits)

lemma recorded:
  "record_tool_not_found P st ctx d = (r, d') \<Longrightarrow> logs ctx st d d' \<and> 400 \<le> hr_status r"
  "record_failure P st ctx f d = (r, d') \<Longrightarrow> logs ctx st d d' \<and> 400 \<le> hr_status r"
  by (metis fst_conv snd_conv record_logs(2) record_status(2) record_failure_logs record_failure_status)+

lemma target_phase_ok: "phase_ok ctx (target_phase P ctx identity)"
proof (rule phase_okI)
  fix st d r st' d'
  assume "target_phase P ctx identity st d = (Inl r, st', d')"
  then show "logs ctx st d d' \<and> 400 \<le> hr_status r \<and> same_services st st'"
    by (cases "st_registrations st")
       (auto simp: target_phase_def split: prod.splits option.splits sum.splits dest: admission_target_Inl recorded)
next
  fix st d t st' d'
  assume "target_phase P ctx identity st d = (Inr t, st', d')"
  then show "proxy_frame d d' \<and> audit d' = audit d \<and> same_services st st'"
    by (cases "st_registrations st")
       (auto simp: target_phase_def split: prod.splits option.splits sum.splits elim: admission_target_Inr)
qed

lemma resolve_session_frame:
  assumes "resolve_session P key target label s d = (r, d')"
  shows "proxy_frame d d' \<and> audit d' = audit d"
proof -
  let ?r = "\<lambda>sel. refresh_selected_session (pe_seal P) (pe_parse_url P) (pe_refresh P) sel key s d"
  define x d1 where "x = (\<lambda>sel. fst (?r sel))" and "d1 = (\<lambda>sel. snd (?r sel))"
  then have x: "?r sel = (x sel, d1 sel)" for sel by simp
  have f: "proxy_frame d (d1 sel)" "audit (d1 sel) = audit d" for sel
    using proxy_frame_refresh [OF x] audit_refresh [OF x] by auto
  have "proxy_frame d (snd (mark_degraded n t l (d1 sel)))" for n t l sel
    using f(1) proxy_frame_degraded by (rule proxy_frame_trans)
  with assms f show ?thesis
    unfolding resolve_session_def by (auto simp: x split: if_splits option.splits sum.splits)
qed

lemma resolve_session_status:
  assumes "resolve_session P key target label s d = (Inl (r, c), d')"
  shows "hr_status r = 503"
  using assms unfolding resolve_session_def
  by (auto simp: oauth_refused_def oauth_unavailable_envelope_def json_response_def
      split: if_splits option.splits sum.splits prod.splits)

lemma resolve_oauth_token_ok:
  assumes "resolve_oauth_token P st target label d = (r, st', d')"
  shows "proxy_frame d d'" and "audit d' = audit d" and "same_services st st'" and "r = Inl (e, c) \<Longrightarrow> hr_status e = 503"
proof -
  have "proxy_frame d d' \<and> audit d' = audit d \<and> same_services st st' \<and> (r = Inl (e, c) \<longrightarrow> hr_status e = 503)"
    using assms unfolding resolve_oauth_token_def Let_def
    by (auto simp: oauth_refused_def oauth_unavailable_envelope_def json_response_def
        split: option.splits sum.splits if_splits prod.splits dest: resolve_session_frame resolve_session_status)
  then show "proxy_frame d d'" and "audit d' = audit d" and "same_services st st'" and "r = Inl (e, c) \<Longrightarrow> hr_status e = 503"
    by blast+
qed

lemma oauth_phase_ok: "phase_ok ctx (oauth_phase P ctx target)"
proof (cases "\<exists>m a b c. pt_auth target = PaOauth m a b c")
  case False
  then show ?thesis by (auto intro!: phase_okI simp: oauth_phase_def split: proxy_auth.splits)
next
  case True
  then obtain m a b c where t: "pt_auth target = PaOauth m a b c" by blast
  show ?thesis
  proof (cases "pt_oauth_session_label target")
    case None
    with t show ?thesis by (auto intro!: phase_okI simp: oauth_phase_def split_beta)
  next
    case (Some label)
    have "logs ctx st d (record_oauth_unavailable P st' ctx cause d') \<and> 400 \<le> hr_status r \<and> same_services st st'"
      if x: "resolve_oauth_token P st target label d = (Inl (r, cause), st', d')" for st d r cause st' d'
    proof -
      note ok = resolve_oauth_token_ok [OF x]
      have "logs ctx st' d' (record_oauth_unavailable P st' ctx cause d')" by simp
      with logs_same [OF ok(3)] logs_after [OF ok(1,2)] have "logs ctx st d (record_oauth_unavailable P st' ctx cause d')" by blast
      with ok show ?thesis by auto
    qed
    with t Some show ?thesis
      by (intro phase_okI) (auto simp: oauth_phase_def split: prod.splits sum.splits dest: resolve_oauth_token_ok)
  qed
qed

lemma resolve_stored_status:
  "resolve_stored_credential P st r d = Inl (e, c) \<Longrightarrow> 400 \<le> hr_status e"
  unfolding resolve_stored_credential_def
  by (auto split: option.splits if_splits sum.splits)

lemma stored_phase_ok: "phase_ok ctx (stored_phase P ctx target)"
  by (rule phase_okI) (auto simp: stored_phase_def split: proxy_auth.splits sum.splits dest: resolve_stored_status)

lemma op_phase_ok: "phase_ok ctx (op_phase P ctx target)"
  by (rule phase_okI) (auto simp: op_phase_def split: proxy_auth.splits option.splits if_splits)

lemma body_phase_ok: "phase_ok ctx (body_phase P req target h ctx)"
  by (rule phase_okI) (auto simp: body_phase_def split_beta split: option.splits)

lemma codex_phase_ok: "phase_ok ctx (codex_phase P target h ctx body)"
  by (rule phase_okI)
     (auto simp: codex_phase_def split_beta split: if_splits sum.splits codex_body_error.splits)

lemma prepare_target_ok: "phase_ok ctx (prepare_target P ctx identity)"
  unfolding prepare_target_def
  by (intro phase_ok_bind gate_phase_ok target_phase_ok oauth_phase_ok stored_phase_ok op_phase_ok)

section \<open>Every request is recorded\<close>

lemma logs_fixup [simp]: "logs (ctx\<lparr>cx_codex_body_fixup := x\<rparr>) st d d' \<longleftrightarrow> logs ctx st d d'"
  by (simp add: logs_def request_row_def cong: list.pred_cong)

lemma logs_fold:
  assumes "\<And>x d. logs ctx st d (f x d)"
  shows "xs = [] \<or> logs ctx st d (fold f xs d)"
proof (induction xs arbitrary: d)
  case (Cons x xs)
  from Cons.IH [of "f x d"] assms [of d x] show ?case by (auto intro: logs_before)
qed simp

lemma logs_fold_then:
  assumes "\<And>x d. logs ctx st d (f x d)" and "\<And>d. logs ctx st d (g d)"
  shows "logs ctx st d (g (fold f xs d))"
  using logs_fold [of ctx st f xs d] assms by (auto intro: logs_before)

lemma buffered_logs:
  "logs ctx st d (snd (apply_buffered_response_controls P st rc ctx t h ct hs resp d))"
  unfolding apply_buffered_response_controls_def
  by (auto intro: logs_fold_then split: sum.split apply_outcome.split)

lemma handle_upstream_response_logs:
  "logs ctx st d (snd (handle_upstream_response P st ctx t h resp d))"
  unfolding handle_upstream_response_def Let_def by (auto simp: buffered_logs split: option.split)

lemma send_phase_logs:
  "logs ctx st d (pr_db (send_phase P req path query target ctx body st d))"
proof -
  obtain u st' where b: "build_upstream_request P st target (rq_method req) (upstream_url (pt_upstream target) path query)
      (rq_headers req) body (cx_agent_name ctx) = (u, st')" by (metis surj_pair)
  then have s: "same_services st st'"
    by (auto simp: build_upstream_request_def split: prod.splits)
  have "logs ctx st' d (pr_db (send_phase P req path query target ctx body st d))"
    unfolding send_phase_def Let_def b
    by (simp add: split_beta handle_upstream_response_logs split: upstream_result.split)
  with logs_same [OF s] show ?thesis by blast
qed

lemma send_phase_sent:
  "pr_sent (send_phase P req path query target ctx body st d) =
    Some (fst (build_upstream_request P st target (rq_method req) (upstream_url (pt_upstream target) path query)
      (rq_headers req) body (cx_agent_name ctx)))"
  unfolding send_phase_def Let_def by (simp add: split_beta split: upstream_result.split)

lemma codex_phase_Inr:
  assumes "codex_phase P target h ctx body st d = (Inr (ctx', body'), st', d')"
  shows "ctx' = ctx\<lparr>cx_codex_body_fixup := cx_codex_body_fixup ctx'\<rparr>" and "st' = st" and "d' = d"
  using assms unfolding codex_phase_def
  by (auto split: if_splits sum.splits codex_body_error.splits prod.splits)

text \<open>The whole handler: either a phase answered, or the request left for the upstream.\<close>

lemma proxy_handler_cases:
  obtains (answered) r st' d' where
      "proxy_handler P as_method identity tool path query req st d =
         \<lparr>pr_reply = Full r, pr_sent = None, pr_state = st', pr_db = d'\<rparr>"
      "logs (ctx_snapshot req as_method identity tool) st d d'" "400 \<le> hr_status r" "same_services st st'"
    | (sent) target st1 d1 x body' st' d' where
      "prepare_target P (ctx_snapshot req as_method identity tool) identity st d = (Inr target, st1, d1)"
      "same_services st st1" "proxy_frame d d1" "audit d1 = audit d" "st' = st1" "d' = d1"
      "proxy_handler P as_method identity tool path query req st d =
         send_phase P req path query target ((ctx_snapshot req as_method identity tool)\<lparr>cx_codex_body_fixup := x\<rparr>) body' st' d'"
proof -
  let ?ctx = "ctx_snapshot req as_method identity tool"
  let ?rest = "\<lambda>target. let upstream_host = url_host (pt_upstream target) in
            phase_bind (body_phase P req target upstream_host ?ctx) (\<lambda>body.
            phase_bind (codex_phase P target upstream_host ?ctx body) (\<lambda>(ctx', body') st d.
            (Inr (target, ctx', body'), st, d)))"
  have rest: "phase_ok ?ctx (?rest target)" for target
    unfolding Let_def
    by (intro phase_ok_bind body_phase_ok codex_phase_ok) (auto intro: phase_okI)
  have ok: "phase_ok ?ctx (phase_bind (prepare_target P ?ctx identity) ?rest)"
    by (intro phase_ok_bind prepare_target_ok rest)
  show thesis
  proof (cases "phase_bind (prepare_target P ?ctx identity) ?rest st d")
    case (fields res st2 d2)
    show thesis
    proof (cases res)
      case (Inl r)
      with fields answered phase_ok_Inl [OF ok, of st d r st2 d2] show thesis by (simp add: proxy_handler_def Let_def)
    next
      case (Inr a)
      obtain t c b where a: "a = (t, c, b)" by (metis surj_pair)
      from fields Inr have "phase_bind (prepare_target P ?ctx identity) ?rest st d = (Inr a, st2, d2)" by simp
      then obtain target st1 d1 where p: "prepare_target P ?ctx identity st d = (Inr target, st1, d1)"
        and r: "?rest target st1 d1 = (Inr a, st2, d2)" by (rule phase_bind_InrE)
      from r obtain body st3 d3 where b1: "body_phase P req target (url_host (pt_upstream target)) ?ctx st1 d1 = (Inr body, st3, d3)"
        and c1: "phase_bind (codex_phase P target (url_host (pt_upstream target)) ?ctx body) (\<lambda>(ctx', body') st d.
            (Inr (target, ctx', body'), st, d)) st3 d3 = (Inr a, st2, d2)" unfolding Let_def by (rule phase_bind_InrE)
      from b1 have "st3 = st1" "d3 = d1" by (auto simp: body_phase_def split: option.splits prod.splits)
      moreover from c1 a have "t = target" and c2: "codex_phase P target (url_host (pt_upstream target)) ?ctx body st3 d3 = (Inr (c, b), st2, d2)"
        by (auto simp: phase_bind_def split: prod.splits sum.splits)
      ultimately have e: "t = target" "c = ?ctx\<lparr>cx_codex_body_fixup := cx_codex_body_fixup c\<rparr>" "st2 = st1" "d2 = d1"
        using codex_phase_Inr [OF c2] by simp_all
      have "proxy_handler P as_method identity tool path query req st d = send_phase P req path query t c b st2 d2"
        using fields Inr a by (simp add: proxy_handler_def Let_def)
      with e(1) have "proxy_handler P as_method identity tool path query req st d =
        send_phase P req path query target (?ctx\<lparr>cx_codex_body_fixup := cx_codex_body_fixup c\<rparr>) b st2 d2"
        by (subst e(2) [symmetric]) simp
      with sent [OF p phase_ok_Inr(3,1,2) [OF prepare_target_ok p] e(3,4)] show thesis .
    qed
  qed
qed

end
