(* ===== verification/ProxySafety.thy ===== *)
theory ProxySafety
  imports ProxyPhases
begin

text \<open>
  What the proxy hot path guarantees: which requests reach an upstream, at which address and with which
  credential, and what it leaves behind in the database.
\<close>

section \<open>The credential that leaves\<close>

lemma find_updated_session:
  assumes "find (\<lambda>r. oauth_key r = k) (update_where (\<lambda>r. oauth_key r = k) g xs) = Some r" and "\<And>r. oauth_key (g r) = oauth_key r"
  shows "\<exists>r0. r = g r0"
  using assms by (induction xs) (auto simp: update_where_def split: if_splits)

lemma unseal_row_access:
  "unseal_row L key row = Inr s \<Longrightarrow> os_access_ct row = Some ct \<Longrightarrow> os_access_nonce row = Some n \<Longrightarrow> \<exists>t. ss_access_token s = Some t"
  by (auto simp: unseal_row_def)

lemma updated_session_has_token:
  assumes "update_tokens L now n1 n2 key name label at ex rt d = (Inr u, d')" and "oauth_get L key name label d' = Inr (Some s)"
  shows "\<exists>t. ss_access_token s = Some t"
proof -
  from assms(2) obtain row where row: "find (\<lambda>r. oauth_key r = (name, label)) (oauth_sessions d') = Some row"
    "unseal_row L key row = Inr s" by (auto simp: oauth_get_def split: if_splits option.splits)
  from assms(1) have "\<exists>g. oauth_sessions d' = update_where (\<lambda>r. oauth_key r = (name, label)) g (oauth_sessions d)
      \<and> (\<forall>r. oauth_key (g r) = oauth_key r \<and> os_access_ct (g r) \<noteq> None \<and> os_access_nonce (g r) \<noteq> None)"
    by (cases rt) (clarsimp simp: update_tokens_def Let_def split: sum.splits if_splits; rule exI, rule conjI, rule refl, simp)+
  then obtain g where "oauth_sessions d' = update_where (\<lambda>r. oauth_key r = (name, label)) g (oauth_sessions d)"
    and g: "\<And>r. oauth_key (g r) = oauth_key r" "\<And>r. os_access_ct (g r) \<noteq> None" "\<And>r. os_access_nonce (g r) \<noteq> None" by blast
  with row(1) find_updated_session [OF _ g(1)] obtain r0 where "row = g r0" by metis
  with g(2,3) [of r0] row(2) unseal_row_access show ?thesis by blast
qed

lemma refreshed_session_has_token:
  assumes "refresh_selected_session L parse_url E sel key s d = (Inr s', d')"
  shows "\<exists>t. ss_access_token s' = Some t"
  using assms unfolding refresh_selected_session_def Let_def
  by (auto split: sum.splits option.splits prod.splits dest: updated_session_has_token)

text \<open>The credential headers that the account \<open>spec\<close>, selected for the connection \<open>reg\<close>, stands for: a
  non-empty environment value, the stored secret it names, the cached \<open>op://\<close> value it names, or the token of
  the OAuth session it names, refreshed first when it is due.\<close>

definition codex_account_header :: "registration \<Rightarrow> oauth_session \<Rightarrow> (string \<times> string) list" where
  "codex_account_header reg s =
    (case ss_account_id s of
       Some acct \<Rightarrow> if is_chatgpt_codex_upstream (reg_upstream reg) then [(''ChatGPT-Account-ID'', acct)] else []
     | None \<Rightarrow> [])"

definition current_session :: "proxy_env \<Rightarrow> sealing_key \<Rightarrow> auth_spec \<Rightarrow> oauth_session \<Rightarrow> db \<Rightarrow> oauth_session \<Rightarrow> bool" where
  "current_session P key spec s d s' \<longleftrightarrow>
     (if needs_refresh (pe_now P) s
      then \<exists>d'. refresh_selected_session (pe_seal P) (pe_parse_url P) (pe_refresh P) spec key s d = (Inr s', d')
      else s' = s)"

inductive carries :: "proxy_env \<Rightarrow> app_state \<Rightarrow> db \<Rightarrow> registration \<Rightarrow> auth_spec \<Rightarrow> (string \<times> string) list \<Rightarrow> bool"
  for P st d reg where
  none: "carries P st d reg AuthNone []"
| env_header: "pe_vars P v = Some x \<Longrightarrow> x \<noteq> [] \<Longrightarrow> carries P st d reg (Header h v) [(h, x)]"
| env_bearer: "pe_vars P v = Some x \<Longrightarrow> x \<noteq> [] \<Longrightarrow> carries P st d reg (Bearer v) [(''Authorization'', ''Bearer '' @ x)]"
| stored_header: "resolve_stored_credential P st r d = Inr x \<Longrightarrow> carries P st d reg (StoredHeader h r) [(h, x)]"
| stored_bearer: "resolve_stored_credential P st r d = Inr x \<Longrightarrow>
    carries P st d reg (StoredBearer r) [(''Authorization'', ''Bearer '' @ x)]"
| op_header: "Option.bind (st_op_resolver st) (op_get r) = Some x \<Longrightarrow> x \<noteq> [] \<Longrightarrow> carries P st d reg (OpHeader h r) [(h, x)]"
| op_bearer: "Option.bind (st_op_resolver st) (op_get r) = Some x \<Longrightarrow> x \<noteq> [] \<Longrightarrow>
    carries P st d reg (OpBearer r) [(''Authorization'', ''Bearer '' @ x)]"
| oauth: "oauth_session_label spec = Some label \<Longrightarrow> selected_source (pe_parse_url P) (reg_name reg) label d = Inr (Some spec) \<Longrightarrow>
    st_oauth st = Some rt \<Longrightarrow> oauth_get (pe_seal P) (ort_sealing_key rt) (reg_name reg) label d = Inr (Some s) \<Longrightarrow>
    \<not> ss_degraded s \<Longrightarrow> current_session P (ort_sealing_key rt) spec s d s' \<Longrightarrow> ss_access_token s' = Some tok \<Longrightarrow>
    carries P st d reg spec ((''Authorization'', ''Bearer '' @ tok) # codex_account_header reg s')"

inductive_cases carries_noneE: "carries P st d reg AuthNone hs"
inductive_cases carries_bearerE: "carries P st d reg (Bearer v) hs"

lemma resolve_session_Inr:
  assumes "resolve_session P key target label s d = (Inr auth, d')" and "pt_oauth_selection target = Some spec"
  obtains s' where "\<not> ss_degraded s" "current_session P key spec s d s'" "auth = session_auth P (oauth_mode target) s'"
    "\<exists>tok. ss_access_token s' = Some tok"
proof -
  have d: "\<not> ss_degraded s" using assms by (auto simp: resolve_session_def)
  show thesis
  proof (cases "needs_refresh (pe_now P) s")
    case True
    with assms d obtain s' where s': "refresh_selected_session (pe_seal P) (pe_parse_url P) (pe_refresh P) spec key s d = (Inr s', d')"
      "auth = session_auth P (oauth_mode target) s'"
      by (auto simp: resolve_session_def split: if_splits prod.splits sum.splits)
    with True have "current_session P key spec s d s'" by (auto simp: current_session_def)
    with that d s' refreshed_session_has_token show thesis by blast
  next
    case False
    with assms d have "auth = session_auth P (oauth_mode target) s" by (auto simp: resolve_session_def split: if_splits)
    with False that [OF d, of s] show thesis
      by (auto simp: current_session_def needs_refresh_def split: option.splits)
  qed
qed

definition spec_headers :: "auth_spec \<Rightarrow> string option" where
  "spec_headers spec = strip_header_lower (registration_auth spec)"

definition for_connection :: "registration \<Rightarrow> auth_spec \<Rightarrow> proxy_target \<Rightarrow> bool" where
  "for_connection reg spec t \<longleftrightarrow> pt_name t = reg_name reg \<and> pt_upstream t = reg_upstream reg
     \<and> pt_body_limit_bytes t = reg_body_limit_bytes reg \<and> pt_timeouts t = reg_timeouts reg \<and> pt_egress t = reg_egress reg
     \<and> strip_header_lower (pt_auth t) = spec_headers spec"

lemma apply_spec_oauth:
  assumes "apply_spec P (from_registration reg) spec = Inr t0" and "is_oauth spec"
  obtains label m where "oauth_session_label spec = Some label" "pt_auth t0 = PaOauth m [] None None"
    "pt_oauth_session_label t0 = Some label" "pt_oauth_selection t0 = Some spec" "for_connection reg spec t0"
proof -
  from assms have "apply_oauth P (from_registration reg) spec = Inr t0"
    by (cases spec) simp_all
  moreover have "spec_headers spec = None" using assms(2) by (cases spec) (simp_all add: spec_headers_def)
  ultimately show thesis
    using that by (auto simp: apply_oauth_def for_connection_def from_registration_def split: if_splits option.splits)
qed

lemma oauth_phase_Inr:
  assumes "oauth_phase P ctx t0 st d = (Inr t, st', d')" and "pt_auth t0 = PaOauth m x y z"
    and "pt_oauth_session_label t0 = Some label" and "pt_oauth_selection t0 = Some spec"
  obtains rt s s' tok where "st_oauth st = Some rt" "selected_source (pe_parse_url P) (pt_name t0) label d = Inr (Some spec)"
    "oauth_get (pe_seal P) (ort_sealing_key rt) (pt_name t0) label d = Inr (Some s)" "\<not> ss_degraded s"
    "current_session P (ort_sealing_key rt) spec s d s'" "ss_access_token s' = Some tok"
    "t = t0\<lparr>pt_auth := session_auth P (oauth_mode t0) s'\<rparr>"
proof -
  from assms(1-3) obtain auth where r: "resolve_oauth_token P st t0 label d = (Inr auth, st', d')" "t = t0\<lparr>pt_auth := auth\<rparr>"
    by (auto simp: oauth_phase_def split: prod.splits sum.splits)
  then obtain rt s where rt: "st_oauth st = Some rt" "oauth_consistent P st t0 label d"
    "oauth_get (pe_seal P) (ort_sealing_key rt) (pt_name t0) label d = Inr (Some s)"
    "resolve_session P (ort_sealing_key rt) t0 label s d = (Inr auth, d')"
    by (auto simp: resolve_oauth_token_def Let_def split: option.splits if_splits sum.splits prod.splits)
  from rt(2) assms(4) have "selected_source (pe_parse_url P) (pt_name t0) label d = Inr (Some spec)"
    by (simp add: oauth_consistent_def)
  with resolve_session_Inr [OF rt(4) assms(4)] rt r that show thesis by metis
qed

lemma selected_env_Inr [simp]: "selected_env P n = Inr v \<longleftrightarrow> pe_vars P n = Some v \<and> v \<noteq> []"
  by (auto simp: selected_env_def split: option.splits)

lemmas bearer_carries = carries.env_bearer [simplified] carries.stored_bearer [simplified] carries.op_bearer [simplified]

lemma oauth_phase_pass: "\<not> is_PaOauth (pt_auth t) \<Longrightarrow> oauth_phase P ctx t st d = (Inr t, st, d)"
  by (cases "pt_auth t") (simp_all add: oauth_phase_def)

lemma stored_phase_pass: "\<not> is_PaStored (pt_auth t) \<Longrightarrow> stored_phase P ctx t st d = (Inr t, st, d)"
  by (cases "pt_auth t") (simp_all add: stored_phase_def)

lemma op_phase_pass: "\<not> is_PaOp (pt_auth t) \<Longrightarrow> op_phase P ctx t st d = (Inr t, st, d)"
  by (cases "pt_auth t") (simp_all add: op_phase_def)

lemma stored_phase_Inr:
  assumes "stored_phase P ctx t0 st d = (Inr t, st', d')" and "pt_auth t0 = PaStored h m r x"
  obtains v where "resolve_stored_credential P st r d = Inr v" "t = t0\<lparr>pt_auth := PaStored h m r (Some v)\<rparr>" "st' = st" "d' = d"
  using assms by (auto simp: stored_phase_def split: sum.splits)

lemma op_phase_Inr:
  assumes "op_phase P ctx t0 st d = (Inr t, st', d')" and "pt_auth t0 = PaOp h m r x"
  obtains v where "Option.bind (st_op_resolver st) (op_get r) = Some v" "v \<noteq> []"
    "t = t0\<lparr>pt_auth := PaOp h m r (Some v)\<rparr>"
proof (cases "Option.bind (st_op_resolver st) (op_get r)")
  case None
  with assms show thesis by (simp add: op_phase_def)
next
  case (Some v)
  with assms that show thesis by (cases "v = []") (simp_all add: op_phase_def)
qed

lemma materialised_target:
  assumes spec: "apply_spec P (from_registration reg) spec = Inr t0"
    and oauth: "oauth_phase P ctx (t0\<lparr>pt_auth_source := src\<rparr>) st d = (Inr t1, st1, d1)"
    and stored: "stored_phase P ctx t1 st1 d1 = (Inr t2, st2, d2)" and op: "op_phase P ctx t2 st2 d2 = (Inr t, st3, d3)"
  shows "for_connection reg spec t \<and> carries P st d reg spec (injected_headers any t)"
proof (cases "is_oauth spec")
  case True
  obtain label m where l: "oauth_session_label spec = Some label" "pt_auth t0 = PaOauth m [] None None"
    "pt_oauth_session_label t0 = Some label" "pt_oauth_selection t0 = Some spec" "for_connection reg spec t0"
    using apply_spec_oauth [OF spec True] .
  let ?t0 = "t0\<lparr>pt_auth_source := src\<rparr>"
  have t0: "pt_auth ?t0 = PaOauth m [] None None" "pt_oauth_session_label ?t0 = Some label" "pt_oauth_selection ?t0 = Some spec"
    using l by simp_all
  obtain rt s s' tok where o: "st_oauth st = Some rt" "selected_source (pe_parse_url P) (pt_name ?t0) label d = Inr (Some spec)"
    "oauth_get (pe_seal P) (ort_sealing_key rt) (pt_name ?t0) label d = Inr (Some s)" "\<not> ss_degraded s"
    "current_session P (ort_sealing_key rt) spec s d s'" "ss_access_token s' = Some tok"
    "t1 = ?t0\<lparr>pt_auth := session_auth P (oauth_mode ?t0) s'\<rparr>"
    using oauth_phase_Inr [OF oauth t0] .
  have a: "pt_auth t1 = session_auth P (oauth_mode ?t0) s'" using o(7) by simp
  with stored have "t2 = t1" by (simp add: stored_phase_def session_auth_def)
  with a op have t: "t = t1" by (simp add: op_phase_def session_auth_def)
  with o(6,7) l(5) have "injected_headers any t = (''Authorization'', ''Bearer '' @ tok) # codex_account_header reg s'"
    by (cases "ss_account_id s'") (simp_all add: injected_headers_def session_auth_def codex_account_header_def for_connection_def)
  moreover have "for_connection reg spec t"
    using l(2,5) o(7) t by (simp add: for_connection_def session_auth_def)
  ultimately show ?thesis
    using carries.oauth [OF l(1), of P reg d st rt s s' tok] l(5) o by (simp add: for_connection_def)
next
  case False
  note defs = from_registration_def for_connection_def spec_headers_def injected_headers_def auth_or_bearer_def
  let ?t0 = "t0\<lparr>pt_auth_source := src\<rparr>"
  have "\<not> is_PaOauth (pt_auth ?t0)"
    using False spec by (cases spec) (auto split: sum.splits)
  with oauth have t1: "t1 = ?t0" "st1 = st" "d1 = d" by (simp_all add: oauth_phase_pass)
  consider (env) "\<not> is_PaStored (pt_auth t1)" "\<not> is_PaOp (pt_auth t1)" | (stored) h m r x where "pt_auth t1 = PaStored h m r x"
    | (op) h m r x where "pt_auth t1 = PaOp h m r x" by (cases "pt_auth t1") auto
  then show ?thesis
  proof cases
    case env
    with stored op have "t = t1" by (simp add: stored_phase_pass op_phase_pass)
    with env False spec t1 show ?thesis
      by (cases spec) (auto simp: defs carries.none carries.env_header bearer_carries)
  next
    case s: (stored h m r x)
    obtain v where v: "resolve_stored_credential P st r d = Inr v" "t2 = t1\<lparr>pt_auth := PaStored h m r (Some v)\<rparr>"
      using stored_phase_Inr [OF stored s] unfolding t1 by metis
    with op have "t = t2" by (simp add: op_phase_pass)
    with s v False spec t1 show ?thesis
      by (cases spec) (auto simp: defs carries.stored_header bearer_carries)
  next
    case o: (op h m r x)
    with stored have t2: "t2 = t1" "st2 = st1" by (simp_all add: stored_phase_pass)
    obtain v where v: "Option.bind (st_op_resolver st) (op_get r) = Some v" "v \<noteq> []" "t = t1\<lparr>pt_auth := PaOp h m r (Some v)\<rparr>"
      using op_phase_Inr [OF op o [folded t2]] unfolding t2 t1 by metis
    with o False spec t1 show ?thesis
      by (cases spec) (auto simp: defs carries.op_header bearer_carries)
  qed
qed

section \<open>What reaches an upstream\<close>

text \<open>The connection \<open>reg\<close> named \<open>tool\<close> is open to the agent \<open>i\<close> with the account \<open>spec\<close>: the database as it
  stands now says so, and the running catalog agrees.\<close>

definition open_connection :: "int \<Rightarrow> app_state \<Rightarrow> db \<Rightarrow> agent_identity \<Rightarrow> string \<Rightarrow> registration \<Rightarrow> auth_spec \<Rightarrow> bool" where
  "open_connection now st d i tool reg spec \<longleftrightarrow>
     (\<exists>a \<in> set (agents d). ag_id a = ai_id i \<and> ag_public_id a = ai_public_id i \<and> row_allows now a tool)
   \<and> (\<exists>r \<in> set (registrations d). row_to_registration r = Inr reg) \<and> reg_name reg = tool \<and> \<not> reg_disabled reg
   \<and> lookup_active (st_catalog st) tool = Some reg
   \<and> (\<exists>b. creds_get (ai_id i) tool d = Inr (Some b) \<and> co_auth_spec b = spec)"

lemma admission_open_connection:
  assumes "db_ok d" and "admission_target P st ctx (Some i) d = (Inr t, d')"
  obtains reg spec t0 where "d' = d" "open_connection (pe_now P) st d i (cx_tool_name ctx) reg spec"
    "apply_spec P (from_registration reg) spec = Inr t0" "t = t0\<lparr>pt_auth_source := ''agent_override''\<rparr>"
proof -
  let ?tool = "cx_tool_name ctx"
  from assms(2) obtain rows spec t0 where t: "d' = d" "st_agent_creds st"
    "http_admissions (pe_now P) i (Some ?tool) d = Inr rows" "rows \<noteq> []"
    "ha_agent_active (last rows)" "ha_grant (last rows) = Inr ()"
    "activation (ha_registration (last rows)) (Some (st_catalog st)) = ''active''"
    "ha_account (last rows) = Some spec"
    "apply_spec P (from_registration (ha_registration (last rows))) spec = Inr t0"
    "t = t0\<lparr>pt_auth_source := ''agent_override''\<rparr>"
    by (elim admission_target_Inr) simp
  obtain r h where r: "r \<in> set (registrations d)" "connection_row ?tool r" "admission_of_row (pe_now P) i d r = Inr h" "rows = [h]"
    using named_admission_Inr [OF assms(1) t(3,4)] .
  note h = admission_of_row_InrD [OF r(3)]
  have down: "\<not> db_down d" using t(3) by (auto simp: http_admissions_def)
  have n: "rg_name r = ?tool" using r(2) by (simp add: connection_row_def)
  from t(5) r(4) h(2) obtain a where a: "joined_agent i d = Some a" by (auto simp: agent_active_def split: option.splits)
  then have a': "a \<in> set (agents d)" "ag_id a = ai_id i" "ag_public_id a = ai_public_id i"
    using joined_agent_Some_iff [OF assms(1)] by blast+
  have allows: "row_allows (pe_now P) a ?tool" using h(5) [OF a] t(5,6) r(4) n by simp
  obtain b where b: "joined_binding (Some a) ?tool d = Some b" using h(3) t(8) r(4) n a by fastforce
  have "map_option JVal (ha_account h) = Some (ov_auth_spec b)" by (rule h(4)) (simp add: n a b)
  with t(8) r(4) have "ov_auth_spec b = JVal spec" by simp
  with joined_binding_creds_get [OF down, of a ?tool] b a'(2)
  have "\<exists>co. creds_get (ai_id i) ?tool d = Inr (Some co) \<and> co_auth_spec co = spec" by (simp add: row_to_override_def)
  moreover have "lookup_active (st_catalog st) ?tool = Some (ha_registration h)" "\<not> reg_disabled (ha_registration h)"
    "reg_name (ha_registration h) = ?tool"
    using t(7) r(4) row_to_registration_fields(1) [OF h(1)] n by (auto simp: lookup_active_def lookup_any_def)
  ultimately have "open_connection (pe_now P) st d i ?tool (ha_registration h) spec"
    unfolding open_connection_def using a' allows r(1) h(1) by blast
  with that t(1,9,10) r(4) show thesis by simp
qed

lemma prepared_target:
  assumes "db_ok d" and "st_registrations st" and "prepare_target P ctx identity st d = (Inr t, st', d')"
  obtains i reg spec where "identity = Some i" "allows_tool i (cx_tool_name ctx) = Inr ()"
    "open_connection (pe_now P) st d i (cx_tool_name ctx) reg spec"
    "for_connection reg spec t" "\<And>any. carries P st d reg spec (injected_headers any t)"
proof -
  from assms(3) obtain u sa da where g: "gate_phase P ctx identity st d = (Inr u, sa, da)"
    and r1: "phase_bind (target_phase P ctx identity) (\<lambda>target. phase_bind (oauth_phase P ctx target) (\<lambda>target.
      phase_bind (stored_phase P ctx target) (op_phase P ctx))) sa da = (Inr t, st', d')"
    unfolding prepare_target_def by (rule phase_bind_InrE)
  from g have e: "sa = st" "da = d" by (auto simp: gate_phase_def split: option.splits sum.splits if_splits prod.splits)
  from r1 obtain ta sb db where ta: "target_phase P ctx identity sa da = (Inr ta, sb, db)"
    and r2: "phase_bind (oauth_phase P ctx ta) (\<lambda>target. phase_bind (stored_phase P ctx target) (op_phase P ctx)) sb db = (Inr t, st', d')"
    by (rule phase_bind_InrE)
  from ta assms(2) e have adm: "admission_target P st ctx identity d = (Inr ta, db)" and sb: "sb = st"
    by (auto simp: target_phase_def split: prod.splits)
  then obtain i where i: "identity = Some i" by (auto elim: admission_target_Inr)
  obtain reg spec t0 where o: "db = d" "open_connection (pe_now P) st d i (cx_tool_name ctx) reg spec"
    "apply_spec P (from_registration reg) spec = Inr t0" "ta = t0\<lparr>pt_auth_source := ''agent_override''\<rparr>"
    using admission_open_connection [OF assms(1) adm [unfolded i]] .
  from r2 obtain t1 s1 d1 where p1: "oauth_phase P ctx ta sb db = (Inr t1, s1, d1)"
    and r3: "phase_bind (stored_phase P ctx t1) (op_phase P ctx) s1 d1 = (Inr t, st', d')" by (rule phase_bind_InrE)
  from r3 obtain t2 s2 d2 where p2: "stored_phase P ctx t1 s1 d1 = (Inr t2, s2, d2)" "op_phase P ctx t2 s2 d2 = (Inr t, st', d')"
    by (rule phase_bind_InrE)
  note m = materialised_target [OF o(3) p1 [unfolded o(4) sb o(1)] p2]
  from g i have "allows_tool i (cx_tool_name ctx) = Inr ()" by (auto simp: gate_phase_def split: sum.splits prod.splits)
  with that i o(2) m show thesis by blast
qed

lemma sent_target:
  assumes "db_ok d" and "st_registrations st"
    and "pr_sent (proxy_handler P as_method identity tool path query req st d) = Some u"
  obtains i reg spec t st1 body where "identity = Some i" "allows_tool i tool = Inr ()"
    "open_connection (pe_now P) st d i tool reg spec" "for_connection reg spec t" "\<And>any. carries P st d reg spec (injected_headers any t)"
    "u = fst (build_upstream_request P st1 t (rq_method req) (upstream_url (reg_upstream reg) path query) (rq_headers req) body
      (Some (ai_name i)))"
proof (cases rule: proxy_handler_cases [of P as_method identity tool path query req st d])
  case (answered r st' d')
  with assms(3) show thesis by simp
next
  case (sent target st1 d1 x body' st' d')
  let ?ctx = "ctx_snapshot req as_method identity tool"
  have ctx: "cx_tool_name ?ctx = tool" "cx_agent_name ?ctx = map_option ai_name identity" by (simp_all add: ctx_snapshot_def)
  obtain i reg spec where i: "identity = Some i" "allows_tool i tool = Inr ()" "open_connection (pe_now P) st d i tool reg spec"
    "for_connection reg spec target" "\<And>any. carries P st d reg spec (injected_headers any target)"
    using prepared_target [OF assms(1,2) sent(1)] unfolding ctx by blast
  have "u = fst (build_upstream_request P st1 target (rq_method req) (upstream_url (pt_upstream target) path query) (rq_headers req)
      body' (cx_agent_name ?ctx))"
    using assms(3) sent by (simp add: send_phase_sent)
  with that i ctx show thesis by (simp add: for_connection_def)
qed

text \<open>C4. Nothing reaches an upstream without admission: when a request leaves the daemon, the caller has an
  agent identity that allows the tool, the database read for this request still holds that agent, neither
  revoked nor expired, with a reviewed grant for the tool and no denial, the connection is stored and enabled
  and is the one the running catalog serves, the agent has an account selected for it, and the request goes
  to that connection's upstream with the method and path of the caller.\<close>

theorem only_admitted_requests_leave:
  assumes "db_ok d" and "st_registrations st"
    and "pr_sent (proxy_handler P as_method identity tool path query req st d) = Some u"
  shows "\<exists>i reg spec. identity = Some i \<and> allows_tool i tool = Inr () \<and> open_connection (pe_now P) st d i tool reg spec
    \<and> ur_url u = upstream_url (reg_upstream reg) path query \<and> ur_method u = rq_method req"
proof -
  obtain i reg spec t st1 body where t: "identity = Some i" "allows_tool i tool = Inr ()"
    "open_connection (pe_now P) st d i tool reg spec"
    "u = fst (build_upstream_request P st1 t (rq_method req) (upstream_url (reg_upstream reg) path query) (rq_headers req) body
      (Some (ai_name i)))"
    using sent_target [OF assms] by metis
  then have "ur_url u = upstream_url (reg_upstream reg) path query" "ur_method u = rq_method req"
    by (simp_all add: build_upstream_request_def split_beta)
  with t show ?thesis by blast
qed

definition demo_proxy_env :: proxy_env where
  "demo_proxy_env = \<lparr>pe_vars = (\<lambda>v. if v = ''GH_TOKEN'' then Some ''tok'' else None), pe_parse_url = demo_url,
     pe_seal = demo_seal, pe_refresh = demo_refresh_env 20, pe_json = demo_json_lib, pe_regex = \<lparr>rx_new = (\<lambda>p. True), rx_find_iter = (\<lambda>p s. []), rx_replace_all = (\<lambda>p s r. s), rx_sha256 = (\<lambda>s. [])\<rparr>,
     pe_client = demo_client_env,
     pe_send = (\<lambda>u. UpReply \<lparr>us_status = 200, us_headers = [], us_events = [BodyChunk ''ok'']\<rparr>),
     pe_now = 200, pe_degraded_at = 200, pe_now_ms = 200000, pe_latency_ms = 1, pe_body_fails = False\<rparr>"

definition demo_call :: http_request where
  "demo_call = \<lparr>rq_method = ''GET'', rq_path = ''/api/github/user'',
     rq_headers = [(''accept'', ''*/*''), (''authorization'', ''Bearer lk''), (''x-api-key'', ''mine'')], rq_body = [],
     rq_peer_cert = None\<rparr>"

abbreviation demo_proxied :: proxy_result where
  "demo_proxied \<equiv> proxy_handler demo_proxy_env (Some AsBearer) (Some demo_identity) ''github'' ''user'' None demo_call demo_state demo_db"

lemma demo_admission:
  "http_admissions 200 demo_identity (Some ''github'') demo_db =
    Inr [\<lparr>ha_registration = demo_reg, ha_account = Some (Bearer ''GH_TOKEN''), ha_agent_active = True, ha_grant = Inr ()\<rparr>]"
proof -
  have "admission_of_row 200 demo_identity demo_db (registration_to_row demo_reg) =
    Inr \<lparr>ha_registration = demo_reg, ha_account = Some (Bearer ''GH_TOKEN''), ha_agent_active = True, ha_grant = Inr ()\<rparr>"
    unfolding admission_of_row_def demo_row
    by (simp add: joined_agent_def joined_binding_def demo_db_def demo_identity_def demo_agent_def binding_key_is_def
        registration_to_row_def demo_reg_def registration_new_def empty_db_def agent_active_def allows_tool_def admission_list_def)
  moreover have "connection_row ''github'' (registration_to_row demo_reg)"
    by (simp add: connection_row_def registration_to_row_def demo_reg_def registration_new_def)
  moreover have "\<not> db_down demo_db" "registrations demo_db = [registration_to_row demo_reg]"
    by (simp_all add: demo_db_def empty_db_def)
  ultimately show ?thesis by (simp add: named_admission demo_db_ok)
qed

definition demo_target :: proxy_target where
  "demo_target = (from_registration demo_reg)\<lparr>pt_auth := PaBearer (Some ''tok''), pt_auth_source := ''agent_override''\<rparr>"

lemma demo_prepared:
  assumes "cx_tool_name ctx = ''github''"
  shows "prepare_target demo_proxy_env ctx (Some demo_identity) demo_state demo_db = (Inr demo_target, demo_state, demo_db)"
proof -
  have "gate_phase demo_proxy_env ctx (Some demo_identity) demo_state demo_db = (Inr (), demo_state, demo_db)"
    by (simp add: gate_phase_def assms demo_identity_def allows_tool_def)
  moreover have "activation demo_reg (Some (st_catalog demo_state)) = ''active''"
    by (simp add: demo_state_def lookup_any_def) (simp add: demo_reg_def registration_new_def)
  then have "target_phase demo_proxy_env ctx (Some demo_identity) demo_state demo_db = (Inr demo_target, demo_state, demo_db)"
    using demo_admission
    by (simp add: target_phase_def admission_target_def assms demo_target_def demo_proxy_env_def selected_env_def)
       (simp add: demo_state_def demo_reg_def registration_new_def)
  ultimately show ?thesis
    by (simp add: prepare_target_def phase_bind_def oauth_phase_pass stored_phase_pass op_phase_pass demo_target_def)
qed

lemma demo_sent:
  "pr_sent demo_proxied = Some \<lparr>ur_client = fst (get_or_build_for (pe_client demo_proxy_env) (pt_name demo_target)
       (pt_timeouts demo_target) (pt_egress demo_target) (st_config demo_state) (st_client_pool demo_state)), ur_method = ''GET'', ur_url = ''https://api.github.com/user'',
     ur_headers = [(''accept'', ''*/*''), (''Authorization'', ''Bearer tok'')], ur_body = None\<rparr>"
proof -
  have "body_phase demo_proxy_env demo_call demo_target h ctx st d = (Inr [], st, d)" for h ctx st d
    by (simp add: body_phase_def read_request_body_def demo_proxy_env_def demo_call_def)
  moreover have "\<not> is_chatgpt_codex_upstream (pt_upstream demo_target)" by code_simp
  moreover have "upstream_url (pt_upstream demo_target) ''user'' None = ''https://api.github.com/user''" by code_simp
  moreover have "filter (\<lambda>(name, _). \<not> stripped_header demo_target name) (rq_headers demo_call) = [(''accept'', ''*/*'')]"
    by code_simp
  moreover have "injected_headers demo_state demo_target = [(''Authorization'', ''Bearer tok'')]" "rq_method demo_call = ''GET''"
    by (simp_all add: injected_headers_def demo_target_def demo_call_def)
  ultimately show ?thesis
    by (simp add: proxy_handler_def Let_def phase_bind_def demo_prepared ctx_snapshot_def codex_phase_def send_phase_sent
        build_upstream_request_def split_beta codex_headers_def)
qed

theorem only_admitted_requests_leave_witness:
  "\<exists>u i reg spec. pr_sent demo_proxied = Some u \<and> open_connection 200 demo_state demo_db i ''github'' reg spec
    \<and> ur_url u = upstream_url (reg_upstream reg) ''user'' None"
proof -
  have "st_registrations demo_state" "pe_now demo_proxy_env = 200" by (simp_all add: demo_state_def demo_proxy_env_def)
  with only_admitted_requests_leave [OF demo_db_ok _ demo_sent] demo_sent show ?thesis by metis
qed

lemma build_headers:
  "ur_headers (fst (build_upstream_request P st t m url hs body name)) =
    filter (\<lambda>(n, _). \<not> stripped_header t n) hs @ injected_headers st t @ codex_headers t hs name"
  by (simp add: build_upstream_request_def split_beta)

lemma lower_authorization: "to_lower ''Authorization'' = ''authorization''"
  by code_simp

lemma credential_header_stripped:
  assumes "carries P st d reg spec creds" and "for_connection reg spec t" and "(h, x) \<in> set creds" and "h \<noteq> ''ChatGPT-Account-ID''"
    and "to_lower n = to_lower h"
  shows "stripped_header t n"
proof -
  have "to_lower h = ''authorization'' \<or> strip_header_lower (pt_auth t) = Some (to_lower h)"
    using assms(1-4)
  proof cases
    case (oauth label rt s s' tok)
    with assms(3,4) have "h = ''Authorization''" by (auto simp: codex_account_header_def split: option.splits if_splits)
    then show ?thesis by (simp add: lower_authorization)
  qed (auto simp: for_connection_def spec_headers_def lower_authorization)
  then show ?thesis using assms(5) by (auto simp: stripped_header_def)
qed

text \<open>C5. Credentials do not mix: the headers of a request that leaves are some of the caller's own headers,
  then exactly the credential of the account that agent selected for that connection, then the two fixed
  headers of the Codex backend.  None of the caller's \<open>Authorization\<close>, \<open>X-Api-Key\<close> and \<open>Host\<close> headers, and
  none that shares its name with the credential's header, is among them; the ChatGPT account id is the
  exception.\<close>

theorem selected_credential_only:
  assumes "db_ok d" and "st_registrations st"
    and "pr_sent (proxy_handler P as_method identity tool path query req st d) = Some u"
  shows "\<exists>i reg spec kept creds extra. identity = Some i \<and> open_connection (pe_now P) st d i tool reg spec
    \<and> carries P st d reg spec creds \<and> ur_headers u = kept @ creds @ extra
    \<and> (\<forall>(n, v) \<in> set kept. (n, v) \<in> set (rq_headers req) \<and> to_lower n \<notin> {''host'', ''authorization'', ''x-api-key''}
         \<and> (\<forall>(h, x) \<in> set creds. h \<noteq> ''ChatGPT-Account-ID'' \<longrightarrow> to_lower n \<noteq> to_lower h))
    \<and> fst ` set extra \<subseteq> {''OpenAI-Beta'', ''originator''}"
proof -
  obtain i reg spec t st1 body where t: "identity = Some i" "open_connection (pe_now P) st d i tool reg spec"
    "for_connection reg spec t" "\<And>any. carries P st d reg spec (injected_headers any t)"
    "u = fst (build_upstream_request P st1 t (rq_method req) (upstream_url (reg_upstream reg) path query) (rq_headers req) body
      (Some (ai_name i)))"
    using sent_target [OF assms] by metis
  let ?kept = "filter (\<lambda>(n, _). \<not> stripped_header t n) (rq_headers req)"
  let ?extra = "codex_headers t (rq_headers req) (Some (ai_name i))"
  have kept: "(n, v) \<in> set (rq_headers req) \<and> to_lower n \<notin> {''host'', ''authorization'', ''x-api-key''}
      \<and> (\<forall>(h, x) \<in> set (injected_headers st1 t). h \<noteq> ''ChatGPT-Account-ID'' \<longrightarrow> to_lower n \<noteq> to_lower h)"
    if "(n, v) \<in> set ?kept" for n v
    using that credential_header_stripped [OF t(4) t(3)] by (fastforce simp: stripped_header_def Let_def)
  have "fst ` set ?extra \<subseteq> {''OpenAI-Beta'', ''originator''}" by (auto simp: codex_headers_def split: option.splits if_splits)
  moreover have "ur_headers u = ?kept @ injected_headers st1 t @ ?extra" using t(5) by (simp add: build_headers)
  moreover have "\<forall>(n, v) \<in> set ?kept. (n, v) \<in> set (rq_headers req) \<and> to_lower n \<notin> {''host'', ''authorization'', ''x-api-key''}
      \<and> (\<forall>(h, x) \<in> set (injected_headers st1 t). h \<noteq> ''ChatGPT-Account-ID'' \<longrightarrow> to_lower n \<noteq> to_lower h)"
    using kept by blast
  ultimately show ?thesis using t(1,2) t(4) [of st1] by blast
qed

theorem selected_credential_only_witness:
  "\<exists>u kept creds extra. pr_sent demo_proxied = Some u \<and> ur_headers u = kept @ creds @ extra
    \<and> ur_headers u = [(''accept'', ''*/*''), (''Authorization'', ''Bearer tok'')]
    \<and> (\<exists>i reg spec. open_connection 200 demo_state demo_db i ''github'' reg spec
         \<and> carries demo_proxy_env demo_state demo_db reg spec creds)"
proof -
  have "st_registrations demo_state" "pe_now demo_proxy_env = 200" by (simp_all add: demo_state_def demo_proxy_env_def)
  with selected_credential_only [OF demo_db_ok _ demo_sent] obtain i reg spec kept creds extra where
    "open_connection 200 demo_state demo_db i ''github'' reg spec" "carries demo_proxy_env demo_state demo_db reg spec creds"
    "[(''accept'', ''*/*''), (''Authorization'', ''Bearer tok'')] = kept @ creds @ extra"
    by auto
  then show ?thesis unfolding demo_sent by (intro exI [of _ kept] exI [of _ creds] exI [of _ extra] exI conjI refl) auto
qed

text \<open>C7. Every request is accounted for: with the audit sink on and the database up, handling one request
  adds at least one audit row, every row it adds names the tool, the agent, the method and the path of that
  request, and no other table changes except that an OAuth session may be refreshed or marked.  A request
  that does not leave the daemon is answered with an error status.\<close>

theorem every_request_recorded:
  "let r = proxy_handler P as_method identity tool path query req st d in
   proxy_frame d (pr_db r)
   \<and> (\<exists>rows. audit (pr_db r) = audit d @ rows \<and> (\<forall>row \<in> set rows. request_row (ctx_snapshot req as_method identity tool) row)
        \<and> (st_audit st \<and> \<not> db_down d \<longrightarrow> rows \<noteq> []))
   \<and> (pr_sent r = None \<longrightarrow> (\<exists>e. pr_reply r = Full e \<and> 400 \<le> hr_status e))"
proof -
  let ?ctx = "ctx_snapshot req as_method identity tool"
  let ?r = "proxy_handler P as_method identity tool path query req st d"
  have "logs ?ctx st d (pr_db ?r) \<and> (pr_sent ?r = None \<longrightarrow> (\<exists>e. pr_reply ?r = Full e \<and> 400 \<le> hr_status e))"
  proof (cases rule: proxy_handler_cases [of P as_method identity tool path query req st d])
    case (answered r st' d')
    then show ?thesis by simp
  next
    case (sent target st1 d1 x body' st' d')
    then have "logs ?ctx st1 d1 (pr_db ?r)" by (metis send_phase_logs logs_fixup)
    with logs_same [OF sent(2)] logs_after [OF sent(3,4)] have "logs ?ctx st d (pr_db ?r)" by blast
    with sent show ?thesis by (simp add: send_phase_sent)
  qed
  then show ?thesis by (simp add: Let_def logs_def list_all_iff)
qed

theorem every_request_recorded_witness:
  "\<exists>rows. audit (pr_db demo_proxied) = audit demo_db @ rows \<and> rows \<noteq> []"
  using every_request_recorded [of demo_proxy_env "Some AsBearer" "Some demo_identity" "''github''" "''user''" None demo_call demo_state demo_db]
  by (auto simp: Let_def demo_state_def demo_db_def empty_db_def)



end
