(* ===== verification/RegistryApi.thy ===== *)
theory RegistryApi
  imports ProxySafety
begin

text \<open>
  The operator endpoints for registrations, \<open>registrations/api.rs\<close>: list, get, put, delete, enable and the
  stored credential of a registration.  A handler maps the shared runtime state (the catalog and the
  resolved credentials that the proxy reads, the \<open>op://\<close> cache, the operational log) and the database to the
  response, the new runtime state and the new database.  \<open>registry_env\<close> holds what comes from outside: the
  process environment, the \<open>op\<close> command, the URL parser, the JSON codec of service descriptions, the cipher
  with its nonce, the random bytes of a secret reference, and the clock readings of one call.
\<close>

section \<open>Rendering\<close>

definition label_json :: "string option \<Rightarrow> (string \<times> json) list" where
  "label_json l = (case l of None \<Rightarrow> [] | Some s \<Rightarrow> [(''session_label'', JStr s)])"

fun auth_spec_json :: "auth_spec \<Rightarrow> json" where
  "auth_spec_json AuthNone = JObj [(''kind'', JStr ''none'')]"
| "auth_spec_json (Header h v) = JObj [(''env_var'', JStr v), (''header'', JStr h), (''kind'', JStr ''header'')]"
| "auth_spec_json (Bearer v) = JObj [(''env_var'', JStr v), (''kind'', JStr ''bearer'')]"
| "auth_spec_json (StoredHeader h r) =
    JObj [(''header'', JStr h), (''kind'', JStr ''stored_header''), (''secret_ref'', JStr r)]"
| "auth_spec_json (StoredBearer r) = JObj [(''kind'', JStr ''stored_bearer''), (''secret_ref'', JStr r)]"
| "auth_spec_json (OpHeader h r) = JObj [(''header'', JStr h), (''kind'', JStr ''op_header''), (''reference'', JStr r)]"
| "auth_spec_json (OpBearer r) = JObj [(''kind'', JStr ''op_bearer''), (''reference'', JStr r)]"
| "auth_spec_json (OauthPkce c u sc a t l) =
    JObj ([(''auth_url'', JStr a), (''client_id'', JStr c), (''kind'', JStr ''oauth_pkce''), (''redirect_uri'', JStr u),
      (''scopes'', JArr (map JStr sc))] @ label_json l @ [(''token_url'', JStr t)])"
| "auth_spec_json (OauthDeviceCode c sc v t l) =
    JObj ([(''client_id'', JStr c), (''device_url'', JStr v), (''kind'', JStr ''oauth_device_code''),
      (''scopes'', JArr (map JStr sc))] @ label_json l @ [(''token_url'', JStr t)])"

definition timeouts_json :: "tool_timeouts \<Rightarrow> json" where
  "timeouts_json t = JObj [(''idle_seconds'', JNum (uint (idle_seconds t))), (''request_seconds'', JNum (uint (request_seconds t)))]"

text \<open>\<open>registration_to_admin_json\<close> with the three fields \<open>describe\<close> adds.\<close>

definition describe_json :: "string \<Rightarrow> registration \<Rightarrow> json" where
  "describe_json act r =
    JObj [(''activation'', JStr act), (''auth'', auth_spec_json (reg_auth r)),
      (''body_limit_bytes'', JNum (uint (reg_body_limit_bytes r))), (''configured'', JBool True),
      (''created_at'', JNum (reg_created_at r)), (''credential_readiness'', JStr ''not_checked''),
      (''description'', JStr (reg_description r)), (''disabled'', JBool (reg_disabled r)),
      (''egress'', JStr (egress_as_str (reg_egress r))), (''kind'', JStr (kind_as_str (reg_kind r))),
      (''metadata'', reg_metadata r), (''name'', JStr (reg_name r)), (''seed'', JBool (reg_seed r)),
      (''timeouts'', timeouts_json (reg_timeouts r)), (''updated_at'', JNum (reg_updated_at r)),
      (''upstream'', JStr (reg_upstream r))]"

fun registration_message :: "registration_error \<Rightarrow> string" where
  "registration_message InvalidHttpService =
    ''invalid http_service: use the version 1 request_response JSON contract with relative operation paths''"
| "registration_message InvalidUpstream =
    ''invalid upstream: use an absolute HTTP(S) base URL without userinfo, query or fragment''"
| "registration_message (NameInUse k) = ''name in use (existing kind: '' @ kind_as_str k @ '')''"
| "registration_message ReservedName = ''name is reserved''"
| "registration_message AuthRequired =
    ''kind=tool requires explicit '' @ [CHR 96] @ ''auth:'' @ [CHR 96] @ '' (use '' @ [CHR 96] @ ''auth: none'' @ [CHR 96] @ '' for authless)''"
| "registration_message ModelAuthRequired = ''kind=model requires non-none auth''"
| "registration_message (InvalidName why) = ''invalid name: '' @ why"
| "registration_message (InvalidMetadata why) = ''invalid metadata: '' @ why"
| "registration_message (WrongKind e r) =
    ''wrong kind (registered as '' @ kind_as_str e @ '', requested '' @ kind_as_str r @ '')''"
| "registration_message (RegBackend _) = ''internal error''"

fun registration_status_code :: "registration_error \<Rightarrow> nat \<times> string \<times> string" where
  "registration_status_code InvalidHttpService = (400, ''bad_request'', ''invalid_http_service'')"
| "registration_status_code InvalidUpstream = (400, ''bad_request'', ''invalid_upstream'')"
| "registration_status_code (NameInUse _) = (409, ''conflict'', ''name_in_use'')"
| "registration_status_code (WrongKind _ _) = (409, ''conflict'', ''wrong_kind'')"
| "registration_status_code ReservedName = (400, ''bad_request'', ''reserved_name'')"
| "registration_status_code (InvalidName _) = (400, ''bad_request'', ''invalid_name'')"
| "registration_status_code AuthRequired = (400, ''bad_request'', ''auth_required'')"
| "registration_status_code ModelAuthRequired = (400, ''bad_request'', ''model_auth_required'')"
| "registration_status_code (InvalidMetadata _) = (400, ''bad_request'', ''invalid_metadata'')"
| "registration_status_code (RegBackend _) = (500, ''auth_error'', ''internal_error'')"

definition registration_error_response :: "registration_error \<Rightarrow> http_response" where
  "registration_error_response e =
    (case registration_status_code e of (status, k, code) \<Rightarrow>
       json_response status (error_json [(''code'', JStr code), (''message'', JStr (registration_message e)), (''type'', JStr k)]))"

definition unknown_name_response :: "string \<Rightarrow> http_response" where
  "unknown_name_response name =
    json_response 404 (error_json [(''code'', JStr ''unknown_name''),
      (''message'', JStr (''registration not found: '' @ name)), (''type'', JStr ''not_found'')])"

definition no_content :: http_response where
  "no_content = \<lparr>hr_status = 204, hr_headers = [], hr_body = RBytes []\<rparr>"

definition activation_failed :: http_response where
  "activation_failed =
    json_response 503 (JObj [(''activation'', JStr ''failed''), (''credential_readiness'', JStr ''not_checked''),
      (''error'', JObj [(''code'', JStr ''connection_activation_failed''),
         (''message'', JStr ''configuration saved; runtime activation failed. Inspect the registration, repair invalid catalog data, then repeat the intended write or restart the deployment. Current authority remains enforced.''),
         (''type'', JStr ''availability_error'')]), (''saved'', JBool True)])"

section \<open>State\<close>

record registry_state =
  rs_catalog :: "catalog option"
  rs_resolved_creds :: "resolved_creds option"
  rs_credential_sealing_key :: "credential_sealing_key option"
  rs_credential_secrets :: bool
  rs_operational_log :: "emitter option"
  rs_op_resolver :: "op_resolver option"
  rs_agent_creds :: bool

record registry_env =
  ge_vars :: "string \<Rightarrow> string option"
  ge_op_read :: "string \<Rightarrow> string + string"
  ge_op_task :: bool
  ge_parse_url :: "string \<Rightarrow> url_view option"
  ge_codec :: service_codec
  ge_seal :: seal_lib
  ge_nonce :: "string option"
  ge_ref_bytes :: "8 word list"
  ge_now :: int
  ge_insert_at :: int
  ge_tombstone_at :: int

record put_body =
  pb_description :: string
  pb_upstream :: string
  pb_auth :: "auth_spec option"
  pb_egress :: "egress_mode option"
  pb_timeouts :: "tool_timeouts option"
  pb_body_limit_bytes :: "u64 option"
  pb_metadata :: "json option"

type_synonym registry_op = "registry_state \<Rightarrow> db \<Rightarrow> http_response \<times> registry_state \<times> db"

definition emit_registry :: "string \<Rightarrow> kind \<Rightarrow> string \<Rightarrow> registry_state \<Rightarrow> registry_state" where
  "emit_registry action k name rs =
    rs\<lparr>rs_operational_log := map_option (emit \<lparr>le_level = Info, le_component = CompRegistry,
      le_event = ''registration_'' @ action,
      le_message = ''registration '' @ action @ '': '' @ kind_as_str k @ '' '' @ name,
      le_fields = Some (JObj [(''action'', JStr action), (''kind'', JStr (kind_as_str k)), (''name'', JStr name)])\<rparr>)
      (rs_operational_log rs)\<rparr>"

definition merge_creds :: "resolved_creds \<Rightarrow> resolved_creds \<Rightarrow> resolved_creds" where
  "merge_creds snap extra = snap ++ extra"

definition refresh_runtime :: "registry_env \<Rightarrow> registry_state \<Rightarrow> db \<Rightarrow> (unit + unit) \<times> registry_state" where
  "refresh_runtime E rs d =
    (case rs_catalog rs of
       None \<Rightarrow> (Inr (), rs)
     | Some _ \<Rightarrow>
         (case catalog_from_repo d of
            Inl _ \<Rightarrow> (Inl (), rs)
          | Inr new_catalog \<Rightarrow>
              let extra = resolve_registration_creds_sync_env_only (ge_vars E) new_catalog in
              (Inr (), rs\<lparr>rs_resolved_creds := map_option (\<lambda>snap. merge_creds snap extra) (rs_resolved_creds rs),
                 rs_catalog := Some new_catalog,
                 rs_op_resolver := map_option (resync_op_references (ge_op_read E) (ge_op_task E) new_catalog
                   (if rs_agent_creds rs then Some d else None)) (rs_op_resolver rs)\<rparr>)))"

definition describe :: "registry_state \<Rightarrow> registration \<Rightarrow> json" where
  "describe rs r = describe_json (activation r (rs_catalog rs)) r"

section \<open>Handlers\<close>

definition op_list :: "kind \<Rightarrow> registry_op" where
  "op_list k rs d =
    ((case registration_list (Some k) d of
        Inr rows \<Rightarrow> json_response 200 (JObj [(kind_as_str k @ ''s'', JArr (map (describe rs) rows))])
      | Inl e \<Rightarrow> registration_error_response e), rs, d)"

definition op_get_registration :: "kind \<Rightarrow> string \<Rightarrow> registry_op" where
  "op_get_registration k name rs d =
    ((case registration_get name d of
        Inr (Some r) \<Rightarrow>
          if reg_kind r \<noteq> k then registration_error_response (WrongKind (reg_kind r) k)
          else json_response 200 (describe rs r)
      | Inr None \<Rightarrow> unknown_name_response name
      | Inl e \<Rightarrow> registration_error_response e), rs, d)"

definition put_auth :: "kind \<Rightarrow> auth_spec option \<Rightarrow> registration_error + auth_spec" where
  "put_auth k a =
    (case a of
       Some a \<Rightarrow> Inr a
     | None \<Rightarrow> if k = Infra then Inr AuthNone else Inl AuthRequired)"

text \<open>The checks of \<open>op_put\<close> before it reads the row.\<close>

definition put_checks :: "registry_env \<Rightarrow> kind \<Rightarrow> string \<Rightarrow> put_body \<Rightarrow> registration_error + auth_spec" where
  "put_checks E k name body =
    result_bind (validate_name name) (\<lambda>_.
    result_bind (validate_upstream (ge_parse_url E) k (pb_upstream body)) (\<lambda>_.
    result_bind (case pb_metadata body of Some m \<Rightarrow> from_metadata (ge_codec E) m | None \<Rightarrow> Inr None) (\<lambda>_.
    result_bind (put_auth k (pb_auth body)) (\<lambda>auth.
    case validate_op_reference auth of Inl msg \<Rightarrow> Inl (InvalidMetadata msg) | Inr _ \<Rightarrow> Inr auth))))"

definition put_registration :: "registry_env \<Rightarrow> kind \<Rightarrow> string \<Rightarrow> put_body \<Rightarrow> auth_spec \<Rightarrow> int \<Rightarrow> bool \<Rightarrow> registration" where
  "put_registration E k name body auth created_at disabled =
    \<lparr>reg_name = name, reg_kind = k, reg_description = pb_description body, reg_upstream = pb_upstream body,
     reg_auth = auth, reg_egress = (case pb_egress body of Some e \<Rightarrow> e | None \<Rightarrow> Direct),
     reg_timeouts = (case pb_timeouts body of Some t \<Rightarrow> t | None \<Rightarrow> default_timeouts),
     reg_body_limit_bytes = (case pb_body_limit_bytes body of Some b \<Rightarrow> b | None \<Rightarrow> 10 * 1024 * 1024),
     reg_metadata = (case pb_metadata body of Some m \<Rightarrow> m | None \<Rightarrow> JObj []),
     reg_seed = False, reg_disabled = disabled, reg_created_at = created_at, reg_updated_at = ge_now E\<rparr>"

definition put_existing :: "registry_env \<Rightarrow> kind \<Rightarrow> string \<Rightarrow> db \<Rightarrow> registration_error + (int \<times> bool)" where
  "put_existing E k name d =
    (case registration_get name d of
       Inl e \<Rightarrow> Inl e
     | Inr None \<Rightarrow> Inr (ge_now E, False)
     | Inr (Some existing) \<Rightarrow>
         if reg_kind existing \<noteq> k then Inl (WrongKind (reg_kind existing) k)
         else Inr (reg_created_at existing, reg_disabled existing))"

text \<open>What every write does once the row is stored: refresh, then answer.\<close>

definition activate :: "registry_env \<Rightarrow> (registry_state \<Rightarrow> http_response \<times> registry_state) \<Rightarrow> registry_op" where
  "activate E answer rs d =
    (case refresh_runtime E rs d of
       (Inl _, rs') \<Rightarrow> (activation_failed, rs', d)
     | (Inr _, rs') \<Rightarrow> (case answer rs' of (resp, rs'') \<Rightarrow> (resp, rs'', d)))"

definition op_put :: "registry_env \<Rightarrow> kind \<Rightarrow> string \<Rightarrow> put_body \<Rightarrow> registry_op" where
  "op_put E k name body rs d =
    (case put_checks E k name body of
       Inl e \<Rightarrow> (registration_error_response e, rs, d)
     | Inr auth \<Rightarrow>
         (case put_existing E k name d of
            Inl e \<Rightarrow> (registration_error_response e, rs, d)
          | Inr (created_at, disabled) \<Rightarrow>
              let r = put_registration E k name body auth created_at disabled in
              (case registration_upsert r d of
                 (Inl e, d') \<Rightarrow> (registration_error_response e, rs, d')
               | (Inr _, d') \<Rightarrow>
                   activate E (\<lambda>rs'.
                     let rs'' = emit_registry (if created_at \<noteq> ge_now E then ''updated'' else ''created'') k name rs' in
                     (json_response 200 (describe rs'' r), rs'')) rs d')))"

definition op_delete :: "registry_env \<Rightarrow> kind \<Rightarrow> string \<Rightarrow> registry_op" where
  "op_delete E k name rs d =
    (case registration_get name d of
       Inl e \<Rightarrow> (registration_error_response e, rs, d)
     | Inr None \<Rightarrow> (unknown_name_response name, rs, d)
     | Inr (Some r) \<Rightarrow>
         if reg_kind r \<noteq> k then (registration_error_response (WrongKind (reg_kind r) k), rs, d)
         else
           (case (if reg_seed r then registration_set_disabled (ge_now E) name True d else registration_delete name d) of
              (Inl e, d') \<Rightarrow> (registration_error_response e, rs, d')
            | (Inr _, d') \<Rightarrow> activate E (\<lambda>rs'. (no_content, emit_registry ''deleted'' k name rs')) rs d'))"

definition op_enable :: "registry_env \<Rightarrow> kind \<Rightarrow> string \<Rightarrow> registry_op" where
  "op_enable E k name rs d =
    (case registration_get name d of
       Inl e \<Rightarrow> (registration_error_response e, rs, d)
     | Inr None \<Rightarrow> (unknown_name_response name, rs, d)
     | Inr (Some r) \<Rightarrow>
         if reg_kind r \<noteq> k then (registration_error_response (WrongKind (reg_kind r) k), rs, d)
         else
           (case registration_set_disabled (ge_now E) name False d of
              (Inl e, d') \<Rightarrow> (registration_error_response e, rs, d')
            | (Inr _, d') \<Rightarrow> activate E (\<lambda>rs'. (no_content, rs')) rs d'))"

definition stored_auth :: "string option \<Rightarrow> string \<Rightarrow> auth_spec" where
  "stored_auth header r = (case header of Some h \<Rightarrow> StoredHeader h r | None \<Rightarrow> StoredBearer r)"

text \<open>A rotated or cleared reference is tombstoned after the write; a failure of that is only logged.\<close>

definition tombstone_old :: "registry_env \<Rightarrow> string option \<Rightarrow> db \<Rightarrow> db" where
  "tombstone_old E old d =
    (case old of Some r \<Rightarrow> snd (tombstone_if_unreferenced (ge_tombstone_at E) r d) | None \<Rightarrow> d)"

definition op_put_credential :: "registry_env \<Rightarrow> kind \<Rightarrow> string \<Rightarrow> string \<Rightarrow> registry_op" where
  "op_put_credential E k name value rs d =
    (case rs_credential_sealing_key rs of
       None \<Rightarrow> (unknown_name_response name, rs, d)
     | Some key \<Rightarrow>
         if \<not> rs_credential_secrets rs then (unknown_name_response name, rs, d)
         else
           (case registration_get name d of
              Inl e \<Rightarrow> (registration_error_response e, rs, d)
            | Inr None \<Rightarrow> (unknown_name_response name, rs, d)
            | Inr (Some existing) \<Rightarrow>
                if reg_kind existing \<noteq> k then (registration_error_response (WrongKind (reg_kind existing) k), rs, d)
                else
                  (case credential_seal (ge_seal E) key (ge_nonce E) value of
                     Inl _ \<Rightarrow> (registration_error_response (RegBackend ''credential seal failed''), rs, d)
                   | Inr (sealed, nonce) \<Rightarrow>
                       (case secret_insert (ge_ref_bytes E) (ge_insert_at E) sealed nonce d of
                          (Inl _, d1) \<Rightarrow> (registration_error_response (RegBackend ''credential store insert failed''), rs, d1)
                        | (Inr secret_ref, d1) \<Rightarrow>
                            (case registration_upsert (existing\<lparr>reg_auth := stored_auth (header_name (reg_auth existing)) secret_ref,
                                    reg_seed := False, reg_updated_at := ge_now E\<rparr>) d1 of
                               (Inl e, d2) \<Rightarrow> (registration_error_response e, rs, d2)
                             | (Inr _, d2) \<Rightarrow>
                                 activate E (\<lambda>rs'. (json_response 200 (JObj [(''secret_ref'', JStr secret_ref),
                                     (''set_at'', JNum (ge_now E))]), rs'))
                                   rs (tombstone_old E (stored_secret_ref (reg_auth existing)) d2))))))"

definition op_delete_credential :: "registry_env \<Rightarrow> kind \<Rightarrow> string \<Rightarrow> registry_op" where
  "op_delete_credential E k name rs d =
    (if rs_credential_sealing_key rs = None \<or> \<not> rs_credential_secrets rs then (unknown_name_response name, rs, d)
     else
       let cleared = json_response 200 (JObj [(''cleared'', JBool True)]) in
       (case registration_get name d of
          Inl e \<Rightarrow> (registration_error_response e, rs, d)
        | Inr None \<Rightarrow> (unknown_name_response name, rs, d)
        | Inr (Some existing) \<Rightarrow>
            if reg_kind existing \<noteq> k then (registration_error_response (WrongKind (reg_kind existing) k), rs, d)
            else
              (case stored_secret_ref (reg_auth existing) of
                 None \<Rightarrow> (cleared, rs, d)
               | Some old \<Rightarrow>
                   (case registration_upsert (existing\<lparr>reg_auth := AuthNone, reg_seed := False, reg_updated_at := ge_now E\<rparr>) d of
                      (Inl e, d1) \<Rightarrow> (registration_error_response e, rs, d1)
                    | (Inr _, d1) \<Rightarrow> activate E (\<lambda>rs'. (cleared, rs')) rs (tombstone_old E (Some old) d1)))))"

text \<open>The routes of one kind: the shims that fix the kind and call the handlers.\<close>

datatype registry_request =
    RList
  | RGet string
  | RPut string put_body
  | RDelete string
  | REnable string
  | RPutCredential string string
  | RDeleteCredential string

fun registry_handle :: "registry_env \<Rightarrow> kind \<Rightarrow> registry_request \<Rightarrow> registry_op" where
  "registry_handle E k RList = op_list k"
| "registry_handle E k (RGet name) = op_get_registration k name"
| "registry_handle E k (RPut name body) = op_put E k name body"
| "registry_handle E k (RDelete name) = op_delete E k name"
| "registry_handle E k (REnable name) = op_enable E k name"
| "registry_handle E k (RPutCredential name value) = op_put_credential E k name value"
| "registry_handle E k (RDeleteCredential name) = op_delete_credential E k name"

section \<open>The running catalog\<close>

definition catalog_current :: "registry_state \<Rightarrow> db \<Rightarrow> bool" where
  "catalog_current rs d \<longleftrightarrow> (\<forall>c. rs_catalog rs = Some c \<longrightarrow> catalog_from_repo d = Inr c)"

lemma catalog_from_repo_cong:
  "registrations d' = registrations d \<Longrightarrow> db_down d' = db_down d \<Longrightarrow> catalog_from_repo d' = catalog_from_repo d"
  by (simp add: catalog_from_repo_def registration_list_def)

lemma registry_error_unchanged:
  "registration_upsert r d = (Inl e, d') \<Longrightarrow> d' = d"
  "registration_delete n d = (Inl e, d') \<Longrightarrow> d' = d"
  "registration_set_disabled now n b d = (Inl e, d') \<Longrightarrow> d' = d"
  by (auto simp: registry_ops Let_def split: if_splits option.splits)

lemma tombstone_if_unreferenced_registrations [simp]:
  "registrations (snd (tombstone_if_unreferenced now r d)) = registrations d"
  "db_down (snd (tombstone_if_unreferenced now r d)) = db_down d"
  by (simp_all add: tombstone_if_unreferenced_def tombstone_where_def Let_def split_beta)

lemma tombstone_old_registrations [simp]:
  "registrations (tombstone_old E r d) = registrations d" "db_down (tombstone_old E r d) = db_down d"
  by (simp_all add: tombstone_old_def split: option.split)

lemma secret_insert_registrations:
  "secret_insert bs now s n d = (r, d') \<Longrightarrow> registrations d' = registrations d \<and> db_down d' = db_down d"
  by (auto simp: secret_insert_def Let_def split: if_splits)

lemma secret_insert_current:
  "secret_insert bs now s n d = (r, d') \<Longrightarrow> catalog_current rs d \<Longrightarrow> catalog_current rs d'"
  using catalog_from_repo_cong [of d' d] by (auto simp: catalog_current_def dest!: secret_insert_registrations)

lemma emit_registry_catalog [simp]: "rs_catalog (emit_registry a k n rs) = rs_catalog rs"
  by (simp add: emit_registry_def)

lemma refresh_runtime_current:
  "refresh_runtime E rs d = (Inr u, rs') \<Longrightarrow> catalog_current rs' d"
  "refresh_runtime E rs d = (Inl u, rs') \<Longrightarrow> rs' = rs"
  by (auto simp: refresh_runtime_def catalog_current_def Let_def split: option.splits sum.splits)

lemma activate_current:
  assumes "activate E answer rs d = (resp, rs', d')" and "\<And>x. rs_catalog (snd (answer x)) = rs_catalog x"
  shows "d' = d \<and> (resp = activation_failed \<or> catalog_current rs' d')"
proof (cases "refresh_runtime E rs d")
  case (Pair r rs1)
  with assms(1) have d: "d' = d" by (auto simp: activate_def split: sum.splits prod.splits)
  show ?thesis
  proof (cases r)
    case (Inl u)
    with Pair assms(1) d show ?thesis by (simp add: activate_def)
  next
    case (Inr u)
    with Pair have "catalog_current rs1 d" by (simp add: refresh_runtime_current)
    moreover have "rs_catalog rs' = rs_catalog rs1"
      using assms(1) Pair Inr assms(2) [of rs1] by (auto simp: activate_def split: prod.splits)
    ultimately show ?thesis using d by (simp add: catalog_current_def)
  qed
qed

text \<open>The catalog that the proxy reads never drifts silently: a registry call leaves it equal to what a
  fresh read of the database builds, unless the call answers 503 with \<open>saved\<close> set and activation failed.\<close>

theorem catalog_stays_current:
  assumes "catalog_current rs d" and "registry_handle E k q rs d = (resp, rs', d')"
  shows "resp = activation_failed \<or> catalog_current rs' d'"
proof (cases q)
  case RList
  with assms show ?thesis by (auto simp: op_list_def)
next
  case (RGet name)
  with assms show ?thesis by (auto simp: op_get_registration_def)
next
  case (RPut name body)
  with assms show ?thesis
    by (auto simp: op_put_def Let_def split: sum.splits prod.splits dest!: activate_current registry_error_unchanged)
next
  case (RDelete name)
  with assms show ?thesis
    by (auto simp: op_delete_def split: sum.splits prod.splits option.splits if_splits
        dest!: activate_current registry_error_unchanged)
next
  case (REnable name)
  with assms show ?thesis
    by (auto simp: op_enable_def split: sum.splits prod.splits option.splits if_splits
        dest!: activate_current registry_error_unchanged)
next
  case (RPutCredential name v)
  with assms show ?thesis
    by (auto simp: op_put_credential_def split: sum.splits prod.splits option.splits if_splits
        dest!: activate_current registry_error_unchanged dest: secret_insert_current)
next
  case (RDeleteCredential name)
  with assms show ?thesis
    by (auto simp: op_delete_credential_def Let_def split: sum.splits prod.splits option.splits if_splits
        dest!: activate_current registry_error_unchanged)
qed

section \<open>The database\<close>

lemma upsert_db_ok: "registration_upsert r d = (x, d') \<Longrightarrow> db_ok d \<Longrightarrow> db_ok d'"
  using registry_step_keeps [OF step_upsert, of d r] by simp

lemma delete_db_ok: "registration_delete n d = (x, d') \<Longrightarrow> db_ok d \<Longrightarrow> db_ok d'"
  using registry_step_keeps [OF step_delete, of d n] by simp

lemma set_disabled_db_ok: "registration_set_disabled now n b d = (x, d') \<Longrightarrow> db_ok d \<Longrightarrow> db_ok d'"
  using registry_step_keeps [OF step_set_disabled, of d now n b] by simp

lemma secret_insert_db_ok: "secret_insert bs now s n d = (x, d') \<Longrightarrow> db_ok d \<Longrightarrow> db_ok d'"
  using secret_step_db_ok [OF ss_insert, of d bs now s n] by simp

lemma tombstone_old_db_ok: "db_ok d \<Longrightarrow> db_ok (tombstone_old E r d)"
  by (auto simp: tombstone_old_def split: option.split intro: secret_step_db_ok [OF ss_tombstone])

lemma activate_db: "activate E answer rs d = (resp, rs', d') \<Longrightarrow> d' = d"
  by (auto simp: activate_def split: prod.splits sum.splits)

lemmas registry_write_db_ok =
  upsert_db_ok delete_db_ok set_disabled_db_ok secret_insert_db_ok tombstone_old_db_ok

lemma registry_handle_db_ok:
  assumes "db_ok d" and "registry_handle E k q rs d = (resp, rs', d')"
  shows "db_ok d'"
proof (cases q)
  case (RPutCredential name v)
  with assms show ?thesis
    by (auto simp: op_put_credential_def split: sum.splits prod.splits option.splits if_splits
        dest!: activate_db intro: registry_write_db_ok)
qed (use assms in \<open>auto simp: op_list_def op_get_registration_def op_put_def op_delete_def op_enable_def op_delete_credential_def
    Let_def split: sum.splits prod.splits option.splits if_splits dest!: activate_db intro: registry_write_db_ok\<close>)

section \<open>Stored credentials\<close>

lemma reg_get_row:
  "registration_get name d = Inr (Some r) \<longleftrightarrow> \<not> db_down d \<and> (\<exists>row. reg_by_name name d = Some row \<and> row_to_registration row = Inr r)"
  by (auto simp: registration_get_def split: option.splits)

lemma readable_row:
  assumes "row_to_registration row = Inr r"
  shows "rg_upstream row = reg_upstream r" "rg_egress row = egress_as_str (reg_egress r)" "rg_kind row = kind_as_str (reg_kind r)"
    "reg_name r = rg_name row"
  using assms by (auto simp: row_to_registration_def row_egress_def row_kind_def split: if_splits)

lemma reg_by_name_name: "reg_by_name n d = Some row \<Longrightarrow> rg_name row = n"
  by (auto simp: reg_by_name_def dest: find_SomeD)

text \<open>Rewriting the authentication of a stored registration keeps its destination, so the triggers leave
  every binding and grant alone.\<close>

lemma upsert_auth:
  assumes "registration_get name d = Inr (Some old)" and "r = old\<lparr>reg_auth := a, reg_seed := s, reg_updated_at := t\<rparr>"
  defines "d' \<equiv> d\<lparr>registrations := update_where (\<lambda>x. rg_name x = name) (upsert_row r) (registrations d)\<rparr>"
  shows "registration_upsert r d = (Inr (), d')" and "\<exists>reg. registration_get name d' = Inr (Some reg) \<and> reg_auth reg = a"
    and "destination name d' = destination name d"
proof -
  from assms(1) obtain row where row: "\<not> db_down d" "reg_by_name name d = Some row" "row_to_registration row = Inr old"
    by (auto simp: reg_get_row)
  note f = readable_row [OF row(3)] and n = reg_by_name_name [OF row(2)]
  have rn: "reg_name r = name" using f(4) n assms(2) by simp
  have same: "rg_upstream (upsert_row r row) = rg_upstream row" "rg_egress (upsert_row r row) = rg_egress row"
    using f assms(2) by simp_all
  then show "registration_upsert r d = (Inr (), d')"
    using row rn by (simp add: registration_upsert_def d'_def destination_changed_def Let_def)
  have row': "reg_by_name name d' = Some (upsert_row r row)"
    using row(2) by (simp add: d'_def reg_by_name_update_where)
  then show "destination name d' = destination name d"
    using row(2) same by (simp add: destination_def)
  have "\<exists>reg. row_to_registration (upsert_row r row) = Inr reg \<and> reg_auth reg = a"
    using f(3) assms(2) by (simp add: row_to_registration_def upsert_row_def registration_to_row_def Let_def)
  moreover have "\<not> db_down d'" using row(1) by (simp add: d'_def)
  ultimately show "\<exists>reg. registration_get name d' = Inr (Some reg) \<and> reg_auth reg = a"
    using row' by (auto simp: reg_get_row)
qed

lemma stored_auth_ref [simp]: "stored_secret_ref (stored_auth h r) = Some r"
  by (simp add: stored_auth_def split: option.split)

lemma stored_reg_referenced:
  assumes "registration_get name d = Inr (Some reg)" and "stored_secret_ref (reg_auth reg) = Some r"
  shows "r \<in> set (referenced_refs d)"
proof -
  from assms(1) obtain row where row: "reg_by_name name d = Some row" "row_to_registration row = Inr reg" by (auto simp: reg_get_row)
  then have "row \<in> set (registrations d)" by (auto simp: reg_by_name_def dest: find_SomeD)
  moreover have "rg_auth_json row = JVal (reg_auth reg)"
    using row(2) by (auto simp: row_to_registration_def from_json_col_def split: jcol.splits)
  ultimately show ?thesis using assms(2) by (auto simp: referenced_refs_def set_map_filter_option intro!: bexI [of _ row])
qed

lemma inserted_secret_live:
  assumes "secret_insert bs now sealed nonce d = (Inr r, d')"
  shows "live_secret r d' = Some \<lparr>cs_secret_ref = r, cs_sealed_value = sealed, cs_nonce = nonce, cs_set_at = now, cs_tombstoned_at = None\<rparr>"
    and "d' = d\<lparr>credential_secrets := credential_secrets d'\<rparr>" and "\<not> db_down d'"
proof -
  from assms have i: "\<not> db_down d" "r \<notin> cs_secret_ref ` set (credential_secrets d)"
    "d' = d\<lparr>credential_secrets := credential_secrets d @ [\<lparr>cs_secret_ref = r, cs_sealed_value = sealed, cs_nonce = nonce,
       cs_set_at = now, cs_tombstoned_at = None\<rparr>]\<rparr>"
    by (auto simp: secret_insert_def Let_def split: if_splits)
  then have "live_secret r d = None" by (auto simp: live_secret_def find_None_iff)
  with i show "live_secret r d' = Some \<lparr>cs_secret_ref = r, cs_sealed_value = sealed, cs_nonce = nonce, cs_set_at = now, cs_tombstoned_at = None\<rparr>"
    by (simp add: live_secret_def find_append)
  from i show "d' = d\<lparr>credential_secrets := credential_secrets d'\<rparr>" "\<not> db_down d'" by simp_all
qed

lemma tombstone_old_frame:
  "overrides (tombstone_old E r d) = overrides d" "agents (tombstone_old E r d) = agents d"
  "registration_get n (tombstone_old E r d) = registration_get n d" "destination n (tombstone_old E r d) = destination n d"
  by (simp_all add: registration_get_def destination_def reg_by_name_def)
     (simp_all add: tombstone_old_def tombstone_if_unreferenced_def tombstone_where_def Let_def split_beta split: option.split)

lemma tombstone_old_live:
  "live_secret r d = Some x \<Longrightarrow> r \<in> set (referenced_refs d) \<Longrightarrow> live_secret r (tombstone_old E old d) = Some x"
  by (auto simp: tombstone_old_def split: option.split dest: secret_step_keeps_referenced [OF ss_tombstone])

lemma error_status: "400 \<le> hr_status (registration_error_response e)" "400 \<le> hr_status (unknown_name_response n)"
  "hr_status activation_failed = 503"
  by (cases e) (simp_all add: registration_error_response_def unknown_name_response_def activation_failed_def json_response_def)

lemma error_not_ok [simp]: "hr_status (registration_error_response e) \<noteq> 200" "hr_status (unknown_name_response n) \<noteq> 200"
  "hr_status activation_failed \<noteq> 200"
  using error_status(1) [of e] error_status(2) [of n] error_status(3) by auto

text \<open>What a successful \<open>op_put_credential\<close> did.\<close>

lemma put_credential_steps:
  assumes "op_put_credential E k name v rs d = (resp, rs', d')" and "hr_status resp = 200"
  obtains key old sealed nonce r d1 d2 where "rs_credential_sealing_key rs = Some key" "registration_get name d = Inr (Some old)"
    "credential_seal (ge_seal E) key (ge_nonce E) v = Inr (sealed, nonce)"
    "secret_insert (ge_ref_bytes E) (ge_insert_at E) sealed nonce d = (Inr r, d1)"
    "registration_upsert (old\<lparr>reg_auth := stored_auth (header_name (reg_auth old)) r, reg_seed := False,
       reg_updated_at := ge_now E\<rparr>) d1 = (Inr (), d2)"
    "d' = tombstone_old E (stored_secret_ref (reg_auth old)) d2"
    "hr_body resp = RJson (JObj [(''secret_ref'', JStr r), (''set_at'', JNum (ge_now E))])"
  using assms
  by (auto simp: op_put_credential_def activate_def json_response_def
      split: sum.splits prod.splits option.splits if_splits)

text \<open>C9. Setting a stored credential round-trips and stays sealed: after the operator's call succeeds, the
  reply names only the new reference and the time, the registration uses that reference in the shape it had
  (same header, or bearer), reading the credential for the proxy gives back exactly the value, and neither the
  destination nor any account binding or agent changed.\<close>

theorem stored_credential_round_trip:
  assumes "seal_contract (ge_seal E)" and "\<forall>n. ge_nonce E = Some n \<longrightarrow> length n = NONCE_LEN" and "utf8_valid v" and "v \<noteq> []"
    and "registry_handle E k (RPutCredential name v) rs d = (resp, rs', d')" and "hr_status resp = 200"
    and "pe_seal P = ge_seal E" and "st_credential_sealing_key st = rs_credential_sealing_key rs" and "st_credential_secrets st"
  shows "\<exists>r old reg. hr_body resp = RJson (JObj [(''secret_ref'', JStr r), (''set_at'', JNum (ge_now E))])
    \<and> registration_get name d = Inr (Some old) \<and> registration_get name d' = Inr (Some reg)
    \<and> reg_auth reg = stored_auth (header_name (reg_auth old)) r
    \<and> resolve_stored_credential P st r d' = Inr v
    \<and> destination name d' = destination name d \<and> overrides d' = overrides d \<and> agents d' = agents d"
proof -
  from assms(5) have "op_put_credential E k name v rs d = (resp, rs', d')" by simp
  from this assms(6) obtain key old sealed nonce r d1 d2 where
    o: "rs_credential_sealing_key rs = Some key" "registration_get name d = Inr (Some old)"
    "credential_seal (ge_seal E) key (ge_nonce E) v = Inr (sealed, nonce)"
    "secret_insert (ge_ref_bytes E) (ge_insert_at E) sealed nonce d = (Inr r, d1)"
    "registration_upsert (old\<lparr>reg_auth := stored_auth (header_name (reg_auth old)) r, reg_seed := False,
       reg_updated_at := ge_now E\<rparr>) d1 = (Inr (), d2)"
    "d' = tombstone_old E (stored_secret_ref (reg_auth old)) d2"
    "hr_body resp = RJson (JObj [(''secret_ref'', JStr r), (''set_at'', JNum (ge_now E))])"
    by (rule put_credential_steps)
  note ins = inserted_secret_live [OF o(4)]
  have same: "registration_get n d1 = registration_get n d" "destination n d1 = destination n d" "overrides d1 = overrides d"
    "agents d1 = agents d" for n
    by (subst ins(2), simp add: registration_get_def destination_def reg_by_name_def)+
  then have get1: "registration_get name d1 = Inr (Some old)" using o(2) by simp
  note up = upsert_auth [OF get1 refl, of "ge_now E" False "stored_auth (header_name (reg_auth old)) r"]
  let ?d2 = "d1\<lparr>registrations := update_where (\<lambda>x. rg_name x = name) (upsert_row (old\<lparr>reg_auth :=
    stored_auth (header_name (reg_auth old)) r, reg_seed := False, reg_updated_at := ge_now E\<rparr>)) (registrations d1)\<rparr>"
  have e: "d2 = ?d2" using o(5) up(1) by simp
  then have d2: "overrides d2 = overrides d1" "agents d2 = agents d1" "live_secret r d2 = live_secret r d1"
    by (simp_all add: live_secret_def)
  obtain reg where reg: "registration_get name d2 = Inr (Some reg)" "reg_auth reg = stored_auth (header_name (reg_auth old)) r"
    using up(2) e by metis
  have "live_secret r d' = Some \<lparr>cs_secret_ref = r, cs_sealed_value = sealed, cs_nonce = nonce,
      cs_set_at = ge_insert_at E, cs_tombstoned_at = None\<rparr>"
    unfolding o(6) using ins(1) d2(3) stored_reg_referenced [OF reg(1)] reg(2) by (simp add: tombstone_old_live)
  moreover have "\<not> db_down d'" using reg(1) o(6) by (simp add: reg_get_row)
  moreover have "credential_unseal (ge_seal E) key sealed nonce = Inr v"
    using o(3) unseal_seal [OF assms(1)] assms(2) seal_nonce by (fastforce simp: credential_seal_def credential_unseal_def)
  ultimately have "resolve_stored_credential P st r d' = Inr v"
    using assms(3,4,7-9) o(1) by (simp add: resolve_stored_credential_def secret_get_live)
  moreover have "destination name d' = destination name d" "overrides d' = overrides d" "agents d' = agents d"
    "registration_get name d' = Inr (Some reg)"
    using o(6) up(3) e d2 reg(1) same by (simp_all add: tombstone_old_frame)
  ultimately show ?thesis using o(2,7) reg(2) by blast
qed

section \<open>Deletion\<close>

lemma activate_catalog:
  assumes "activate E answer rs d = (resp, rs', d')" and "resp \<noteq> activation_failed" and "rs_catalog rs' = Some c"
    and "\<And>x. rs_catalog (snd (answer x)) = rs_catalog x"
  shows "catalog_from_repo d = Inr c"
  using activate_current [OF assms(1,4)] assms(2,3) by (auto simp: catalog_current_def)

lemma delete_steps:
  assumes "op_delete E k name rs d = (resp, rs', d')" and "hr_status resp = 204"
  obtains r where "registration_get name d = Inr (Some r)"
    "snd (if reg_seed r then registration_set_disabled (ge_now E) name True d else registration_delete name d) = d'"
    "\<forall>c. rs_catalog rs' = Some c \<longrightarrow> catalog_from_repo d' = Inr c"
proof -
  have no: "hr_status (registration_error_response e) \<noteq> 204" "hr_status (unknown_name_response n) \<noteq> 204" for e n
    using error_status(1) [of e] error_status(2) [of n] by auto
  from assms no obtain r x d1 where r: "registration_get name d = Inr (Some r)"
    "(if reg_seed r then registration_set_disabled (ge_now E) name True d else registration_delete name d) = (Inr x, d1)"
    "activate E (\<lambda>rs'. (no_content, emit_registry ''deleted'' k name rs')) rs d1 = (resp, rs', d')"
    by (auto simp: op_delete_def split: sum.splits option.splits if_splits prod.splits)
  have "resp \<noteq> activation_failed" using assms(2) error_status(3) by auto
  then have "\<forall>c. rs_catalog rs' = Some c \<longrightarrow> catalog_from_repo d1 = Inr c"
    using activate_catalog [OF r(3)] by simp
  with that r activate_db [OF r(3)] show thesis by simp
qed

text \<open>C8. Deleting a registration closes it at once: after a successful delete no active connection of that
  name is left in the running catalog; a registration of the seed catalog stays stored, disabled, so that the
  seed loader does not bring it back, and any other is gone together with every binding and grant for it.\<close>

theorem deleted_connection_closed:
  assumes "db_ok d" and "registry_handle E k (RDelete name) rs d = (resp, rs', d')" and "hr_status resp = 204"
  shows "(\<forall>c. rs_catalog rs' = Some c \<longrightarrow> lookup_active c name = None)
    \<and> (\<exists>r. registration_get name d = Inr (Some r)
        \<and> (if reg_seed r then registration_get name d' = Inr (Some (r\<lparr>reg_disabled := True, reg_updated_at := ge_now E\<rparr>))
           else registration_get name d' = Inr None \<and> \<not> holds_authority name d'))"
proof -
  from assms(2) have "op_delete E k name rs d = (resp, rs', d')" by simp
  then obtain r where r: "registration_get name d = Inr (Some r)"
    "snd (if reg_seed r then registration_set_disabled (ge_now E) name True d else registration_delete name d) = d'"
    "\<forall>c. rs_catalog rs' = Some c \<longrightarrow> catalog_from_repo d' = Inr c"
    using assms(3) by (rule delete_steps)
  then obtain row where row: "\<not> db_down d" "reg_by_name name d = Some row" "row_to_registration row = Inr r"
    by (auto simp: reg_get_row)
  have ok: "db_ok d'" using registry_handle_db_ok [OF assms(1,2)] .
  have after: "if reg_seed r then registration_get name d' = Inr (Some (r\<lparr>reg_disabled := True, reg_updated_at := ge_now E\<rparr>))
      else registration_get name d' = Inr None \<and> \<not> holds_authority name d'"
  proof (cases "reg_seed r")
    case True
    then have d': "d' = d\<lparr>registrations := update_where (\<lambda>r. rg_name r = name)
        (\<lambda>r. r\<lparr>rg_disabled := True, rg_updated_at := ge_now E\<rparr>) (registrations d)\<rparr>"
      using r(2) row(1) by (simp add: registration_set_disabled_def)
    then have "reg_by_name name d' = Some (row\<lparr>rg_disabled := True, rg_updated_at := ge_now E\<rparr>)"
      using row(2) by (simp add: reg_by_name_update_where)
    moreover have "row_to_registration (row\<lparr>rg_disabled := True, rg_updated_at := ge_now E\<rparr>)
        = Inr (r\<lparr>reg_disabled := True, reg_updated_at := ge_now E\<rparr>)"
      using row(3) by (auto simp: row_to_registration_def)
    ultimately show ?thesis using True row(1) d' by (simp add: reg_get_row)
  next
    case False
    then have d': "d' = invalidate_authority name (d\<lparr>registrations := filter (\<lambda>r. rg_name r \<noteq> name) (registrations d)\<rparr>)"
      using r(2) row by (simp add: registration_delete_def)
    then have "registration_get name d' = Inr None"
      using row(1) by (simp add: registration_get_def reg_by_name_filter)
    with False d' show ?thesis by (simp add: holds_authority_invalidate)
  qed
  have "lookup_active c name = None" if c: "rs_catalog rs' = Some c" for c
    using catalog_lookup [OF ok r(3) [rule_format, OF c], of name] after
    by (auto simp: lookup_active_def lookup_any_def split: option.splits if_splits)
  with r(1) after show ?thesis by blast
qed

section \<open>Witnesses\<close>

definition demo_registry_env :: registry_env where
  "demo_registry_env = \<lparr>ge_vars = (\<lambda>v. None), ge_op_read = (\<lambda>r. Inl []), ge_op_task = True, ge_parse_url = demo_url,
     ge_codec = demo_codec, ge_seal = demo_seal, ge_nonce = Some demo_nonce, ge_ref_bytes = [7], ge_now = 300,
     ge_insert_at = 300, ge_tombstone_at = 300\<rparr>"

definition demo_registry :: registry_state where
  "demo_registry = \<lparr>rs_catalog = Some [(''github'', demo_reg)], rs_resolved_creds = Some Map.empty,
     rs_credential_sealing_key = Some \<lparr>ck_inner = demo_key\<rparr>, rs_credential_secrets = True,
     rs_operational_log = None, rs_op_resolver = None, rs_agent_creds = True\<rparr>"

lemma demo_catalog_current: "catalog_current demo_registry demo_db"
proof -
  have "unat (10485760 :: u64) < 2 ^ 63" by simp
  then show ?thesis
    by (simp add: catalog_current_def demo_registry_def catalog_from_repo_def registration_list_def catalog_of_rows_def
        demo_db_def empty_db_def row_to_registration_to_row demo_reg_def registration_new_def)
qed

lemma demo_get: "registration_get ''github'' demo_db = Inr (Some demo_reg)"
proof -
  have "reg_by_name ''github'' demo_db = Some (registration_to_row demo_reg)" "\<not> db_down demo_db"
    by (simp_all add: reg_by_name_def demo_db_def empty_db_def demo_reg_def registration_new_def)
  with demo_row show ?thesis by (simp add: registration_get_def)
qed

lemma demo_delete:
  "\<exists>rs' d'. registry_handle demo_registry_env Tool (RDelete ''github'') demo_registry demo_db = (no_content, rs', d')"
proof -
  have "reg_kind demo_reg = Tool" "\<not> reg_seed demo_reg" by (simp_all add: demo_reg_def registration_new_def)
  moreover have "registration_delete ''github'' demo_db =
      (Inr True, invalidate_authority ''github'' (demo_db\<lparr>registrations := []\<rparr>))"
    by (simp add: registration_delete_def demo_db_def empty_db_def reg_by_name_def demo_reg_def registration_new_def)
  moreover have "catalog_from_repo (invalidate_authority ''github'' (demo_db\<lparr>registrations := []\<rparr>)) = Inr []"
    by (simp add: catalog_from_repo_def registration_list_def catalog_of_rows_def demo_db_def empty_db_def)
  ultimately show ?thesis
    by (simp add: op_delete_def demo_get activate_def refresh_runtime_def Let_def split: option.split)
qed

theorem catalog_stays_current_witness:
  "\<exists>rs' d'. registry_handle demo_registry_env Tool (RDelete ''github'') demo_registry demo_db = (no_content, rs', d')
    \<and> catalog_current rs' d'"
proof -
  obtain rs' d' where r: "registry_handle demo_registry_env Tool (RDelete ''github'') demo_registry demo_db = (no_content, rs', d')"
    using demo_delete by blast
  have "no_content \<noteq> activation_failed" by (simp add: no_content_def activation_failed_def json_response_def)
  with catalog_stays_current [OF demo_catalog_current r] r show ?thesis by blast
qed

theorem deleted_connection_closed_witness:
  "\<exists>rs' d'. registry_handle demo_registry_env Tool (RDelete ''github'') demo_registry demo_db = (no_content, rs', d')
    \<and> \<not> holds_authority ''github'' d'"
proof -
  obtain rs' d' where r: "registry_handle demo_registry_env Tool (RDelete ''github'') demo_registry demo_db = (no_content, rs', d')"
    using demo_delete by blast
  have "hr_status no_content = 204" "\<not> reg_seed demo_reg" by (simp_all add: no_content_def demo_reg_def registration_new_def)
  with deleted_connection_closed [OF demo_db_ok r] r demo_get show ?thesis by auto
qed

lemma demo_put_credential:
  "\<exists>resp rs' d'. registry_handle demo_registry_env Tool (RPutCredential ''github'' ''tok'') (demo_registry\<lparr>rs_catalog := None\<rparr>) demo_db
      = (resp, rs', d') \<and> hr_status resp = 200"
proof -
  obtain ct nonce where s: "credential_seal demo_seal \<lparr>ck_inner = demo_key\<rparr> (Some demo_nonce) ''tok'' = Inr (ct, nonce)"
    by (simp add: credential_seal_def seal_def cipher_def demo_seal_def demo_key_def KEY_LEN_def)
  obtain r d1 where i: "secret_insert [7] 300 ct nonce demo_db = (Inr r, d1)"
    by (simp add: secret_insert_def Let_def demo_db_def empty_db_def)
  then have "d1 = demo_db\<lparr>credential_secrets := credential_secrets d1\<rparr>" by (rule inserted_secret_live)
  then have "registration_get ''github'' d1 = registration_get ''github'' demo_db"
    by (metis (no_types, lifting) i registration_get_def reg_by_name_def secret_insert_registrations)
  with demo_get have g: "registration_get ''github'' d1 = Inr (Some demo_reg)" by simp
  have "reg_kind demo_reg = Tool" by (simp add: demo_reg_def registration_new_def)
  with s i demo_get upsert_auth(1) [OF g refl] show ?thesis
    by (simp add: op_put_credential_def demo_registry_def demo_registry_env_def activate_def refresh_runtime_def json_response_def)
qed

theorem stored_credential_round_trip_witness:
  "\<exists>resp rs' d' r. registry_handle demo_registry_env Tool (RPutCredential ''github'' ''tok'') (demo_registry\<lparr>rs_catalog := None\<rparr>) demo_db
      = (resp, rs', d')
    \<and> resolve_stored_credential demo_proxy_env (demo_state\<lparr>st_credential_sealing_key := Some \<lparr>ck_inner = demo_key\<rparr>,
        st_credential_secrets := True\<rparr>) r d' = Inr ''tok''"
proof -
  obtain resp rs' d' where r: "registry_handle demo_registry_env Tool (RPutCredential ''github'' ''tok'')
      (demo_registry\<lparr>rs_catalog := None\<rparr>) demo_db = (resp, rs', d')" "hr_status resp = 200"
    using demo_put_credential by blast
  have "seal_contract (ge_seal demo_registry_env)" "\<forall>n. ge_nonce demo_registry_env = Some n \<longrightarrow> length n = NONCE_LEN"
    "''tok'' \<noteq> []" "pe_seal demo_proxy_env = ge_seal demo_registry_env"
    by (simp_all add: demo_registry_env_def demo_nonce_def NONCE_LEN_def demo_proxy_env_def)
  note h = this
  have u: "utf8_valid ''tok''" by code_simp
  from stored_credential_round_trip [OF h(1,2) u h(3) r h(4), of "demo_state\<lparr>st_credential_sealing_key := Some \<lparr>ck_inner = demo_key\<rparr>,
        st_credential_secrets := True\<rparr>"] r(1)
  show ?thesis by (auto simp: demo_registry_def)
qed

end
