(* ===== verification/OAuthAdmin.thy ===== *)
theory OAuthAdmin
  imports RegistryApi
begin

text \<open>
  \<open>oauth/admin.rs\<close>: the operator endpoints for OAuth sessions.  A bootstrap stores the refresh token the
  operator supplies, exchanges it at once for an access token, and takes the row back when the exchange fails.
  \<open>oauth_admin_env\<close> holds the cipher, the URL parser, the token endpoint with its clock readings and nonces, and
  the texts of database errors: one for a database that does not answer, one for a row whose key is taken.
\<close>

section \<open>State and texts\<close>

record oauth_admin_state =
  oas_sealing_key :: sealing_key
  oas_locks :: refresh_lock_map

record oauth_admin_env =
  oe_seal :: seal_lib
  oe_parse_url :: "string \<Rightarrow> url_view option"
  oe_refresh :: refresh_env
  oe_nonce :: "string option"
  oe_now :: int
  oe_sealing_text :: "sealing_key_error \<Rightarrow> string"
  oe_db_text :: string
  oe_conflict_text :: string

definition label_or_default :: "string option \<Rightarrow> string" where
  "label_or_default l = (case l of Some x \<Rightarrow> x | None \<Rightarrow> DEFAULT_SESSION_LABEL)"

text \<open>The text of an error, \<open>db\<close> being the one of the database.\<close>

fun session_error_text :: "(sealing_key_error \<Rightarrow> string) \<Rightarrow> string \<Rightarrow> oauth_session_error \<Rightarrow> string" where
  "session_error_text sl db (Sealing e) = ''sealing: '' @ sl e"
| "session_error_text sl db Database = ''database: '' @ db"
| "session_error_text sl db (Invariant m) = ''invariant violation: '' @ m"

fun refresh_error_text :: "(oauth_session_error \<Rightarrow> string) \<Rightarrow> refresh_error \<Rightarrow> string" where
  "refresh_error_text se (RegistrationGone n) = ''registration '' @ n @ '' disappeared from catalog before refresh''"
| "refresh_error_text se (NotOauth n) = ''registration '' @ n @ '' is not an OAuth shape (programming error)''"
| "refresh_error_text se (Network m) = ''network error contacting token endpoint: '' @ m"
| "refresh_error_text se (refresh_error.Revoked st) = ''provider rejected refresh ('' @ dec_digits st @ '')''"
| "refresh_error_text se (ProviderError st) = ''provider error during refresh ('' @ dec_digits st @ '')''"
| "refresh_error_text se (BadResponse m) = ''provider returned malformed token response: '' @ m"
| "refresh_error_text se (Persist e) =
    ''failed to persist refreshed tokens: '' @ (case e of Some e \<Rightarrow> se e | None \<Rightarrow> ''session vanished after update'')"

definition error_envelope :: "nat \<Rightarrow> string \<Rightarrow> string \<Rightarrow> string \<Rightarrow> http_response" where
  "error_envelope status ty code message =
    json_response status (error_json [(''code'', JStr code), (''message'', JStr message), (''type'', JStr ty)])"

definition session_status_json :: "seal_lib \<Rightarrow> oauth_session \<Rightarrow> bool \<Rightarrow> (string \<times> json) list" where
  "session_status_json L s present =
    [(''access_token_expires_at'', jopt JNum (ss_access_token_expires_at s)), (''audit_session_id'', JStr (audit_session_id L s)),
     (''created_at'', JNum (ss_created_at s)), (''degraded'', JBool (ss_degraded s)), (''name'', JStr (ss_name s)),
     (''present'', JBool present), (''scope'', JStr (ss_scope s)), (''session_label'', JStr (ss_session_label s)),
     (''updated_at'', JNum (ss_updated_at s))]"

fun join_with :: "string \<Rightarrow> string list \<Rightarrow> string" where
  "join_with sep [] = []"
| "join_with sep [x] = x"
| "join_with sep (x # y # ys) = x @ sep @ join_with sep (y # ys)"

definition collision_warnings :: "string \<Rightarrow> string \<Rightarrow> db \<Rightarrow> string list" where
  "collision_warnings name label d =
    (case oauth_list_all d of
       Inl _ \<Rightarrow> []
     | Inr rows \<Rightarrow>
         let other = map (\<lambda>(_, l, _, _). l) (filter (\<lambda>(n, l, _, _). n = name \<and> l \<noteq> label) rows) in
         if other = [] then []
         else [''Registration '' @ [CHR 96] @ name @ [CHR 96] @ '' already has session label(s): '' @ join_with '', '' other
           @ ''. If those sessions point at the same upstream account as label '' @ [CHR 96] @ label @ [CHR 96]
           @ '', the provider has likely invalidated the prior refresh tokens (single-grant OAuth policy on OpenAI ChatGPT, GitHub, Google, etc.). Per-agent OAuth requires distinct upstream accounts; see concepts/per-agent-credentials.md.''])"

section \<open>Handlers\<close>

type_synonym oauth_op = "oauth_admin_state \<Rightarrow> db \<Rightarrow> http_response \<times> oauth_admin_state \<times> db"

text \<open>The text of the error of a failed insert, in the database it was tried on.\<close>

definition create_error_text :: "oauth_admin_env \<Rightarrow> db \<Rightarrow> oauth_session_error \<Rightarrow> string" where
  "create_error_text E d e =
    session_error_text (oe_sealing_text E) (if db_down d then oe_db_text E else oe_conflict_text E) e"

definition bootstrap_target :: "string \<Rightarrow> db \<Rightarrow> http_response + registration" where
  "bootstrap_target name d =
    (case registration_get name d of
       Inr (Some r) \<Rightarrow>
         if is_oauth (reg_auth r) then Inr r
         else Inl (error_envelope 400 ''bad_request'' ''not_oauth_registration'' ''registration is not an OAuth shape'')
     | Inr None \<Rightarrow> Inl (error_envelope 404 ''not_found'' ''unknown_name'' ''registration not found'')
     | Inl e \<Rightarrow> Inl (error_envelope 500 ''auth_error'' ''internal_error'' (''registrations: '' @ registration_message e)))"

definition op_oauth_bootstrap :: "oauth_admin_env \<Rightarrow> catalog \<Rightarrow> string \<Rightarrow> string option \<Rightarrow> string \<Rightarrow> oauth_op" where
  "op_oauth_bootstrap E c name label_q refresh_token st d =
    (let label = label_or_default label_q in
     case bootstrap_target name d of
       Inl resp \<Rightarrow> (resp, st, d)
     | Inr _ \<Rightarrow>
         let st' = st\<lparr>oas_locks := snd (lock_get name label (oas_locks st))\<rparr> in
         (case oauth_create (oe_seal E) (oe_now E) (oe_nonce E) None (oas_sealing_key st) name label refresh_token None None [] d of
            (Inl e, d1) \<Rightarrow>
              let t = create_error_text E d e in
              (if str_contains ''UNIQUE'' t \<or> str_contains ''constraint'' t
               then error_envelope 409 ''conflict'' ''session_exists'' ''session already bootstrapped; revoke before re-bootstrapping''
               else error_envelope 500 ''auth_error'' ''internal_error'' (''oauth_sessions: '' @ t), st', d1)
          | (Inr session, d1) \<Rightarrow>
              (case refresh_session (oe_seal E) (oe_parse_url E) (oe_refresh E) c (oas_sealing_key st) session d1 of
                 (Inl e, d2) \<Rightarrow>
                   (error_envelope 502 ''auth_error'' ''oauth_bootstrap_failed'' (''refresh exchange failed: ''
                      @ refresh_error_text (session_error_text (oe_sealing_text E) (oe_db_text E)) e),
                    st', snd (oauth_delete name label d2))
               | (Inr updated, d2) \<Rightarrow>
                   (json_response 200 (JObj (session_status_json (oe_seal E) updated True
                      @ (case collision_warnings name label d2 of [] \<Rightarrow> [] | ws \<Rightarrow> [(''warnings'', JArr (map JStr ws))]))),
                    st', d2))))"

definition op_oauth_status :: "oauth_admin_env \<Rightarrow> string \<Rightarrow> string option \<Rightarrow> oauth_op" where
  "op_oauth_status E name label_q st d =
    (let label = label_or_default label_q in
     (case oauth_get (oe_seal E) (oas_sealing_key st) name label d of
        Inr (Some s) \<Rightarrow> json_response 200 (JObj (session_status_json (oe_seal E) s True))
      | Inr None \<Rightarrow>
          json_response 200 (JObj [(''name'', JStr name), (''present'', JBool False), (''session_label'', JStr label)])
      | Inl e \<Rightarrow>
          error_envelope 500 ''auth_error'' ''internal_error''
            (''oauth_sessions: '' @ session_error_text (oe_sealing_text E) (oe_db_text E) e), st, d))"

definition op_oauth_list :: "oauth_admin_env \<Rightarrow> oauth_op" where
  "op_oauth_list E st d =
    ((case oauth_list_all d of
        Inr rows \<Rightarrow>
          json_response 200 (JObj [(''sessions'', JArr (map (\<lambda>(n, l, dg, ex).
            JObj [(''access_token_expires_at'', jopt JNum ex), (''degraded'', JBool dg), (''name'', JStr n),
              (''session_label'', JStr l)]) rows))])
      | Inl e \<Rightarrow>
          error_envelope 500 ''auth_error'' ''internal_error''
            (''oauth_sessions: '' @ session_error_text (oe_sealing_text E) (oe_db_text E) e)), st, d)"

definition op_oauth_revoke :: "oauth_admin_env \<Rightarrow> string \<Rightarrow> string option \<Rightarrow> oauth_op" where
  "op_oauth_revoke E name label_q st d =
    (case oauth_delete name (label_or_default label_q) d of
       (Inr _, d1) \<Rightarrow> (no_content, st, d1)
     | (Inl e, d1) \<Rightarrow>
         (error_envelope 500 ''auth_error'' ''internal_error''
            (''oauth_sessions: '' @ session_error_text (oe_sealing_text E) (oe_db_text E) e), st, d1))"

section \<open>Bootstrapping is all or nothing\<close>

lemma oauth_create_cases:
  obtains (failed) e where "oauth_create L now n1 n2 key name label rt at ex scope d = (Inl e, d)"
  | (created) row s where "oauth_create L now n1 n2 key name label rt at ex scope d
        = (Inr s, d\<lparr>oauth_sessions := oauth_sessions d @ [row]\<rparr>)"
      "oauth_key row = (name, label)" "(name, label) \<notin> oauth_key ` set (oauth_sessions d)" "\<not> db_down d"
      "ss_name s = name" "ss_session_label s = label"
proof (cases "result_bind (sealing_err (seal L key n1 rt)) (\<lambda>r. result_bind (seal_opt L key n2 at) (\<lambda>a. Inr (r, a)))")
  case (Inl e)
  show thesis by (rule failed [of e]) (unfold oauth_create_def Inl, simp)
next
  case (Inr x)
  obtain ct nonce sealed where x: "x = ((ct, nonce), sealed)" by (metis surj_pair)
  show thesis
  proof (cases "db_down d \<or> (name, label) \<in> oauth_key ` set (oauth_sessions d)")
    case True
    show thesis by (rule failed [of Database]) (unfold oauth_create_def Inr x, simp add: True Let_def)
  next
    case False
    show thesis
      by (rule created, unfold oauth_create_def Inr x, simp add: False Let_def, insert False) (simp_all add: oauth_key_def)
  qed
qed

lemma update_tokens_row:
  assumes "update_tokens L now n1 n2 key name label at ex rt d = (Inr u, d')"
  shows "\<exists>f. d' = d\<lparr>oauth_sessions := update_where (\<lambda>r. oauth_key r = (name, label)) f (oauth_sessions d)\<rparr>
    \<and> (\<forall>x. oauth_key (f x) = oauth_key x \<and> \<not> os_degraded (f x) \<and> os_access_ct (f x) \<noteq> None)"
  using assms by (rule update_tokens_InrD) (rule exI, rule conjI, assumption, auto)

lemma refresh_new_session:
  assumes "oauth_sessions d = xs @ [row]" and "oauth_key row = (ss_name s, ss_session_label s)"
    and "(ss_name s, ss_session_label s) \<notin> oauth_key ` set xs"
    and "refresh_session L parse_url E c key s d = (r, d')"
  shows "\<exists>row'. d' = d\<lparr>oauth_sessions := xs @ [row']\<rparr> \<and> oauth_key row' = (ss_name s, ss_session_label s)
    \<and> (\<forall>x. r = Inr x \<longrightarrow> \<not> os_degraded row' \<and> os_access_ct row' \<noteq> None)" (is ?goal)
proof -
  have same: ?goal if "\<exists>e. r = Inl e \<and> d' = d" using that assms(1,2) by (intro exI [of _ row]) auto
  show ?goal
  proof (cases "lookup_active c (ss_name s)")
    case None
    with assms(4) show ?thesis by (intro same) (auto simp: refresh_session_def)
  next
    case (Some reg)
    with assms(4) have sel: "refresh_selected_session L parse_url E (reg_auth reg) key s d = (r, d')"
      by (simp add: refresh_session_def)
    show ?thesis
    proof (cases "exchange parse_url E (reg_auth reg) s")
      case (Inl e)
      with sel show ?thesis by (intro same) (auto simp: refresh_selected_session_def)
    next
      case (Inr t)
      let ?ex = "i64_add (re_now E) (case tr_expires_in t of Some l \<Rightarrow> l | None \<Rightarrow> 3600)"
      obtain u d1 where u: "update_tokens L (re_upd_at E) (re_nonce E) (re_nonce2 E) key (ss_name s)
          (ss_session_label s) (tr_access_token t) ?ex (tr_refresh_token t) d = (u, d1)" by (metis surj_pair)
      show ?thesis
      proof (cases u)
        case fail: (Inl e)
        with u have "d1 = d" by (simp add: update_tokens_fail)
        with sel u Inr fail show ?thesis by (intro same) (auto simp: refresh_selected_session_def Let_def)
      next
        case up: (Inr v)
        with sel u Inr have d1: "d1 = d'"
          by (simp add: refresh_selected_session_def Let_def split: sum.splits option.splits)
        obtain f where f: "d' = d\<lparr>oauth_sessions := update_where (\<lambda>r. oauth_key r = (ss_name s, ss_session_label s)) f (oauth_sessions d)\<rparr>"
          "\<And>x. oauth_key (f x) = oauth_key x \<and> \<not> os_degraded (f x) \<and> os_access_ct (f x) \<noteq> None"
          using update_tokens_row [OF u [unfolded up d1]] by blast
        have "update_where (\<lambda>r. oauth_key r = (ss_name s, ss_session_label s)) f xs = xs"
          using assms(3) by (intro update_where_id) (metis imageI)
        then have "update_where (\<lambda>r. oauth_key r = (ss_name s, ss_session_label s)) f (oauth_sessions d) = xs @ [f row]"
          using assms(1,2) by (simp add: update_where_def)
        with f assms(2) show ?thesis by (intro exI [of _ "f row"]) simp
      qed
    qed
  qed
qed


definition demo_oauth_reg :: registration where
  "demo_oauth_reg = registration_new 100 ''codex'' Model ''Codex'' ''https://chatgpt.com'' demo_pkce"

definition demo_oauth_reg_db :: db where
  "demo_oauth_reg_db = empty_db\<lparr>registrations := [registration_to_row demo_oauth_reg]\<rparr>"

definition demo_oauth_admin_env :: oauth_admin_env where
  "demo_oauth_admin_env = \<lparr>oe_seal = demo_seal, oe_parse_url = demo_url, oe_refresh = demo_refresh_env 20, oe_nonce = Some demo_nonce,
     oe_now = 10, oe_sealing_text = (\<lambda>e. ''sealing''), oe_db_text = ''pool timed out'',
     oe_conflict_text = ''UNIQUE constraint failed: oauth_sessions.name, oauth_sessions.session_label''\<rparr>"

definition demo_oauth_state :: oauth_admin_state where
  "demo_oauth_state = \<lparr>oas_sealing_key = demo_key, oas_locks = \<lparr>lm_locks = []\<rparr>\<rparr>"

lemma demo_oauth_reg_get: "registration_get ''codex'' (demo_oauth_reg_db\<lparr>oauth_sessions := xs\<rparr>) = Inr (Some demo_oauth_reg)"
  by (simp add: registration_get_def reg_by_name_def demo_oauth_reg_db_def empty_db_def row_to_registration_to_row demo_oauth_reg_def
      registration_new_def)


text \<open>C24. A degraded session cannot be repaired by bootstrapping it again: while a row of that name and label is
  stored, degraded or not, a bootstrap that gets as far as the insert is answered 409 \<open>session_exists\<close> and
  changes nothing; the operator has to revoke the session first, after which it is gone.\<close>

theorem degraded_session_needs_revoke:
  assumes "registration_get name d = Inr (Some r)" and "is_oauth (reg_auth r)"
    and "(name, label_or_default l) \<in> oauth_key ` set (oauth_sessions d)"
    and "seal (oe_seal E) (oas_sealing_key st) (oe_nonce E) rt = Inr x" and "str_contains ''UNIQUE'' (oe_conflict_text E)"
  shows "(\<exists>resp st'. op_oauth_bootstrap E c name l rt st d = (resp, st', d) \<and> hr_status resp = 409)
    \<and> (\<exists>d'. op_oauth_revoke E name l st d = (no_content, st, d') \<and> (name, label_or_default l) \<notin> oauth_key ` set (oauth_sessions d'))"
proof -
  have up: "\<not> db_down d" using assms(1) by (auto simp: registration_get_def split: if_splits)
  have c: "oauth_create (oe_seal E) (oe_now E) (oe_nonce E) None (oas_sealing_key st) name (label_or_default l) rt None None [] d
      = (Inl Database, d)"
    using assms(3,4) by (cases x) (simp add: oauth_create_def sealing_err_def seal_opt_def Let_def)
  obtain a b where "oe_conflict_text E = a @ ''UNIQUE'' @ b" using assms(5) by (auto simp: str_contains_iff)
  then have "create_error_text E d Database = (''database: '' @ a) @ ''UNIQUE'' @ b"
    using up by (simp add: create_error_text_def)
  then have "str_contains ''UNIQUE'' (create_error_text E d Database)" unfolding str_contains_iff by blast
  moreover have "bootstrap_target name d = Inr r" using assms(1,2) by (simp add: bootstrap_target_def)
  ultimately have "\<exists>resp st'. op_oauth_bootstrap E c name l rt st d = (resp, st', d) \<and> hr_status resp = 409"
    by (simp add: op_oauth_bootstrap_def Let_def c error_envelope_def json_response_def)
  with up show ?thesis by (auto simp: op_oauth_revoke_def oauth_delete_def)
qed

theorem degraded_session_needs_revoke_witness:
  "\<exists>resp st'. op_oauth_bootstrap demo_oauth_admin_env [] ''codex'' None ''rt'' demo_oauth_state
      (demo_oauth_reg_db\<lparr>oauth_sessions := [demo_oauth_row\<lparr>os_degraded := True\<rparr>]\<rparr>)
      = (resp, st', demo_oauth_reg_db\<lparr>oauth_sessions := [demo_oauth_row\<lparr>os_degraded := True\<rparr>]\<rparr>) \<and> hr_status resp = 409"
proof -
  have "is_oauth (reg_auth demo_oauth_reg)" by (simp add: demo_oauth_reg_def registration_new_def demo_pkce_def)
  moreover have "(''codex'', label_or_default None) \<in> oauth_key ` set (oauth_sessions
      (demo_oauth_reg_db\<lparr>oauth_sessions := [demo_oauth_row\<lparr>os_degraded := True\<rparr>]\<rparr>))"
    by (simp add: label_or_default_def DEFAULT_SESSION_LABEL_def demo_oauth_row_def oauth_key_def)
  moreover have "seal (oe_seal demo_oauth_admin_env) (oas_sealing_key demo_oauth_state) (oe_nonce demo_oauth_admin_env) ''rt''
      = Inr (''tr'', demo_nonce)" by (simp add: demo_oauth_admin_env_def demo_oauth_state_def)
  moreover have "str_contains ''UNIQUE'' (oe_conflict_text demo_oauth_admin_env)"
    by (simp add: demo_oauth_admin_env_def starts_with_def)
  ultimately show ?thesis by (rule degraded_session_needs_revoke [OF demo_oauth_reg_get, THEN conjunct1])
qed

section \<open>The requests\<close>

datatype oauth_request =
    OaList
  | OaStatus string "string option"
  | OaBootstrap string "string option" string
  | OaRevoke string "string option"

fun oauth_handle :: "oauth_admin_env \<Rightarrow> catalog \<Rightarrow> oauth_request \<Rightarrow> oauth_op" where
  "oauth_handle E c OaList = op_oauth_list E"
| "oauth_handle E c (OaStatus name l) = op_oauth_status E name l"
| "oauth_handle E c (OaBootstrap name l rt) = op_oauth_bootstrap E c name l rt"
| "oauth_handle E c (OaRevoke name l) = op_oauth_revoke E name l"

text \<open>Every request leaves the rest of the database alone.\<close>

lemma bootstrap_sessions:
  "\<exists>xs. snd (snd (op_oauth_bootstrap E c name l rt st d)) = d\<lparr>oauth_sessions := xs\<rparr> \<and>
     (db_ok d \<longrightarrow> distinct (map oauth_key xs))"
proof (cases "bootstrap_target name d")
  case (Inl r)
  then show ?thesis by (intro exI [of _ "oauth_sessions d"]) (simp add: op_oauth_bootstrap_def Let_def db_ok_def)
next
  case (Inr reg)
  show ?thesis
  proof (cases rule: oauth_create_cases [of "oe_seal E" "oe_now E" "oe_nonce E" None "oas_sealing_key st" name "label_or_default l" rt
        None None "[]" d])
    case (failed e)
    with Inr show ?thesis by (intro exI [of _ "oauth_sessions d"]) (simp add: op_oauth_bootstrap_def Let_def db_ok_def)
  next
    case (created row s)
    let ?d1 = "d\<lparr>oauth_sessions := oauth_sessions d @ [row]\<rparr>"
    obtain r d2 where r: "refresh_session (oe_seal E) (oe_parse_url E) (oe_refresh E) c (oas_sealing_key st) s ?d1 = (r, d2)"
      by (metis surj_pair)
    obtain row' where d2: "d2 = d\<lparr>oauth_sessions := oauth_sessions d @ [row']\<rparr>" "oauth_key row' = (name, label_or_default l)"
      using refresh_new_session [OF _ _ _ r, of "oauth_sessions d" row] created by auto
    show ?thesis
      using Inr created(1,3,4) r d2
      by (cases r) (auto simp: op_oauth_bootstrap_def Let_def oauth_delete_def db_ok_def distinct_map_filter)
  qed
qed

lemma oauth_handle_db_ok:
  assumes "db_ok d"
  shows "db_ok (snd (snd (oauth_handle E c q st d)))"
proof -
  have ok: "db_ok (d\<lparr>oauth_sessions := xs\<rparr>)" if "distinct (map oauth_key xs)" for xs
    using assms that by (simp add: db_ok_def)
  show ?thesis
  proof (cases q)
    case (OaBootstrap name l rt)
    with bootstrap_sessions [of E c name l rt st d] ok assms show ?thesis by auto
  next
    case (OaRevoke name l)
    have "distinct (map oauth_key (filter P (oauth_sessions d)))" for P
      using assms by (simp add: db_ok_def distinct_map_filter)
    with OaRevoke assms ok show ?thesis by (simp add: op_oauth_revoke_def oauth_delete_def)
  qed (simp_all add: op_oauth_list_def op_oauth_status_def Let_def assms)
qed

end
