(* ===== verification/AdminService.thy ===== *)
theory AdminService
  imports Admission
begin

text \<open>
  \<open>admin/service.rs\<close>: the business logic behind both admin transports.  An operation maps the service (its
  configuration, whether an audit repository is attached, the resolved credentials, the operational log) and
  the database to a result, the new service and the new database.  \<open>admin_env\<close> holds the cryptography, the
  random bytes and the clock readings of one call, and the texts of library errors.  Within one call the
  database is either up or down.
\<close>

section \<open>Types\<close>

datatype admin_error =
    AeInvalidBootstrap
  | AeAgentNameConflict
  | AeRotationInProgress
  | AeAgentNotFound
  | AeNotAuthorized
  | AeInvalidGrantTarget
  | AeBackend string

record admin_env =
  an_crypto :: crypto
  an_rng :: rng_bytes
  an_decodes :: "string \<Rightarrow> bool"
  an_lib_text :: "repo_error \<Rightarrow> string"
  an_preview_at :: int
  an_create_at :: int
  an_consume_at :: int
  an_consume_later :: int
  an_revoke_at :: int
  an_diagnose_at :: int
  an_ms :: int

fun repo_message :: "(repo_error \<Rightarrow> string) \<Rightarrow> repo_error \<Rightarrow> string" where
  "repo_message lib (AgentNameConflict n) = ''agent name conflict: '' @ n"
| "repo_message lib (RotationInProgress p) = ''rotation already in progress for agent '' @ p"
| "repo_message lib AgentNotFound = ''agent not found''"
| "repo_message lib InvalidCredential = ''invalid current credential''"
| "repo_message lib (Hash e) = ''hash: '' @ lib (Hash e)"
| "repo_message lib Sqlx = ''sqlx: '' @ lib Sqlx"
| "repo_message lib InvalidAccountBinding = ''stored account binding is invalid''"
| "repo_message lib InvalidGrantTarget = ''grant_target_invalid: select a currently configured HTTP tool or model''"
| "repo_message lib Json = ''json: '' @ lib Json"
| "repo_message lib Rng = ''rng: '' @ lib Rng"

fun admin_of_repo :: "(repo_error \<Rightarrow> string) \<Rightarrow> repo_error \<Rightarrow> admin_error" where
  "admin_of_repo lib (AgentNameConflict _) = AeAgentNameConflict"
| "admin_of_repo lib (RotationInProgress _) = AeRotationInProgress"
| "admin_of_repo lib AgentNotFound = AeAgentNotFound"
| "admin_of_repo lib InvalidCredential = AeInvalidBootstrap"
| "admin_of_repo lib InvalidGrantTarget = AeInvalidGrantTarget"
| "admin_of_repo lib e = AeBackend (repo_message lib e)"

fun admin_message :: "admin_error \<Rightarrow> string" where
  "admin_message AeInvalidBootstrap = ''invalid bootstrap token''"
| "admin_message AeAgentNameConflict = ''agent name conflict''"
| "admin_message AeRotationInProgress = ''rotation in progress''"
| "admin_message AeAgentNotFound = ''agent not found''"
| "admin_message AeNotAuthorized = ''not authorized''"
| "admin_message AeInvalidGrantTarget = ''grant_target_invalid: select a currently configured HTTP tool or model''"
| "admin_message (AeBackend m) = ''backend: '' @ m"

record register_input =
  ri_bootstrap_token :: string
  ri_name :: string
  ri_description :: "string option"
  ri_metadata :: "json option"

record register_output =
  ro_public_id :: string
  ro_token :: string
  ro_allowlist :: "string list option"

record agent_status_output =
  so_public_id :: string
  so_name :: string
  so_description :: "string option"
  so_allowlist :: "string list option"
  so_denylist :: "string list option"
  so_registered_at :: int
  so_last_used_at :: "int option"
  so_expires_at :: "int option"
  so_grants_reviewed :: bool

definition agent_status_of :: "agent_record \<Rightarrow> agent_status_output" where
  "agent_status_of r =
    \<lparr>so_public_id = ar_public_id r, so_name = ar_name r, so_description = ar_description r,
     so_allowlist = ar_tool_allowlist r, so_denylist = ar_tool_denylist r,
     so_registered_at = ar_registered_at r, so_last_used_at = ar_last_used_at r, so_expires_at = ar_expires_at r,
     so_grants_reviewed = ar_grants_reviewed r\<rparr>"

record rotate_output =
  rt_public_id :: string
  rt_token :: string

record create_agent_input =
  ca_name :: string
  ca_description :: "string option"
  ca_allowlist :: "string list option"
  ca_denylist :: "string list option"
  ca_metadata :: "json option"
  ca_expires_at :: "int option"

record modify_agent_input =
  ma_allowlist :: "string list option option"
  ma_denylist :: "string list option option"
  ma_metadata :: "json option option"
  ma_expires_at :: "int option option"

record mint_bootstrap_input =
  mb_tool_allowlist :: "string list option"
  mb_expires_at :: "int option"
  mb_single_use :: bool

record mint_bootstrap_output =
  mo_public_id :: string
  mo_token :: string
  mo_scope :: bootstrap_scope

record tool_info =
  ti_name :: string
  ti_description :: string
  ti_egress :: string
  ti_credential_present :: bool
  ti_activation :: string
  ti_credential_readiness :: string

record admin_service =
  sv_config :: app_config
  sv_audit :: bool
  sv_resolved_creds :: "resolved_creds option"
  sv_operational_log :: "emitter option"

type_synonym 'a admin_op = "admin_service \<Rightarrow> db \<Rightarrow> (admin_error + 'a) \<times> admin_service \<times> db"

section \<open>Audit and operational log\<close>

definition emit_agent :: "string \<Rightarrow> string \<Rightarrow> admin_service \<Rightarrow> admin_service" where
  "emit_agent action public_id sv =
    sv\<lparr>sv_operational_log := map_option (emit \<lparr>le_level = Info, le_component = CompAgent, le_event = ''agent_'' @ action,
      le_message = ''agent '' @ action @ '': '' @ public_id,
      le_fields = Some (JObj [(''action'', JStr action), (''public_id'', JStr public_id)])\<rparr>) (sv_operational_log sv)\<rparr>"

definition default_auth_method :: "audit_event \<Rightarrow> string" where
  "default_auth_method e =
    (if ae_operator_name e \<noteq> None then ''operator''
     else if ae_event e = ''agent_register'' then ''bootstrap'' else ''agent'')"

definition admin_audit :: "admin_service \<Rightarrow> audit_event \<Rightarrow> db \<Rightarrow> db" where
  "admin_audit sv e d =
    note_event (sv_audit sv)
      (if ae_auth_method e = None then e\<lparr>ae_auth_method := Some (default_auth_method e)\<rparr> else e) d"

definition audit_for_operator :: "admin_service \<Rightarrow> operator_identity \<Rightarrow> audit_event \<Rightarrow> db \<Rightarrow> db" where
  "audit_for_operator sv oper e d =
    (let e1 = (if ae_operator_name e = None then e\<lparr>ae_operator_name := Some (oi_name oper)\<rparr> else e);
         e2 = (if ae_auth_method e1 = None
               then e1\<lparr>ae_auth_method := Some (case oi_auth_method oper of Some m \<Rightarrow> m | None \<Rightarrow> ''operator'')\<rparr> else e1)
     in admin_audit sv e2 d)"

definition outcome :: "'e + 'a \<Rightarrow> decision" where
  "outcome r = (case r of Inr _ \<Rightarrow> Allowed | Inl _ \<Rightarrow> Denied)"

definition error_details :: "admin_env \<Rightarrow> repo_error + 'a \<Rightarrow> json option" where
  "error_details E r =
    (case r of Inl e \<Rightarrow> Some (JObj [(''error'', JStr (repo_message (an_lib_text E) e))]) | Inr _ \<Rightarrow> None)"

definition error_text :: "admin_env \<Rightarrow> repo_error + 'a \<Rightarrow> json" where
  "error_text E r = (case r of Inl e \<Rightarrow> JStr (repo_message (an_lib_text E) e) | Inr _ \<Rightarrow> JNull)"

definition admin_result :: "admin_env \<Rightarrow> repo_error + 'a \<Rightarrow> admin_error + 'a" where
  "admin_result E r = (case r of Inl e \<Rightarrow> Inl (admin_of_repo (an_lib_text E) e) | Inr a \<Rightarrow> Inr a)"

section \<open>Agent self-service\<close>

definition agent_token :: "string \<Rightarrow> string \<Rightarrow> string" where
  "agent_token pid secret = ''lk_'' @ pid @ ''.'' @ secret"

definition bootstrap_id_of :: "admin_env \<Rightarrow> string \<Rightarrow> string option" where
  "bootstrap_id_of E raw =
    (case parse (an_decodes E) raw of
       Inr (ns, pid, _) \<Rightarrow> if ns = NsBootstrap then Some pid else None
     | Inl _ \<Rightarrow> None)"

definition register_agent_inner :: "admin_env \<Rightarrow> register_input \<Rightarrow> db \<Rightarrow> (admin_error + register_output) \<times> db" where
  "register_agent_inner E input d =
    (case parse (an_decodes E) (ri_bootstrap_token input) of
       Inl _ \<Rightarrow> (Inl AeInvalidBootstrap, d)
     | Inr (ns, public_id, secret) \<Rightarrow>
         if ns \<noteq> NsBootstrap then (Inl AeInvalidBootstrap, d)
         else
           (case admin_result E (preview_scope (an_preview_at E) public_id d) of
              Inl e \<Rightarrow> (Inl e, d)
            | Inr scope_preview \<Rightarrow>
                (case create_reviewed (an_crypto E) (an_rng E) (an_create_at E) (ri_name input) (ri_description input)
                        (sc_tool_allowlist scope_preview) None (ri_metadata input) None d of
                   (Inl e, d1) \<Rightarrow> (Inl (admin_of_repo (an_lib_text E) e), d1)
                 | (Inr (agent_pid, agent_secret), d1) \<Rightarrow>
                     (case admin_result E (get_active_by_public_id agent_pid d1) of
                        Inl e \<Rightarrow> (Inl e, d1)
                      | Inr None \<Rightarrow> (Inl AeAgentNotFound, d1)
                      | Inr (Some agent) \<Rightarrow>
                          (case consume (cr_argon2 (an_crypto E)) (an_consume_at E) (an_consume_later E) public_id secret
                                  (ar_id agent) d1 of
                             (consumed, d2) \<Rightarrow>
                               if consumed = Inr scope_preview then
                                 (Inr \<lparr>ro_public_id = agent_pid, ro_token = agent_token (ar_public_id agent) agent_secret,
                                    ro_allowlist = sc_tool_allowlist scope_preview\<rparr>, d2)
                               else
                                 (Inl (case consumed of Inl e \<Rightarrow> admin_of_repo (an_lib_text E) e | Inr _ \<Rightarrow> AeInvalidBootstrap),
                                  snd (agent_revoke (an_revoke_at E) agent_pid d2)))))))"

definition reuse_attempt :: "admin_env \<Rightarrow> admin_error \<Rightarrow> string option \<Rightarrow> db \<Rightarrow> bool" where
  "reuse_attempt E e pid d \<longleftrightarrow>
     e = AeInvalidBootstrap
   \<and> (case pid of
        None \<Rightarrow> False
      | Some p \<Rightarrow> (case diagnose (an_diagnose_at E) p d of Inr s \<Rightarrow> s = Used \<or> s = bootstrap_status.Revoked | Inl _ \<Rightarrow> False))"

definition register_agent :: "admin_env \<Rightarrow> register_input \<Rightarrow> register_output admin_op" where
  "register_agent E input sv d =
    (let pid = bootstrap_id_of E (ri_bootstrap_token input) in
     case register_agent_inner E input d of
       (Inr out, d1) \<Rightarrow>
         (Inr out, emit_agent ''registered'' (ro_public_id out) sv,
          admin_audit sv (default_event\<lparr>ae_ts_ms := an_ms E, ae_event_class := EcOperator, ae_event := ''agent_register'',
            ae_agent_public_id := Some (ro_public_id out), ae_decision := Allowed,
            ae_details := Some (JObj [(''via'', JStr ''bootstrap'')])\<rparr>) d1)
     | (Inl e, d1) \<Rightarrow>
         (Inl e, sv,
          admin_audit sv (default_event\<lparr>ae_ts_ms := an_ms E,
            ae_event_class := (if reuse_attempt E e pid d1 then EcSecurity else EcOperator),
            ae_event := (if reuse_attempt E e pid d1 then ''bootstrap_reuse_attempt'' else ''agent_register''),
            ae_decision := Denied,
            ae_details := Some (JObj [(''bootstrap_public_id'', jopt JStr pid), (''error'', JStr (admin_message e))])\<rparr>) d1))"

definition get_agent_status :: "admin_env \<Rightarrow> agent_identity \<Rightarrow> db \<Rightarrow> admin_error + agent_status_output" where
  "get_agent_status E i d =
    (case admin_result E (get_active_by_public_id (ai_public_id i) d) of
       Inl e \<Rightarrow> Inl e
     | Inr None \<Rightarrow> Inl AeAgentNotFound
     | Inr (Some r) \<Rightarrow> Inr (agent_status_of r))"

definition rotate_agent :: "admin_env \<Rightarrow> agent_identity \<Rightarrow> string \<Rightarrow> rotate_output admin_op" where
  "rotate_agent E i current_secret sv d =
    (case agent_rotate (an_crypto E) (an_rng E) (ai_public_id i) current_secret d of
       (r, d1) \<Rightarrow>
         (case admin_result E r of
            Inl e \<Rightarrow> Inl e
          | Inr s \<Rightarrow> Inr \<lparr>rt_public_id = ai_public_id i, rt_token = agent_token (ai_public_id i) s\<rparr>,
          sv,
          admin_audit sv (default_event\<lparr>ae_ts_ms := an_ms E, ae_event_class := EcOperator, ae_event := ''agent_rotate'',
            ae_agent_public_id := Some (ai_public_id i), ae_decision := outcome r, ae_details := error_details E r\<rparr>) d1))"

definition deregister_agent :: "admin_env \<Rightarrow> agent_identity \<Rightarrow> unit admin_op" where
  "deregister_agent E i sv d =
    (case agent_revoke (an_revoke_at E) (ai_public_id i) d of
       (r, d1) \<Rightarrow>
         (admin_result E r, sv,
          admin_audit sv (default_event\<lparr>ae_ts_ms := an_ms E, ae_event_class := EcSecurity, ae_event := ''agent_deregister'',
            ae_agent_public_id := Some (ai_public_id i), ae_decision := outcome r, ae_details := error_details E r\<rparr>) d1))"

definition tool_info_of :: "bool \<Rightarrow> tool_config \<Rightarrow> tool_info" where
  "tool_info_of present t =
    \<lparr>ti_name = tc_name t, ti_description = tc_description t, ti_egress = egress_as_str (tc_egress t),
     ti_credential_present = present, ti_activation = ''configuration_only'', ti_credential_readiness = ''not_checked''\<rparr>"

definition list_tools_for_agent :: "agent_identity \<Rightarrow> admin_service \<Rightarrow> tool_info list" where
  "list_tools_for_agent i sv =
    map (tool_info_of False) (filter (\<lambda>t. allows_tool i (tc_name t) = Inr ()) (cf_tools (sv_config sv)))"

section \<open>Operator\<close>

definition list_agents :: "admin_env \<Rightarrow> bool \<Rightarrow> db \<Rightarrow> admin_error + agent_record list" where
  "list_agents E include_revoked d = admin_result E (agent_list include_revoked d)"

definition get_agent :: "admin_env \<Rightarrow> string \<Rightarrow> db \<Rightarrow> admin_error + agent_record" where
  "get_agent E key d =
    (case admin_result E (get_active_by_public_id key d) of
       Inl e \<Rightarrow> Inl e
     | Inr (Some r) \<Rightarrow> Inr r
     | Inr None \<Rightarrow>
         (case admin_result E (get_by_name key d) of
            Inl e \<Rightarrow> Inl e
          | Inr (Some r) \<Rightarrow> Inr r
          | Inr None \<Rightarrow> Inl AeAgentNotFound))"

definition create_agent_as_operator :: "admin_env \<Rightarrow> operator_identity \<Rightarrow> create_agent_input \<Rightarrow> register_output admin_op" where
  "create_agent_as_operator E oper input sv d =
    (let allowlist = Some (case ca_allowlist input of Some l \<Rightarrow> l | None \<Rightarrow> []) in
     case create_reviewed (an_crypto E) (an_rng E) (an_create_at E) (ca_name input) (ca_description input) allowlist
            (ca_denylist input) (ca_metadata input) (ca_expires_at input) d of
       (Inr (pid, secret), d1) \<Rightarrow>
         (Inr \<lparr>ro_public_id = pid, ro_token = agent_token pid secret, ro_allowlist = allowlist\<rparr>, sv,
          audit_for_operator sv oper (default_event\<lparr>ae_ts_ms := an_ms E, ae_event_class := EcOperator,
            ae_event := ''agent_create'', ae_agent_public_id := Some pid, ae_decision := Allowed\<rparr>) d1)
     | (Inl e, d1) \<Rightarrow>
         (Inl (admin_of_repo (an_lib_text E) e), sv,
          audit_for_operator sv oper (default_event\<lparr>ae_ts_ms := an_ms E, ae_event_class := EcOperator,
            ae_event := ''agent_create'', ae_decision := Denied,
            ae_details := Some (JObj [(''error'', JStr (repo_message (an_lib_text E) e)), (''name'', JStr (ca_name input))])\<rparr>) d1))"

definition modify_agent :: "admin_env \<Rightarrow> operator_identity \<Rightarrow> string \<Rightarrow> modify_agent_input \<Rightarrow> unit admin_op" where
  "modify_agent E oper public_id input sv d =
    (case update_policy_reviewed public_id (ma_allowlist input) (ma_denylist input) (ma_metadata input) (ma_expires_at input) d of
       (r, d1) \<Rightarrow>
         (admin_result E r, sv,
          audit_for_operator sv oper (default_event\<lparr>ae_ts_ms := an_ms E, ae_event_class := EcOperator,
            ae_event := ''agent_modify'', ae_agent_public_id := Some public_id, ae_decision := outcome r,
            ae_details := error_details E r\<rparr>) d1))"

definition set_agent_cert_identity :: "admin_env \<Rightarrow> operator_identity \<Rightarrow> string \<Rightarrow> string option \<Rightarrow> unit admin_op" where
  "set_agent_cert_identity E oper public_id cert sv d =
    (case set_cert_identity public_id cert d of
       (r, d1) \<Rightarrow>
         (admin_result E r, sv,
          audit_for_operator sv oper (default_event\<lparr>ae_ts_ms := an_ms E, ae_event_class := EcOperator,
            ae_event := ''agent_set_cert_identity'', ae_agent_public_id := Some public_id, ae_decision := outcome r,
            ae_details := Some (JObj [(''cert_identity'', jopt JStr cert), (''error'', error_text E r)])\<rparr>) d1))"

definition revoke_agent :: "admin_env \<Rightarrow> operator_identity \<Rightarrow> string \<Rightarrow> unit admin_op" where
  "revoke_agent E oper public_id sv d =
    (case agent_revoke (an_revoke_at E) public_id d of
       (r, d1) \<Rightarrow>
         (admin_result E r, if outcome r = Allowed then emit_agent ''revoked'' public_id sv else sv,
          audit_for_operator sv oper (default_event\<lparr>ae_ts_ms := an_ms E, ae_event_class := EcSecurity,
            ae_event := ''agent_revoke'', ae_agent_public_id := Some public_id, ae_decision := outcome r,
            ae_details := error_details E r\<rparr>) d1))"

definition scope_json :: "bootstrap_scope \<Rightarrow> json" where
  "scope_json s =
    JObj [(''expires_at'', jopt JNum (sc_expires_at s)), (''single_use'', JBool (sc_single_use s)),
      (''tool_allowlist'', jopt (\<lambda>l. JArr (map JStr l)) (sc_tool_allowlist s))]"

definition mint_bootstrap_token :: "admin_env \<Rightarrow> operator_identity \<Rightarrow> mint_bootstrap_input \<Rightarrow> mint_bootstrap_output admin_op" where
  "mint_bootstrap_token E oper input sv d =
    (let scope = \<lparr>sc_tool_allowlist = Some (case mb_tool_allowlist input of Some l \<Rightarrow> l | None \<Rightarrow> []),
           sc_expires_at = mb_expires_at input, sc_single_use = mb_single_use input\<rparr> in
     case mint_reviewed (an_crypto E) (an_rng E) (an_create_at E) scope (oi_name oper) d of
       (Inr (pid, secret), d1) \<Rightarrow>
         (Inr \<lparr>mo_public_id = pid, mo_token = ''lkbt_'' @ pid @ ''.'' @ secret, mo_scope = scope\<rparr>, sv,
          audit_for_operator sv oper (default_event\<lparr>ae_ts_ms := an_ms E, ae_event_class := EcOperator,
            ae_event := ''bootstrap_mint'', ae_decision := Allowed,
            ae_details := Some (JObj [(''bootstrap_public_id'', JStr pid), (''scope'', scope_json scope)])\<rparr>) d1)
     | (Inl e, d1) \<Rightarrow>
         (Inl (admin_of_repo (an_lib_text E) e), sv,
          audit_for_operator sv oper (default_event\<lparr>ae_ts_ms := an_ms E, ae_event_class := EcOperator,
            ae_event := ''bootstrap_mint'', ae_decision := Denied,
            ae_details := Some (JObj [(''error'', JStr (repo_message (an_lib_text E) e))])\<rparr>) d1))"

definition list_bootstrap_tokens :: "admin_env \<Rightarrow> db \<Rightarrow> admin_error + bootstrap_record list" where
  "list_bootstrap_tokens E d = admin_result E (bootstrap_list d)"

definition revoke_bootstrap_token :: "admin_env \<Rightarrow> operator_identity \<Rightarrow> string \<Rightarrow> unit admin_op" where
  "revoke_bootstrap_token E oper public_id sv d =
    (case bootstrap_revoke (an_revoke_at E) public_id d of
       (r, d1) \<Rightarrow>
         (admin_result E r, sv,
          audit_for_operator sv oper (default_event\<lparr>ae_ts_ms := an_ms E, ae_event_class := EcSecurity,
            ae_event := ''bootstrap_revoke'', ae_decision := outcome r,
            ae_details := Some (JObj [(''bootstrap_public_id'', JStr public_id), (''error'', error_text E r)])\<rparr>) d1))"

definition query_audit :: "admin_env \<Rightarrow> audit_filter \<Rightarrow> audit_page \<Rightarrow> admin_service \<Rightarrow> db \<Rightarrow> admin_error + audit_event list" where
  "query_audit E f p sv d =
    (if \<not> sv_audit sv then Inl (AeBackend ''audit_disabled'') else admin_result E (audit_query f p d))"

definition credential_present :: "admin_service \<Rightarrow> tool_config \<Rightarrow> bool" where
  "credential_present sv t =
    (case tc_auth t of
       None \<Rightarrow> False
     | Some auth \<Rightarrow>
         (case sv_resolved_creds sv of
            Some resolved \<Rightarrow> resolved (tc_name t) \<noteq> None
          | None \<Rightarrow> looks_present (ta_value auth)))"

definition list_tools_for_operator :: "admin_service \<Rightarrow> tool_info list" where
  "list_tools_for_operator sv =
    map (\<lambda>t. tool_info_of (credential_present sv t \<or> tc_auth t = None) t) (cf_tools (sv_config sv))"

section \<open>Self-registration\<close>

definition active_agents :: "db \<Rightarrow> agent_row list" where
  "active_agents d = filter (\<lambda>a. ag_revoked_at a = None) (agents d)"

lemma created_agent_get:
  assumes "mt_public_id t \<notin> ag_public_id ` set (agents d)" and "\<not> db_down d"
  shows "\<exists>r. get_active_by_public_id (mt_public_id t)
      (d\<lparr>agents := agents d @ [new_agent_row i t now name de allow dn me ex], next_agent_id := m\<rparr>) = Inr (Some r)
    \<and> ar_id r = i \<and> ar_public_id r = mt_public_id t"
proof -
  have "find (\<lambda>a. ag_public_id a = mt_public_id t \<and> ag_revoked_at a = None)
      (agents d @ [new_agent_row i t now name de allow dn me ex]) = Some (new_agent_row i t now name de allow dn me ex)"
    using assms(1) by (intro find_new_agent) (simp, force simp: list_ex_iff)
  with assms(2) show ?thesis
    by (simp add: get_active_by_public_id_def fetch_agent_def into_record_def) (simp add: new_agent_row_def)
qed

text \<open>A call of \<open>register_agent_inner\<close> either stops before it writes, or creates the agent and then consumes the
  token for it.\<close>

lemma register_inner_cases:
  obtains (early) e where "register_agent_inner E input d = (Inl e, d)"
  | (created) pid secret scope t d1 where "parse (an_decodes E) (ri_bootstrap_token input) = Inr (NsBootstrap, pid, secret)"
      "preview_scope (an_preview_at E) pid d = Inr scope" "\<not> db_down d"
      "ri_name input \<notin> ag_name ` set (agents d)" "mt_public_id t \<notin> ag_public_id ` set (agents d)"
      "d1 = d\<lparr>agents := agents d @ [new_agent_row (next_agent_id d) t (an_create_at E) (ri_name input) (ri_description input)
         (case sc_tool_allowlist scope of Some l \<Rightarrow> l | None \<Rightarrow> []) None (ri_metadata input) None],
         next_agent_id := next_agent_id d + 1\<rparr>"
      "register_agent_inner E input d =
        (case consume (cr_argon2 (an_crypto E)) (an_consume_at E) (an_consume_later E) pid secret (next_agent_id d) d1 of
           (consumed, d2) \<Rightarrow>
             if consumed = Inr scope
             then (Inr \<lparr>ro_public_id = mt_public_id t, ro_token = agent_token (mt_public_id t) (mt_secret t),
                    ro_allowlist = sc_tool_allowlist scope\<rparr>, d2)
             else (Inl (case consumed of Inl e \<Rightarrow> admin_of_repo (an_lib_text E) e | Inr _ \<Rightarrow> AeInvalidBootstrap),
                   snd (agent_revoke (an_revoke_at E) (mt_public_id t) d2)))"
proof (cases "\<exists>pid secret scope. parse (an_decodes E) (ri_bootstrap_token input) = Inr (NsBootstrap, pid, secret)
    \<and> preview_scope (an_preview_at E) pid d = Inr scope")
  case False
  then have "\<exists>e. register_agent_inner E input d = (Inl e, d)"
    by (auto simp: register_agent_inner_def admin_result_def split: sum.splits prod.splits)
  then show thesis using early by blast
next
  case True
  then obtain pid secret scope where p: "parse (an_decodes E) (ri_bootstrap_token input) = Inr (NsBootstrap, pid, secret)"
    "preview_scope (an_preview_at E) pid d = Inr scope" by blast
  let ?create = "create_inner (an_crypto E) (an_rng E) (an_create_at E) (ri_name input) (ri_description input)
    (sc_tool_allowlist scope) None (ri_metadata input) None True d"
  show thesis
  proof (cases rule: create_inner_cases [of "an_crypto E" "an_rng E" "an_create_at E" "ri_name input" "ri_description input"
        "sc_tool_allowlist scope" None "ri_metadata input" None True d])
    case (refused e)
    then show thesis
      by (intro early [of "admin_of_repo (an_lib_text E) e"])
         (simp add: register_agent_inner_def p admin_result_def create_reviewed_def)
  next
    case c: (created t allow)
    let ?d1 = "d\<lparr>agents := agents d @ [new_agent_row (next_agent_id d) t (an_create_at E) (ri_name input) (ri_description input)
         allow None (ri_metadata input) None], next_agent_id := next_agent_id d + 1\<rparr>"
    obtain r where r: "get_active_by_public_id (mt_public_id t) ?d1 = Inr (Some r)" "ar_id r = next_agent_id d"
      "ar_public_id r = mt_public_id t" using created_agent_get [OF c(6,3)] by blast
    show thesis
      by (rule created [OF p c(3,5,6), of ?d1])
         (simp add: c(2), simp add: register_agent_inner_def p admin_result_def create_reviewed_def c(7) r split: prod.split)
  qed
qed

lemma admin_audit_frame [simp]:
  "agents (admin_audit sv e d) = agents d" "bootstrap_tokens (admin_audit sv e d) = bootstrap_tokens d"
  "db_down (admin_audit sv e d) = db_down d" "spent pid (admin_audit sv e d) = spent pid d"
  by (simp_all add: admin_audit_def note_event_def audit_record_def spent_def)

lemma consume_agents: "consume L now later pid s aid d = (r, d') \<Longrightarrow> agents d' = agents d"
  by (auto simp: consume_def consume_commit_def Let_def split: sum.splits if_splits)

lemma revoke_new_agent:
  assumes "agents d2 = agents d @ [a]" and "ag_public_id a \<notin> ag_public_id ` set (agents d)" and "\<not> db_down d2"
  shows "agents (snd (agent_revoke now (ag_public_id a) d2)) = agents d @ [a\<lparr>ag_revoked_at := Some now\<rparr>]"
proof -
  have "update_where (\<lambda>x. ag_public_id x = ag_public_id a) f (agents d) = agents d" for f
    using assms(2) by (auto simp: update_where_def image_iff intro!: map_idI)
  then show ?thesis
    using assms(1,3) by (simp add: agent_revoke_def update_agent_def) (simp add: update_where_def)
qed

lemma consume_down: "consume L now later pid s aid d = (r, d') \<Longrightarrow> db_down d' = db_down d"
  by (auto simp: consume_def consume_commit_def Let_def split: sum.splits if_splits)

lemma consume_InrD:
  assumes "consume L now later pid secret aid d = (Inr scope, d')"
  obtains b where "b \<in> set (bootstrap_tokens d)" "bk_public_id b = pid" "bk_used_at b = None" "bk_revoked_at b = None"
    "bk_grants_reviewed b" "bk_scope b = JVal scope" "argon2_verify L (bk_secret_hash b) secret = Inr True"
    "fst (consume_commit now later scope aid pid d) = Inr scope" "d' = snd (consume_commit now later scope aid pid d)"
proof -
  obtain s where s: "consume_read L now pid secret d = Inr s" "consume_commit now later s aid pid d = (Inr scope, d')"
    using assms unfolding consume_def by (cases "consume_read L now pid secret d") simp_all
  have e: "s = scope" using consume_commit_InrD [of now later s aid pid d scope] s(2) by simp
  from s(1) obtain b where r: "reviewed_token pid d = Some b" "\<not> db_down d"
    unfolding consume_read_def by (cases "db_down d"; cases "reviewed_token pid d") simp_all
  with s(1) have u: "bk_used_at b = None" "bk_revoked_at b = None" "\<not> expired_before now (bk_expires_at b)"
    unfolding consume_read_def by (simp_all split: if_splits)
  with s(1) r e have b: "reviewed_token pid d = Some b" "bk_used_at b = None" "bk_revoked_at b = None"
    "argon2_verify L (bk_secret_hash b) secret = Inr True" "bk_scope b = JVal scope"
    unfolding consume_read_def
    by (cases "argon2_verify L (bk_secret_hash b) secret"; cases "bk_scope b"; simp split: if_splits)+
  from find_SomeD [OF b(1) [unfolded reviewed_token_def]]
  have f: "b \<in> set (bootstrap_tokens d)" "bk_public_id b = pid" "bk_grants_reviewed b" by simp_all
  have c: "fst (consume_commit now later scope aid pid d) = Inr scope" "d' = snd (consume_commit now later scope aid pid d)"
    using s(2) unfolding e by simp_all
  show thesis by (rule that [OF f(1,2) b(2,3) f(3) b(5,4) c])
qed


text \<open>A database with one live single-use token, whose secret is a row of the letter \<open>s\<close>.\<close>

definition demo_pid :: string where
  "demo_pid = replicate 22 (CHR ''p'')"

definition demo_live_db :: db where
  "demo_live_db = demo_db\<lparr>bootstrap_tokens := [\<lparr>bk_id = 1, bk_public_id = demo_pid,
     bk_secret_hash = ''phc'' @ replicate 43 (CHR ''s''), bk_scope = JVal demo_scope, bk_created_by = ''ops'', bk_created_at = 100,
     bk_expires_at = Some 500, bk_used_at = None, bk_used_by_agent_id = None, bk_revoked_at = None, bk_grants_reviewed = True\<rparr>],
     next_bootstrap_id := 2\<rparr>"

definition demo_admin_env :: admin_env where
  "demo_admin_env = \<lparr>an_crypto = demo_crypto, an_rng = demo_rng, an_decodes = (\<lambda>s. True), an_lib_text = (\<lambda>e. ''x''),
     an_preview_at = 200, an_create_at = 200, an_consume_at = 200, an_consume_later = 200, an_revoke_at = 200,
     an_diagnose_at = 200, an_ms = 200000\<rparr>"

definition demo_register :: "char \<Rightarrow> register_input" where
  "demo_register c = \<lparr>ri_bootstrap_token = ''lkbt_'' @ demo_pid @ ''.'' @ replicate 43 c, ri_name = ''openclaw'',
     ri_description = None, ri_metadata = None\<rparr>"

definition demo_service_state :: admin_service where
  "demo_service_state = \<lparr>sv_config = demo_config, sv_audit = True, sv_resolved_creds = None, sv_operational_log = None\<rparr>"

lemma demo_live_db_ok: "db_ok demo_live_db"
  using demo_db_ok by (simp add: demo_live_db_def db_ok_def)

lemma demo_parse:
  "parse (an_decodes demo_admin_env) (ri_bootstrap_token (demo_register c)) = Inr (NsBootstrap, demo_pid, replicate 43 c)"
proof -
  have "split_once (CHR ''_'') (''lkbt'' @ CHR ''_'' # (demo_pid @ CHR ''.'' # replicate 43 c))
      = Some (''lkbt'', demo_pid @ CHR ''.'' # replicate 43 c)" by (rule split_once_append) simp
  moreover have "split_once (CHR ''.'') (demo_pid @ CHR ''.'' # replicate 43 c) = Some (demo_pid, replicate 43 c)"
    by (rule split_once_append) (simp add: demo_pid_def)
  ultimately show ?thesis
    by (simp add: parse_def demo_register_def demo_admin_env_def from_prefix_def demo_pid_def PUBLIC_ID_LEN_def SECRET_LEN_def)
qed

lemma demo_preview: "preview_scope 200 demo_pid demo_live_db = Inr demo_scope"
  by (simp add: preview_scope_def reviewed_token_def demo_live_db_def demo_db_def empty_db_def expired_before_def)



lemma demo_env_sel:
  "an_crypto demo_admin_env = demo_crypto" "an_rng demo_admin_env = demo_rng" "an_preview_at demo_admin_env = 200"
  "an_create_at demo_admin_env = 200" "an_consume_at demo_admin_env = 200" "an_consume_later demo_admin_env = 200"
  "ri_name (demo_register c) = ''openclaw''" "ri_description (demo_register c) = None" "ri_metadata (demo_register c) = None"
  by (simp_all add: demo_admin_env_def demo_register_def)

lemma demo_registers:
  "\<exists>out sv' d'. register_agent demo_admin_env (demo_register (CHR ''s'')) demo_service_state demo_live_db = (Inr out, sv', d')"
proof -
  let ?t = "\<lparr>mt_public_id = ''AB'', mt_secret = ''CD'', mt_hash = ''phcCD''\<rparr>"
  let ?a = "new_agent_row (next_agent_id demo_live_db) ?t 200 ''openclaw'' None
    (case sc_tool_allowlist demo_scope of Some l \<Rightarrow> l | None \<Rightarrow> []) None None None"
  let ?d1 = "demo_live_db\<lparr>agents := agents demo_live_db @ [?a], next_agent_id := next_agent_id demo_live_db + 1\<rparr>"
  have create: "create_reviewed demo_crypto demo_rng 200 ''openclaw'' None (sc_tool_allowlist demo_scope) None None None demo_live_db
      = (Inr (''AB'', ''CD''), ?d1)"
  proof -
    have "list_all (valid_grant_target demo_live_db) (case sc_tool_allowlist demo_scope of Some l \<Rightarrow> l | None \<Rightarrow> [])"
      by (simp add: demo_scope_def valid_grant_target_def demo_live_db_def demo_db_def)
         (simp add: demo_reg_def registration_new_def registration_to_row_def)
    moreover have "\<not> list_ex (\<lambda>a. ag_name a = ''openclaw'' \<or> ag_public_id a = ''AB'') (agents demo_live_db)" "\<not> db_down demo_live_db"
      by (simp_all add: demo_live_db_def demo_db_def demo_agent_def empty_db_def)
    ultimately show ?thesis by (simp add: create_reviewed_def create_inner_def demo_mint Let_def)
  qed
  have new: "mt_public_id ?t \<notin> ag_public_id ` set (agents demo_live_db)" "\<not> db_down demo_live_db"
    by (simp_all add: demo_live_db_def demo_db_def demo_agent_def empty_db_def)
  obtain r where "get_active_by_public_id (mt_public_id ?t) ?d1 = Inr (Some r)" "ar_id r = next_agent_id demo_live_db"
    using created_agent_get [OF new] by blast
  then have r: "get_active_by_public_id ''AB'' ?d1 = Inr (Some r)" "ar_id r = ag_id ?a"
    by (simp_all add: new_agent_row_def)
  have "argon2_verify (cr_argon2 demo_crypto) (''phc'' @ replicate 43 (CHR ''s'')) (replicate 43 (CHR ''s'')) = Inr True"
    by (simp add: demo_crypto_def argon2_verify_def argon2_params_def starts_with_def)
  then have read: "consume_read (cr_argon2 demo_crypto) 200 demo_pid (replicate 43 (CHR ''s'')) ?d1 = Inr demo_scope"
    by (simp add: consume_read_def reviewed_token_def demo_live_db_def demo_db_def empty_db_def expired_before_def)
  have "fst (consume_commit 200 200 demo_scope (ag_id ?a) demo_pid ?d1) = Inr demo_scope"
    by (simp add: consume_commit_def consumable_def count_where_def demo_live_db_def demo_db_def empty_db_def expired_before_def
        Let_def)
  then have "fst (consume (cr_argon2 demo_crypto) 200 200 demo_pid (replicate 43 (CHR ''s'')) (ar_id r) ?d1) = Inr demo_scope"
    by (simp add: consume_def read r(2))
  then have "\<exists>out d'. register_agent_inner demo_admin_env (demo_register (CHR ''s'')) demo_live_db = (Inr out, d')"
    by (auto simp: register_agent_inner_def demo_parse demo_env_sel demo_preview create r(1) admin_result_def split: prod.split)
  then show ?thesis by (auto simp: register_agent_def Let_def)
qed


section \<open>The operations keep the database well formed\<close>

lemma note_event_db_ok [simp]: "db_ok (note_event b e d) = db_ok d"
  by (simp add: note_event_def audit_record_def db_ok_def)

lemma admin_audit_db_ok [simp]: "db_ok (admin_audit sv e d) = db_ok d"
  by (simp add: admin_audit_def)

lemma audit_for_operator_db_ok [simp]: "db_ok (audit_for_operator sv oper e d) = db_ok d"
  by (simp add: audit_for_operator_def Let_def)

lemma agent_write_db_ok:
  assumes "db_ok d"
  shows "db_ok (snd (create_reviewed C R now name de al dn me ex d))" "db_ok (snd (agent_revoke now pid d))"
    "db_ok (snd (set_cert_identity pid i d))" "db_ok (snd (update_policy_reviewed pid al' dn' me' ex' d))"
    "db_ok (snd (agent_rotate C R pid cur d))"
proof -
  note step = agent_step_db_ok [of "\<lambda>_. True", OF _ assms]
  show "db_ok (snd (create_reviewed C R now name de al dn me ex d))"
    unfolding create_reviewed_def by (rule step, rule agent_step.ag_create) simp
  show "db_ok (snd (agent_revoke now pid d))" by (rule step, rule agent_step.ag_revoke)
  show "db_ok (snd (set_cert_identity pid i d))" by (rule step, rule agent_step.ag_cert)
  show "db_ok (snd (update_policy_reviewed pid al' dn' me' ex' d))"
    unfolding update_policy_reviewed_def by (rule step, rule agent_step.ag_policy)
  have "db_ok (snd (rotate_commit pid h m d))" for h m by (rule step, rule agent_step.ag_rotate) simp
  with assms show "db_ok (snd (agent_rotate C R pid cur d))"
    by (auto simp: agent_rotate_def split: sum.split prod.split)
qed

lemma token_write_db_ok:
  assumes "db_ok d"
  shows "db_ok (snd (mint_reviewed C R now scope who d))" "db_ok (snd (bootstrap_revoke now pid d))"
    "db_ok (snd (consume L now later pid secret aid d))"
proof -
  note step = bootstrap_step_db_ok [OF _ assms]
  show "db_ok (snd (mint_reviewed C R now scope who d))"
    unfolding mint_reviewed_def by (rule step, rule bootstrap_step.bs_mint)
  show "db_ok (snd (bootstrap_revoke now pid d))" by (rule step, rule bootstrap_step.bs_revoke)
  have "db_ok (snd (consume_commit now later scope aid pid d))" for scope by (rule step, rule bootstrap_step.bs_consume)
  with assms show "db_ok (snd (consume L now later pid secret aid d))"
    by (auto simp: consume_def split: sum.split)
qed

lemma register_inner_db_ok:
  assumes "db_ok d"
  shows "db_ok (snd (register_agent_inner E input d))"
proof (cases rule: register_inner_cases [of E input d])
  case (created pid secret scope t d1)
  have "db_ok d1" unfolding created(6) using db_ok_new_agent [OF assms] created(4,5) by simp
  then show ?thesis
    unfolding created(7) using token_write_db_ok(3) [of d1] agent_write_db_ok(2)
    by (auto split: prod.split) (metis snd_conv)+
qed (simp add: assms)

lemmas admin_write_db_ok = agent_write_db_ok token_write_db_ok register_inner_db_ok

lemma admin_service_db_ok:
  assumes "db_ok d"
  shows "db_ok (snd (snd (register_agent E ri sv d)))" "db_ok (snd (snd (rotate_agent E i cur sv d)))"
    "db_ok (snd (snd (deregister_agent E i sv d)))" "db_ok (snd (snd (create_agent_as_operator E oper ci sv d)))"
    "db_ok (snd (snd (modify_agent E oper pid mi sv d)))" "db_ok (snd (snd (set_agent_cert_identity E oper pid cert sv d)))"
    "db_ok (snd (snd (revoke_agent E oper pid sv d)))" "db_ok (snd (snd (mint_bootstrap_token E oper bi sv d)))"
    "db_ok (snd (snd (revoke_bootstrap_token E oper pid sv d)))"
  using admin_write_db_ok [OF assms]
  by (simp_all add: register_agent_def rotate_agent_def deregister_agent_def create_agent_as_operator_def modify_agent_def
      set_agent_cert_identity_def revoke_agent_def mint_bootstrap_token_def revoke_bootstrap_token_def Let_def
      split: prod.split sum.split) (metis snd_conv)+

end
