(* ===== verification/AdminApi.thy ===== *)
theory AdminApi
  imports OAuthAdmin AdminService
begin

text \<open>
  \<open>admin/uds.rs\<close>: the admin routes, served over the Unix socket and over HTTPS.  \<open>uds_state\<close> is what the
  router holds; the catalog, the resolved credentials, the operational log and the \<open>op://\<close> cache are shared
  with the registration endpoints, so they stand in one \<open>registry_state\<close>.  A request arrives routed and
  decoded: a call outside these routes, or with a body that does not decode, is answered by the framework.
  \<open>api_env\<close> collects the clocks, random bytes and libraries of one call.
\<close>

section \<open>State and requests\<close>

record uds_state =
  us_admin :: admin_service
  us_agent_auth :: bearer_authenticator
  us_operator_auth :: operator_authenticator
  us_operator_mtls :: "(auth_mode \<times> mtls_validator) option"
  us_registrations :: bool
  us_registry :: registry_state
  us_oauth :: "oauth_admin_state option"
  us_operational_log_store :: bool

record api_env =
  av_admin :: admin_env
  av_registry :: registry_env
  av_oauth :: oauth_admin_env
  av_clock :: auth_clock
  av_x509 :: x509_lib
  av_set_at :: int

record audit_params =
  qa_since_ms :: "int option"
  qa_until_ms :: "int option"
  qa_agent :: "string option"
  qa_tool :: "string option"
  qa_event_class :: "string option"
  qa_decision :: "string option"
  qa_limit :: "nat option"
  qa_offset :: "nat option"

record log_params =
  ql_level :: "string option"
  ql_component :: "string option"
  ql_since_ms :: "int option"
  ql_until_ms :: "int option"
  ql_limit :: "nat option"
  ql_offset :: "nat option"

datatype agent_request = AqStatus | AqRotate string | AqDeregister | AqTools

datatype operator_request =
    OqListAgents bool
  | OqCreateAgent create_agent_input
  | OqGetAgent string
  | OqModifyAgent string modify_agent_input
  | OqRevokeAgent string
  | OqSetCertIdentity string "string option"
  | OqListCredentials string
  | OqSetCredential string string auth_spec
  | OqUnsetCredential string string
  | OqSetStoredCredential string string string "string option"
  | OqListBootstrap
  | OqMintBootstrap mint_bootstrap_input
  | OqRevokeBootstrap string
  | OqListTools
  | OqAudit audit_params
  | OqLogs log_params
  | OqRegistry kind registry_request
  | OqOauth oauth_request

datatype admin_request =
    Register register_input
  | AgentCall agent_request
  | OperatorCall operator_request

text \<open>What the middleware reads of a call: the authorization header as text, and the certificate of the peer.\<close>

record caller =
  ac_authorization :: "string option"
  ac_peer_cert :: "string option"

type_synonym api_op = "uds_state \<Rightarrow> db \<Rightarrow> http_response \<times> uds_state \<times> db"

section \<open>Rendering\<close>

definition error_response :: "auth_error \<Rightarrow> http_response" where
  "error_response e =
    json_response (auth_status e) (error_json [(''code'', JStr (auth_code e)), (''message'', JStr (auth_message e))])"

fun admin_status_code :: "admin_error \<Rightarrow> nat \<times> string" where
  "admin_status_code AeInvalidBootstrap = (401, ''invalid_credential'')"
| "admin_status_code AeAgentNameConflict = (409, ''agent_name_conflict'')"
| "admin_status_code AeRotationInProgress = (409, ''rotation_in_progress'')"
| "admin_status_code AeAgentNotFound = (404, ''agent_not_found'')"
| "admin_status_code AeNotAuthorized = (403, ''forbidden'')"
| "admin_status_code AeInvalidGrantTarget = (400, ''grant_target_invalid'')"
| "admin_status_code (AeBackend _) = (500, ''backend_error'')"

definition admin_err_response :: "admin_error \<Rightarrow> http_response" where
  "admin_err_response e =
    (case admin_status_code e of (status, code) \<Rightarrow>
       json_response status (error_json [(''code'', JStr code), (''message'', JStr (admin_message e))]))"

definition bad_request :: "string \<Rightarrow> string \<Rightarrow> http_response" where
  "bad_request code message = json_response 400 (error_json [(''code'', JStr code), (''message'', JStr message)])"

definition strings_json :: "string list \<Rightarrow> json" where
  "strings_json l = JArr (map JStr l)"

definition register_output_json :: "register_output \<Rightarrow> json" where
  "register_output_json o1 = JObj [(''public_id'', JStr (ro_public_id o1)), (''token'', JStr (ro_token o1)),
     (''allowlist'', jopt strings_json (ro_allowlist o1))]"

definition agent_status_json :: "agent_status_output \<Rightarrow> json" where
  "agent_status_json s = JObj [(''public_id'', JStr (so_public_id s)), (''name'', JStr (so_name s)),
     (''description'', jopt JStr (so_description s)), (''allowlist'', jopt strings_json (so_allowlist s)),
     (''denylist'', jopt strings_json (so_denylist s)), (''registered_at'', JNum (so_registered_at s)),
     (''last_used_at'', jopt JNum (so_last_used_at s)), (''expires_at'', jopt JNum (so_expires_at s)),
     (''grants_reviewed'', JBool (so_grants_reviewed s))]"

definition tool_info_json :: "tool_info \<Rightarrow> json" where
  "tool_info_json t = JObj [(''activation'', JStr (ti_activation t)), (''credential_present'', JBool (ti_credential_present t)),
     (''credential_readiness'', JStr (ti_credential_readiness t)), (''description'', JStr (ti_description t)),
     (''egress'', JStr (ti_egress t)), (''name'', JStr (ti_name t))]"

definition agent_record_json :: "agent_record \<Rightarrow> json" where
  "agent_record_json a = JObj [(''cert_identity'', jopt JStr (ar_cert_identity a)), (''description'', jopt JStr (ar_description a)),
     (''expires_at'', jopt JNum (ar_expires_at a)), (''grants_reviewed'', JBool (ar_grants_reviewed a)),
     (''last_used_at'', jopt JNum (ar_last_used_at a)), (''name'', JStr (ar_name a)), (''public_id'', JStr (ar_public_id a)),
     (''registered_at'', JNum (ar_registered_at a)), (''revoked_at'', jopt JNum (ar_revoked_at a)),
     (''tool_allowlist'', jopt strings_json (ar_tool_allowlist a)), (''tool_denylist'', jopt strings_json (ar_tool_denylist a))]"

definition bootstrap_record_json :: "bootstrap_record \<Rightarrow> json" where
  "bootstrap_record_json t = JObj [(''created_at'', JNum (br_created_at t)), (''created_by'', JStr (br_created_by t)),
     (''expires_at'', jopt JNum (br_expires_at t)), (''grants_reviewed'', JBool (br_grants_reviewed t)),
     (''public_id'', JStr (br_public_id t)), (''revoked_at'', jopt JNum (br_revoked_at t)), (''scope'', scope_json (br_scope t)),
     (''used_at'', jopt JNum (br_used_at t)), (''used_by_agent_id'', jopt JNum (br_used_by_agent_id t))]"

definition mint_output_json :: "mint_bootstrap_output \<Rightarrow> json" where
  "mint_output_json o1 = JObj [(''public_id'', JStr (mo_public_id o1)), (''token'', JStr (mo_token o1)),
     (''scope'', JObj [(''tool_allowlist'', jopt strings_json (sc_tool_allowlist (mo_scope o1))),
        (''expires_at'', jopt JNum (sc_expires_at (mo_scope o1))), (''single_use'', JBool (sc_single_use (mo_scope o1)))])]"

definition audit_event_json :: "audit_event \<Rightarrow> json" where
  "audit_event_json e = JObj [(''agent_name'', jopt JStr (ae_agent_name e)), (''agent_public_id'', jopt JStr (ae_agent_public_id e)),
     (''auth_method'', jopt JStr (ae_auth_method e)), (''decision'', JStr (decision_as_str (ae_decision e))),
     (''details'', jopt id (ae_details e)), (''event'', JStr (ae_event e)),
     (''event_class'', JStr (event_class_as_str (ae_event_class e))), (''latency_ms'', jopt (\<lambda>w. JNum (uint w)) (ae_latency_ms e)),
     (''method'', jopt JStr (ae_method e)), (''operator_name'', jopt JStr (ae_operator_name e)),
     (''origin_ip'', jopt JStr (ae_origin_ip e)), (''path'', jopt JStr (ae_path e)),
     (''status'', jopt (\<lambda>w. JNum (uint w)) (ae_status e)), (''tool'', jopt JStr (ae_tool e)), (''ts_ms'', JNum (ae_ts_ms e)),
     (''upstream_host'', jopt JStr (ae_upstream_host e))]"

definition log_record_json :: "oplog_record \<Rightarrow> json" where
  "log_record_json r = JObj [(''component'', JStr (lr_component r)), (''event'', JStr (lr_event r)), (''fields'', jopt id (lr_fields r)),
     (''id'', JNum (lr_id r)), (''level'', JStr (lr_level r)), (''message'', JStr (lr_message r)), (''ts_ms'', JNum (lr_ts_ms r))]"

definition override_json :: "agent_credential_override \<Rightarrow> json" where
  "override_json c = JObj [(''auth_spec'', auth_spec_json (co_auth_spec c)), (''created_at'', JNum (co_created_at c)),
     (''registration'', JStr (co_registration c)), (''updated_at'', JNum (co_updated_at c))]"

section \<open>Middleware\<close>

definition agent_auth_middleware :: "api_env \<Rightarrow> caller \<Rightarrow> (agent_identity \<Rightarrow> api_op) \<Rightarrow> api_op" where
  "agent_auth_middleware E c run us d =
    (case ac_authorization c of
       None \<Rightarrow> (error_response AuthMissingCredential, us, d)
     | Some header \<Rightarrow>
         (case authenticate_bearer (us_agent_auth us) (av_clock E) header d of
            (Inr i, d') \<Rightarrow> run i us d'
          | (Inl e, d') \<Rightarrow> (error_response e, us, d')))"

definition operator_bearer :: "api_env \<Rightarrow> caller \<Rightarrow> uds_state \<Rightarrow> db \<Rightarrow> (auth_error + operator_identity) \<times> db" where
  "operator_bearer E c us d =
    (case ac_authorization c of
       None \<Rightarrow> (Inl AuthMissingCredential, d)
     | Some header \<Rightarrow> operator_authenticate_bearer (us_operator_auth us) (cl_ms (av_clock E)) header d)"

definition operator_cert :: "api_env \<Rightarrow> mtls_validator \<Rightarrow> string \<Rightarrow> uds_state \<Rightarrow> db \<Rightarrow> (auth_error + operator_identity) \<times> db" where
  "operator_cert E V der us d =
    (case mtls_validate (av_x509 E) (cl_secs (av_clock E)) V der of
       Inl _ \<Rightarrow> (Inl AuthInvalidCredential, d)
     | Inr i \<Rightarrow> authenticate_cert_identity (us_operator_auth us) (cl_ms (av_clock E)) (mi_value i) d)"

definition operator_identify :: "api_env \<Rightarrow> caller \<Rightarrow> uds_state \<Rightarrow> db \<Rightarrow> (auth_error + operator_identity) \<times> db" where
  "operator_identify E c us d =
    (case us_operator_mtls us of
       None \<Rightarrow> operator_bearer E c us d
     | Some (mode, V) \<Rightarrow>
         (case (mode, ac_peer_cert c) of
            (ModeMtls, None) \<Rightarrow> (Inl AuthMissingCredential, d)
          | (ModeMtls, Some der) \<Rightarrow> operator_cert E V der us d
          | (ModeBoth, Some der) \<Rightarrow> operator_cert E V der us d
          | (ModeBoth, None) \<Rightarrow> operator_bearer E c us d
          | (ModeBearer, _) \<Rightarrow> operator_bearer E c us d))"

definition operator_auth_middleware :: "api_env \<Rightarrow> caller \<Rightarrow> (operator_identity \<Rightarrow> api_op) \<Rightarrow> api_op" where
  "operator_auth_middleware E c run us d =
    (case operator_identify E c us d of
       (Inr oper, d') \<Rightarrow> run oper us d'
     | (Inl e, d') \<Rightarrow> (error_response e, us, d'))"

section \<open>Service calls\<close>

text \<open>The service and the routes hold the same operational log and the same credential map.\<close>

definition service_view :: "uds_state \<Rightarrow> admin_service" where
  "service_view us = (us_admin us)\<lparr>sv_resolved_creds := rs_resolved_creds (us_registry us),
     sv_operational_log := rs_operational_log (us_registry us)\<rparr>"

definition with_admin :: "'a admin_op \<Rightarrow> ('a \<Rightarrow> http_response) \<Rightarrow> api_op" where
  "with_admin f render us d =
    (case f (service_view us) d of
       (r, sv, d') \<Rightarrow>
         ((case r of Inr a \<Rightarrow> render a | Inl e \<Rightarrow> admin_err_response e),
          us\<lparr>us_registry := (us_registry us)\<lparr>rs_operational_log := sv_operational_log sv\<rparr>\<rparr>, d'))"

definition read_admin :: "admin_error + 'a \<Rightarrow> ('a \<Rightarrow> http_response) \<Rightarrow> api_op" where
  "read_admin r render us d = ((case r of Inr a \<Rightarrow> render a | Inl e \<Rightarrow> admin_err_response e), us, d)"

definition handle_register :: "api_env \<Rightarrow> register_input \<Rightarrow> api_op" where
  "handle_register E input = with_admin (register_agent (av_admin E) input) (\<lambda>o1. json_response 200 (register_output_json o1))"

text \<open>The bootstrap-only listener has this route alone and its own error table.\<close>

fun bootstrap_status_code :: "admin_error \<Rightarrow> nat \<times> string" where
  "bootstrap_status_code AeInvalidBootstrap = (401, ''invalid_credential'')"
| "bootstrap_status_code AeAgentNameConflict = (409, ''agent_name_conflict'')"
| "bootstrap_status_code AeAgentNotFound = (404, ''agent_not_found'')"
| "bootstrap_status_code _ = (500, ''backend_error'')"

definition bootstrap_handle_register :: "admin_env \<Rightarrow> register_input \<Rightarrow> admin_service \<Rightarrow> db \<Rightarrow> http_response \<times> admin_service \<times> db" where
  "bootstrap_handle_register E input sv d =
    (case register_agent E input sv d of
       (Inr o1, sv', d') \<Rightarrow> (json_response 200 (register_output_json o1), sv', d')
     | (Inl e, sv', d') \<Rightarrow>
         (case bootstrap_status_code e of (status, code) \<Rightarrow>
            json_response status (error_json [(''code'', JStr code), (''message'', JStr (admin_message e))]), sv', d'))"

fun agent_handle :: "api_env \<Rightarrow> agent_request \<Rightarrow> agent_identity \<Rightarrow> api_op" where
  "agent_handle E AqStatus i us d =
    read_admin (get_agent_status (av_admin E) i d) (\<lambda>s. json_response 200 (agent_status_json s)) us d"
| "agent_handle E (AqRotate current) i us d =
    with_admin (rotate_agent (av_admin E) i current)
      (\<lambda>o1. json_response 200 (JObj [(''public_id'', JStr (rt_public_id o1)), (''token'', JStr (rt_token o1))])) us d"
| "agent_handle E AqDeregister i us d = with_admin (deregister_agent (av_admin E) i) (\<lambda>_. no_content) us d"
| "agent_handle E AqTools i us d =
    (json_response 200 (JObj [(''tools'', JArr (map tool_info_json (list_tools_for_agent i (service_view us))))]), us, d)"

section \<open>Queries\<close>

definition audit_class_param :: "string option \<Rightarrow> http_response + event_class option" where
  "audit_class_param p =
    (case p of
       None \<Rightarrow> Inr None
     | Some s \<Rightarrow>
         if s = ''proxy'' then Inr (Some EcProxy) else if s = ''operator'' then Inr (Some EcOperator)
         else if s = ''security'' then Inr (Some EcSecurity)
         else Inl (bad_request ''invalid_event_class'' (''unknown event_class: '' @ s)))"

definition audit_decision_param :: "string option \<Rightarrow> http_response + decision option" where
  "audit_decision_param p =
    (case p of
       None \<Rightarrow> Inr None
     | Some s \<Rightarrow>
         if s = ''allowed'' then Inr (Some Allowed) else if s = ''denied'' then Inr (Some Denied)
         else if s = ''error'' then Inr (Some DecisionError)
         else Inl (bad_request ''invalid_decision'' (''unknown decision: '' @ s)))"

definition op_query_audit :: "api_env \<Rightarrow> audit_params \<Rightarrow> api_op" where
  "op_query_audit E q us d =
    (case result_bind (audit_class_param (qa_event_class q)) (\<lambda>ec.
            result_bind (audit_decision_param (qa_decision q)) (\<lambda>de. Inr (ec, de))) of
       Inl resp \<Rightarrow> (resp, us, d)
     | Inr (ec, de) \<Rightarrow>
         read_admin (query_audit (av_admin E)
             \<lparr>af_since_ms = qa_since_ms q, af_until_ms = qa_until_ms q, af_agent_public_id = qa_agent q, af_tool = qa_tool q,
              af_event_class = ec, af_decision = de\<rparr>
             \<lparr>pg_limit = (case qa_limit q of Some n \<Rightarrow> n | None \<Rightarrow> 100), pg_offset = (case qa_offset q of Some n \<Rightarrow> n | None \<Rightarrow> 0)\<rparr>
             (service_view us) d)
           (\<lambda>rows. json_response 200 (JObj [(''events'', JArr (map audit_event_json rows))])) us d)"

definition named_param :: "string \<Rightarrow> (string \<Rightarrow> 'a option) \<Rightarrow> string option \<Rightarrow> http_response + 'a option" where
  "named_param what parse_it p =
    (case p of
       None \<Rightarrow> Inr None
     | Some s \<Rightarrow>
         (case parse_it s of
            Some v \<Rightarrow> Inr (Some v)
          | None \<Rightarrow> Inl (bad_request (''invalid_'' @ what) (''unknown '' @ what @ '': '' @ s))))"

definition op_query_logs :: "api_env \<Rightarrow> log_params \<Rightarrow> api_op" where
  "op_query_logs E q us d =
    (case result_bind (named_param ''level'' log_level_parse (ql_level q)) (\<lambda>l.
            result_bind (named_param ''component'' log_component_parse (ql_component q)) (\<lambda>c. Inr (l, c))) of
       Inl resp \<Rightarrow> (resp, us, d)
     | Inr (l, c) \<Rightarrow>
         if \<not> us_operational_log_store us then (json_response 200 (JObj [(''logs'', JArr [])]), us, d)
         else
           ((case oplog_query \<lparr>lf_level = l, lf_component = c, lf_since_ms = ql_since_ms q, lf_until_ms = ql_until_ms q,
                    lf_limit = (case ql_limit q of Some n \<Rightarrow> n | None \<Rightarrow> 100),
                    lf_offset = (case ql_offset q of Some n \<Rightarrow> n | None \<Rightarrow> 0)\<rparr> d of
               Inr rows \<Rightarrow> json_response 200 (JObj [(''logs'', JArr (map log_record_json rows))])
             | Inl e \<Rightarrow> admin_err_response (AeBackend (repo_message (an_lib_text (av_admin E)) e))), us, d))"

section \<open>Account bindings\<close>

definition resync_bindings :: "api_env \<Rightarrow> uds_state \<Rightarrow> db \<Rightarrow> uds_state" where
  "resync_bindings E us d =
    us\<lparr>us_registry := (us_registry us)\<lparr>rs_op_resolver :=
      (case (rs_op_resolver (us_registry us), rs_catalog (us_registry us)) of
         (Some r, Some c) \<Rightarrow> Some (resync_op_references (ge_op_read (av_registry E)) (ge_op_task (av_registry E)) c
           (if rs_agent_creds (us_registry us) then Some d else None) r)
       | (r, _) \<Rightarrow> r)\<rparr>\<rparr>"

definition not_wired :: http_response where
  "not_wired = admin_err_response (AeBackend ''agent_credential_overrides not wired'')"

definition selection_checks :: "api_env \<Rightarrow> auth_spec \<Rightarrow> http_response + unit" where
  "selection_checks E spec =
    (case validate_op_reference spec of
       Inl msg \<Rightarrow> Inl (bad_request ''invalid_op_reference'' msg)
     | Inr _ \<Rightarrow>
         if is_oauth spec \<and> (case oauth_session_label spec of Some l \<Rightarrow> str_trim l = [] | None \<Rightarrow> True)
         then Inl (bad_request ''oauth_session_label_required''
                ''explicitly select a nonempty OAuth session label; use default literally when intended'')
         else if is_oauth spec \<and> selected_parameters (ge_parse_url (av_registry E)) spec = None
         then Inl (bad_request ''invalid_oauth_selection'' ''select complete OAuth client and token endpoint metadata'')
         else Inr ())"

definition op_set_agent_credential :: "api_env \<Rightarrow> string \<Rightarrow> string \<Rightarrow> auth_spec \<Rightarrow> api_op" where
  "op_set_agent_credential E key registration spec us d =
    (if \<not> rs_agent_creds (us_registry us) then (not_wired, us, d)
     else
       (case selection_checks E spec of
          Inl resp \<Rightarrow> (resp, us, d)
        | Inr _ \<Rightarrow>
            (case get_agent (av_admin E) key d of
               Inl e \<Rightarrow> (admin_err_response e, us, d)
             | Inr agent \<Rightarrow>
                 (case creds_set (av_set_at E) (ar_id agent) registration spec d of
                    (Inl e, d1) \<Rightarrow> (admin_err_response (admin_of_repo (an_lib_text (av_admin E)) e), us, d1)
                  | (Inr _, d1) \<Rightarrow>
                      (json_response 200 (JObj [(''agent_public_id'', JStr (ar_public_id agent)), (''auth_spec'', auth_spec_json spec),
                         (''registration'', JStr registration)]), resync_bindings E us d1, d1)))))"

text \<open>The prior binding is read without its error: one that cannot be read counts as none.\<close>

definition prior_binding :: "int \<Rightarrow> string \<Rightarrow> db \<Rightarrow> auth_spec option" where
  "prior_binding aid registration d =
    (case creds_get aid registration d of Inr (Some co) \<Rightarrow> Some (co_auth_spec co) | _ \<Rightarrow> None)"

definition stored_header_name :: "string option \<Rightarrow> auth_spec option \<Rightarrow> catalog option \<Rightarrow> string \<Rightarrow> string option" where
  "stored_header_name header existing cat registration =
    (case (header, existing) of
       (Some h, _) \<Rightarrow> Some h
     | (None, Some spec) \<Rightarrow> header_name spec
     | (None, None) \<Rightarrow> Option.bind cat (\<lambda>c. Option.bind (lookup_any c registration) (\<lambda>r. header_name (reg_auth r))))"

definition credential_store_unconfigured :: http_response where
  "credential_store_unconfigured =
    json_response 404 (error_json [(''code'', JStr ''credential_store_unconfigured''),
      (''message'', JStr ''credential store not configured (LOCKSMITH_CREDENTIAL_SEALING_KEY unset)''), (''type'', JStr ''not_found'')])"

definition op_set_agent_stored_credential ::
    "api_env \<Rightarrow> string \<Rightarrow> string \<Rightarrow> string \<Rightarrow> string option \<Rightarrow> api_op" where
  "op_set_agent_stored_credential E key registration value header us d =
    (let rs = us_registry us; G = av_registry E; lib = an_lib_text (av_admin E) in
     case rs_credential_sealing_key rs of
       None \<Rightarrow> (credential_store_unconfigured, us, d)
     | Some sk \<Rightarrow>
         if \<not> rs_credential_secrets rs then (credential_store_unconfigured, us, d)
         else if \<not> rs_agent_creds rs then (not_wired, us, d)
         else
           (case get_agent (av_admin E) key d of
              Inl e \<Rightarrow> (admin_err_response e, us, d)
            | Inr agent \<Rightarrow>
                let existing = prior_binding (ar_id agent) registration d in
                (case credential_seal (ge_seal G) sk (ge_nonce G) value of
                   Inl e \<Rightarrow> (admin_err_response (AeBackend (''credential seal failed: '' @ oe_sealing_text (av_oauth E) e)), us, d)
                 | Inr (sealed, nonce) \<Rightarrow>
                     (case secret_insert (ge_ref_bytes G) (ge_insert_at G) sealed nonce d of
                        (Inl e, d1) \<Rightarrow> (admin_err_response (AeBackend (''credential store insert failed: '' @ repo_message lib e)), us, d1)
                      | (Inr secret_ref, d1) \<Rightarrow>
                          (case creds_set (av_set_at E) (ar_id agent) registration
                                  (stored_auth (stored_header_name header existing (rs_catalog rs) registration) secret_ref) d1 of
                             (Inl e, d2) \<Rightarrow> (admin_err_response (admin_of_repo lib e), us, d2)
                           | (Inr _, d2) \<Rightarrow>
                               let d3 = tombstone_old G (Option.bind existing stored_secret_ref) d2 in
                               (json_response 200 (JObj [(''agent_public_id'', JStr (ar_public_id agent)),
                                  (''registration'', JStr registration), (''secret_ref'', JStr secret_ref)]),
                                resync_bindings E us d3, d3))))))"

definition op_unset_agent_credential :: "api_env \<Rightarrow> string \<Rightarrow> string \<Rightarrow> api_op" where
  "op_unset_agent_credential E key registration us d =
    (if \<not> rs_agent_creds (us_registry us) then (not_wired, us, d)
     else
       (case get_agent (av_admin E) key d of
          Inl e \<Rightarrow> (admin_err_response e, us, d)
        | Inr agent \<Rightarrow>
            let old_ref = Option.bind (prior_binding (ar_id agent) registration d) stored_secret_ref in
            (case creds_delete (ar_id agent) registration d of
               (Inl e, d1) \<Rightarrow>
                 (admin_err_response (AeBackend (''agent_credential_overrides.delete: '' @ repo_message (an_lib_text (av_admin E)) e)), us, d1)
             | (Inr _, d1) \<Rightarrow>
                 let d2 = (if rs_credential_secrets (us_registry us) then tombstone_old (av_registry E) old_ref d1 else d1) in
                 (no_content, resync_bindings E us d2, d2))))"

definition op_list_agent_credentials :: "api_env \<Rightarrow> string \<Rightarrow> api_op" where
  "op_list_agent_credentials E key us d =
    ((if \<not> rs_agent_creds (us_registry us) then not_wired
      else
        (case get_agent (av_admin E) key d of
           Inl e \<Rightarrow> admin_err_response e
         | Inr agent \<Rightarrow>
             (case list_for_agent (ar_id agent) d of
                Inl e \<Rightarrow>
                  admin_err_response (AeBackend (''agent_credential_overrides.list: '' @ repo_message (an_lib_text (av_admin E)) e))
              | Inr rows \<Rightarrow>
                  json_response 200 (JObj [(''agent_public_id'', JStr (ar_public_id agent)),
                    (''overrides'', JArr (map override_json rows))])))), us, d)"

section \<open>Dispatch\<close>

definition op_registry :: "api_env \<Rightarrow> kind \<Rightarrow> registry_request \<Rightarrow> api_op" where
  "op_registry E k q us d =
    (case registry_handle (av_registry E) k q (us_registry us) d of (resp, rs, d') \<Rightarrow> (resp, us\<lparr>us_registry := rs\<rparr>, d'))"

definition op_oauth :: "api_env \<Rightarrow> oauth_request \<Rightarrow> oauth_admin_state \<Rightarrow> api_op" where
  "op_oauth E q st us d =
    (case oauth_handle (av_oauth E) (case rs_catalog (us_registry us) of Some c \<Rightarrow> c | None \<Rightarrow> []) q st d of
       (resp, st', d') \<Rightarrow> (resp, us\<lparr>us_oauth := Some st'\<rparr>, d'))"

text \<open>A route whose sub-router is not mounted is answered by the framework.\<close>

definition route_absent :: http_response where
  "route_absent = \<lparr>hr_status = 404, hr_headers = [], hr_body = RBytes []\<rparr>"

fun mounted :: "uds_state \<Rightarrow> operator_request \<Rightarrow> bool" where
  "mounted us (OqRegistry k q) = us_registrations us"
| "mounted us (OqOauth q) = (us_oauth us \<noteq> None)"
| "mounted us _ = True"

fun operator_handle :: "api_env \<Rightarrow> operator_request \<Rightarrow> operator_identity \<Rightarrow> api_op" where
  "operator_handle E (OqListAgents revoked_too) oper us d =
    read_admin (list_agents (av_admin E) revoked_too d)
      (\<lambda>l. json_response 200 (JObj [(''agents'', JArr (map agent_record_json l))])) us d"
| "operator_handle E (OqCreateAgent input) oper us d =
    with_admin (create_agent_as_operator (av_admin E) oper input) (\<lambda>o1. json_response 200 (register_output_json o1)) us d"
| "operator_handle E (OqGetAgent key) oper us d =
    read_admin (get_agent (av_admin E) key d) (\<lambda>a. json_response 200 (agent_record_json a)) us d"
| "operator_handle E (OqModifyAgent pid input) oper us d =
    with_admin (modify_agent (av_admin E) oper pid input) (\<lambda>_. no_content) us d"
| "operator_handle E (OqRevokeAgent pid) oper us d = with_admin (revoke_agent (av_admin E) oper pid) (\<lambda>_. no_content) us d"
| "operator_handle E (OqSetCertIdentity pid cert) oper us d =
    with_admin (set_agent_cert_identity (av_admin E) oper pid cert) (\<lambda>_. no_content) us d"
| "operator_handle E (OqListCredentials key) oper us d = op_list_agent_credentials E key us d"
| "operator_handle E (OqSetCredential key reg spec) oper us d = op_set_agent_credential E key reg spec us d"
| "operator_handle E (OqUnsetCredential key reg) oper us d = op_unset_agent_credential E key reg us d"
| "operator_handle E (OqSetStoredCredential key reg v h) oper us d = op_set_agent_stored_credential E key reg v h us d"
| "operator_handle E OqListBootstrap oper us d =
    read_admin (list_bootstrap_tokens (av_admin E) d)
      (\<lambda>l. json_response 200 (JObj [(''tokens'', JArr (map bootstrap_record_json l))])) us d"
| "operator_handle E (OqMintBootstrap input) oper us d =
    with_admin (mint_bootstrap_token (av_admin E) oper input) (\<lambda>o1. json_response 200 (mint_output_json o1)) us d"
| "operator_handle E (OqRevokeBootstrap pid) oper us d =
    with_admin (revoke_bootstrap_token (av_admin E) oper pid) (\<lambda>_. no_content) us d"
| "operator_handle E OqListTools oper us d =
    (json_response 200 (JObj [(''tools'', JArr (map tool_info_json (list_tools_for_operator (service_view us))))]), us, d)"
| "operator_handle E (OqAudit q) oper us d = op_query_audit E q us d"
| "operator_handle E (OqLogs q) oper us d = op_query_logs E q us d"
| "operator_handle E (OqRegistry k q) oper us d = op_registry E k q us d"
| "operator_handle E (OqOauth q) oper us d =
    (case us_oauth us of None \<Rightarrow> (route_absent, us, d) | Some st \<Rightarrow> op_oauth E q st us d)"

definition admin_dispatch :: "api_env \<Rightarrow> caller \<Rightarrow> admin_request \<Rightarrow> api_op" where
  "admin_dispatch E c req us d =
    (case req of
       Register input \<Rightarrow> handle_register E input us d
     | AgentCall q \<Rightarrow> agent_auth_middleware E c (agent_handle E q) us d
     | OperatorCall q \<Rightarrow>
         if \<not> mounted us q then (route_absent, us, d) else operator_auth_middleware E c (operator_handle E q) us d)"

section \<open>Operator routes need an operator\<close>

definition audit_frame :: "db \<Rightarrow> db \<Rightarrow> bool" where
  "audit_frame d d' \<longleftrightarrow> (\<exists>rows n. d' = d\<lparr>audit := audit d @ rows, next_audit_id := n\<rparr>)"

lemma audit_frame_refl [simp]: "audit_frame d d"
  unfolding audit_frame_def by (intro exI [of _ "[]"] exI [of _ "next_audit_id d"]) simp

lemma audit_frame_note [simp]: "audit_frame d (note_event b e d)"
proof (cases "b \<and> \<not> db_down d")
  case True
  then show ?thesis by (auto simp: audit_frame_def note_event_def audit_record_def)
next
  case False
  then have "note_event b e d = d" by (auto simp: note_event_def audit_record_def)
  then show ?thesis by simp
qed

definition bearer_operator :: "caller \<Rightarrow> uds_state \<Rightarrow> operator_identity \<Rightarrow> bool" where
  "bearer_operator c us oper \<longleftrightarrow>
    (\<exists>raw pid secret r. ac_authorization c = Some (''Bearer '' @ raw)
      \<and> parse (oa_decodes (us_operator_auth us)) raw = Inr (NsOperator, pid, secret)
      \<and> r \<in> set (oa_records (us_operator_auth us)) \<and> or_public_id r = pid
      \<and> argon2_verify (oa_argon2 (us_operator_auth us)) (or_token_hash r) secret = Inr True \<and> oi_name oper = or_name r)"

definition cert_operator :: "api_env \<Rightarrow> mtls_validator \<Rightarrow> caller \<Rightarrow> uds_state \<Rightarrow> operator_identity \<Rightarrow> bool" where
  "cert_operator E V c us oper \<longleftrightarrow>
    (\<exists>der i r. ac_peer_cert c = Some der \<and> mtls_validate (av_x509 E) (cl_secs (av_clock E)) V der = Inr i
      \<and> r \<in> set (oa_records (us_operator_auth us)) \<and> or_cert_identity r = Some (mi_value i) \<and> oi_name oper = or_name r)"

definition operator_proof :: "api_env \<Rightarrow> caller \<Rightarrow> uds_state \<Rightarrow> operator_identity \<Rightarrow> bool" where
  "operator_proof E c us oper =
    (case us_operator_mtls us of
       None \<Rightarrow> bearer_operator c us oper
     | Some (ModeBearer, V) \<Rightarrow> bearer_operator c us oper
     | Some (ModeMtls, V) \<Rightarrow> cert_operator E V c us oper
     | Some (ModeBoth, V) \<Rightarrow> if ac_peer_cert c = None then bearer_operator c us oper else cert_operator E V c us oper)"

lemma auth_status_error: "400 \<le> auth_status e"
  by (cases e) simp_all

lemma operator_bearer_sound:
  "operator_bearer E c us d = (r, d') \<Longrightarrow>
    audit_frame d d' \<and> (\<forall>oper. r = Inr oper \<longrightarrow> bearer_operator c us oper \<and> d' = d)"
  unfolding operator_bearer_def operator_authenticate_bearer_def operator_audit_failure_def bearer_operator_def
  by (auto split: option.splits sum.splits if_splits bool.splits dest!: find_SomeD simp: strip_prefix_eq_Some_iff)

lemma operator_cert_sound:
  "operator_cert E V der us d = (r, d') \<Longrightarrow> ac_peer_cert c = Some der \<Longrightarrow>
    audit_frame d d' \<and> (\<forall>oper. r = Inr oper \<longrightarrow> cert_operator E V c us oper \<and> d' = d)"
  unfolding operator_cert_def authenticate_cert_identity_def cert_operator_def
  by (auto split: option.splits sum.splits dest!: find_SomeD)

lemma operator_identify_sound:
  assumes "operator_identify E c us d = (r, d')"
  shows "audit_frame d d' \<and> (\<forall>oper. r = Inr oper \<longrightarrow> operator_proof E c us oper \<and> d' = d)"
proof (cases "us_operator_mtls us")
  case None
  with assms show ?thesis by (simp add: operator_identify_def operator_proof_def operator_bearer_sound)
next
  case (Some p)
  obtain mode V where p: "p = (mode, V)" by (cases p)
  show ?thesis
  proof (cases mode; cases "ac_peer_cert c")
  qed (use assms Some p in \<open>auto simp: operator_identify_def operator_proof_def dest: operator_bearer_sound operator_cert_sound\<close>)
qed

text \<open>C13. Operator routes need an operator: when the caller of an operator route presents neither the bearer
  token of a configured operator (in the operator namespace, with a secret that verifies) nor, on a listener
  with client certificates, a valid certificate mapped to a configured operator, the call changes nothing but
  audit rows and is answered with an error.  On a listener in certificate mode the bearer token does not help.\<close>

theorem operator_access_required:
  assumes "admin_dispatch E c (OperatorCall q) us d = (resp, us', d')" and "\<not> (\<exists>oper. operator_proof E c us oper)"
  shows "us' = us \<and> audit_frame d d' \<and> 400 \<le> hr_status resp"
proof (cases "mounted us q")
  case False
  with assms(1) show ?thesis by (auto simp: admin_dispatch_def route_absent_def)
next
  case True
  obtain r d1 where r: "operator_identify E c us d = (r, d1)" by (metis surj_pair)
  from operator_identify_sound [OF r] assms(2) obtain e where e: "r = Inl e" and f: "audit_frame d d1" by (cases r) auto
  with assms(1) True r show ?thesis
    by (auto simp: admin_dispatch_def operator_auth_middleware_def error_response_def json_response_def auth_status_error)
qed

section \<open>Self-service stays with the agent\<close>

definition self_core :: "db \<Rightarrow> db" where
  "self_core d = d\<lparr>agents := [], audit := [], next_audit_id := 0\<rparr>"

definition others :: "string \<Rightarrow> db \<Rightarrow> (string \<times> agent_row option) list" where
  "others pid d = map (\<lambda>a. (ag_public_id a, if ag_public_id a = pid then None else Some a)) (agents d)"

definition confined :: "string \<Rightarrow> db \<Rightarrow> db \<Rightarrow> bool" where
  "confined pid d d' \<longleftrightarrow> self_core d' = self_core d \<and> others pid d' = others pid d"

lemma confined_refl [simp]: "confined pid d d"
  by (simp add: confined_def)

lemma confined_trans: "confined pid d d1 \<Longrightarrow> confined pid d1 d2 \<Longrightarrow> confined pid d d2"
  by (simp add: confined_def)

lemma confined_note [simp]: "confined pid d (note_event b e d') = confined pid d d'"
  by (simp add: confined_def self_core_def others_def note_event_def audit_record_def)

lemma confined_update:
  assumes "\<And>a. P a \<Longrightarrow> ag_public_id a = pid" and "\<And>a. ag_public_id (f a) = ag_public_id a"
  shows "confined pid d (d\<lparr>agents := update_where P f (agents d)\<rparr>)"
  using assms by (auto simp: confined_def self_core_def others_def update_where_def)

lemma confined_touch: "confined pid d (snd (touch_last_used now pid d))"
  by (simp add: touch_last_used_def confined_update)

lemma confined_revoke: "confined pid d (snd (agent_revoke now pid d))"
  by (simp add: agent_revoke_def update_agent_def confined_update)

lemma confined_rotate: "confined pid d (snd (agent_rotate C R pid cur d))"
  by (auto simp: agent_rotate_def rotate_commit_def Let_def intro!: confined_update split: sum.split)

lemma get_active_public_id: "get_active_by_public_id pid d = Inr (Some r) \<Longrightarrow> ar_public_id r = pid"
  by (auto simp: get_active_by_public_id_def fetch_agent_def into_record_def split: if_splits option.splits sum.splits dest!: find_SomeD)

definition bearer_agent :: "caller \<Rightarrow> uds_state \<Rightarrow> db \<Rightarrow> string \<Rightarrow> bool" where
  "bearer_agent c us d pid \<longleftrightarrow>
    (\<exists>raw secret a. ac_authorization c = Some (''Bearer '' @ raw)
      \<and> parse (ba_decodes (us_agent_auth us)) raw = Inr (NsAgent, pid, secret) \<and> get_active_by_public_id pid d = Inr (Some a)
      \<and> argon2_verify (ba_argon2 (us_agent_auth us)) (ar_secret_hash a) secret = Inr True)"

lemma authenticate_bearer_frame:
  "authenticate_bearer B t h d = (Inl e, d') \<Longrightarrow> audit_frame d d'"
  unfolding authenticate_bearer_def bearer_resolve_def audit_failure_def
  by (auto split: option.splits sum.splits if_splits bool.splits)

lemma authenticate_bearer_own:
  assumes "authenticate_bearer (us_agent_auth us) t h d = (Inr i, d')" and "ac_authorization c = Some h"
  shows "bearer_agent c us d (ai_public_id i) \<and> confined (ai_public_id i) d d'"
proof -
  from assms(1) obtain pid secret where h: "h = ''Bearer '' @ wire_format \<lparr>st_namespace = NsAgent, st_public_id = pid, st_secret = secret\<rparr>"
    "parse (ba_decodes (us_agent_auth us)) (wire_format \<lparr>st_namespace = NsAgent, st_public_id = pid, st_secret = secret\<rparr>)
      = Inr (NsAgent, pid, secret)" "bearer_resolve (us_agent_auth us) t pid secret d = (Inr i, d')"
    by (rule authenticate_bearer_InrD)
  from h(3) obtain a where a: "get_active_by_public_id pid d = Inr (Some a)" "i = identity_of a"
    "argon2_verify (ba_argon2 (us_agent_auth us)) (ar_secret_hash a) secret = Inr True"
    "d' = snd (touch_last_used (cl_secs t) (ar_public_id a) d)"
    by (rule bearer_resolve_InrD)
  from a(1,2) have "ai_public_id i = pid" "ar_public_id a = pid" by (simp_all add: get_active_public_id identity_of_def)
  with h(1,2) a assms(2) show ?thesis by (auto simp: bearer_agent_def confined_touch)
qed

lemma with_admin_parts:
  "with_admin f render us d = (resp, us', d') \<Longrightarrow>
     d' = snd (snd (f (service_view us) d)) \<and> us' = us\<lparr>us_registry := us_registry us'\<rparr>
     \<and> us_registry us' = (us_registry us)\<lparr>rs_operational_log := sv_operational_log (fst (snd (f (service_view us) d)))\<rparr>"
  by (auto simp: with_admin_def split: prod.splits)

lemma agent_handle_confined:
  assumes "agent_handle E q i us d = (resp, us', d')"
  shows "us' = us \<and> confined (ai_public_id i) d d'"
proof (cases q)
  case (AqRotate cur)
  with assms have "with_admin (rotate_agent (av_admin E) i cur)
      (\<lambda>o1. json_response 200 (JObj [(''public_id'', JStr (rt_public_id o1)), (''token'', JStr (rt_token o1))])) us d = (resp, us', d')" by simp
  from with_admin_parts [OF this] show ?thesis
    using confined_rotate [of "ai_public_id i" d "an_crypto (av_admin E)" "an_rng (av_admin E)" cur]
    by (auto simp: rotate_agent_def admin_audit_def service_view_def split: prod.splits)
next
  case AqDeregister
  with assms have "with_admin (deregister_agent (av_admin E) i) (\<lambda>_. no_content) us d = (resp, us', d')" by simp
  from with_admin_parts [OF this] show ?thesis
    using confined_revoke [of "ai_public_id i" d "an_revoke_at (av_admin E)"]
    by (auto simp: deregister_agent_def admin_audit_def service_view_def split: prod.splits)
qed (use assms in \<open>auto simp: read_admin_def\<close>)

text \<open>C14. Self-service stays with the agent: a call on an agent route either fails without touching anything but
  audit rows, or carries the bearer token of an agent that is active and whose secret verifies, and then leaves
  every other agent, and every table but the agents and the audit log, exactly as it was.\<close>

theorem agent_call_confined:
  assumes "admin_dispatch E c (AgentCall q) us d = (resp, us', d')"
  shows "us' = us \<and> (audit_frame d d' \<and> 400 \<le> hr_status resp \<or> (\<exists>pid. bearer_agent c us d pid \<and> confined pid d d'))"
proof (cases "ac_authorization c")
  case None
  with assms show ?thesis
    by (auto simp: admin_dispatch_def agent_auth_middleware_def error_response_def json_response_def)
next
  case (Some h)
  obtain r d1 where r: "authenticate_bearer (us_agent_auth us) (av_clock E) h d = (r, d1)" by (metis surj_pair)
  show ?thesis
  proof (cases r)
    case (Inl e)
    with assms Some r authenticate_bearer_frame [of "us_agent_auth us" "av_clock E" h d e d1] show ?thesis
      by (auto simp: admin_dispatch_def agent_auth_middleware_def error_response_def json_response_def auth_status_error)
  next
    case (Inr i)
    with assms Some r have "agent_handle E q i us d1 = (resp, us', d')"
      by (simp add: admin_dispatch_def agent_auth_middleware_def)
    from agent_handle_confined [OF this] authenticate_bearer_own [OF r [unfolded Inr] Some] show ?thesis
      by (blast intro: confined_trans)
  qed
qed

section \<open>What operators do is recorded, in part\<close>

fun service_write :: "operator_request \<Rightarrow> bool" where
  "service_write (OqCreateAgent _) = True"
| "service_write (OqModifyAgent _ _) = True"
| "service_write (OqRevokeAgent _) = True"
| "service_write (OqSetCertIdentity _ _) = True"
| "service_write (OqMintBootstrap _) = True"
| "service_write (OqRevokeBootstrap _) = True"
| "service_write _ = False"

definition log_view :: "db \<Rightarrow> audit_row list \<times> bool" where
  "log_view d = (audit d, db_down d)"

lemma log_view_writes [simp]:
  "log_view (snd (create_inner C R now name de al dn me ex chk d)) = log_view d"
  "log_view (snd (update_agent P f e d)) = log_view d"
  "log_view (snd (update_policy_inner pid al' dn' me' ex' chk d)) = log_view d"
  "log_view (snd (mint_inner C R now scope who chk d)) = log_view d"
  "log_view (snd (bootstrap_revoke now pid d)) = log_view d"
  by (auto simp: log_view_def create_inner_def update_agent_def update_policy_inner_def mint_inner_def bootstrap_revoke_def Let_def
      split: sum.split)

lemma log_view_quiet [simp]:
  "log_view (snd (creds_set now aid reg spec d)) = log_view d" "log_view (snd (creds_delete aid reg d)) = log_view d"
  "log_view (snd (secret_insert bs now s n d)) = log_view d" "log_view (tombstone_old G r d) = log_view d"
  "log_view (snd (registration_upsert r' d)) = log_view d" "log_view (snd (registration_delete nm d)) = log_view d"
  "log_view (snd (registration_set_disabled now nm b d)) = log_view d"
  by (auto simp: log_view_def creds_set_def creds_delete_def secret_insert_def tombstone_old_def tombstone_if_unreferenced_def
      tombstone_where_def registry_ops invalidate_authority_def Let_def split: option.split)

lemma registry_handle_log: "registry_handle G k q rs d = (resp, rs', d') \<Longrightarrow> log_view d' = log_view d"
proof -
  have up: "log_view d2 = log_view d1" if "registration_upsert r d1 = (x, d2)" for r d1 x d2
    using that by (metis log_view_quiet(5) snd_conv)
  have de: "log_view d2 = log_view d1" if "registration_delete n d1 = (x, d2)" for n d1 x d2
    using that by (metis log_view_quiet(6) snd_conv)
  have di: "log_view d2 = log_view d1" if "registration_set_disabled now n b d1 = (x, d2)" for now n b d1 x d2
    using that by (metis log_view_quiet(7) snd_conv)
  have si: "log_view d2 = log_view d1" if "secret_insert bs now s n d1 = (x, d2)" for bs now s n d1 x d2
    using that by (metis log_view_quiet(3) snd_conv)
  assume "registry_handle G k q rs d = (resp, rs', d')"
  then show ?thesis
    by (cases q)
       (auto simp: op_list_def op_get_registration_def op_put_def op_delete_def op_enable_def op_put_credential_def
          op_delete_credential_def Let_def split: sum.splits option.splits prod.splits if_splits dest!: activate_db up de di si)
qed

lemma oauth_handle_log: "log_view (snd (snd (oauth_handle E c q st d))) = log_view d"
proof (cases q)
  case (OaBootstrap name l rt)
  with bootstrap_sessions [of E c name l rt st d] show ?thesis by (auto simp: log_view_def)
qed (simp_all add: op_oauth_list_def op_oauth_status_def op_oauth_revoke_def oauth_delete_def log_view_def Let_def)

definition operator_row :: "operator_identity \<Rightarrow> audit_row \<Rightarrow> bool" where
  "operator_row oper row \<longleftrightarrow> au_operator_name row = Some (oi_name oper) \<and> au_event_class row \<in> {''operator'', ''security''}"

lemma operator_recorded:
  assumes "log_view d' = log_view d" and "\<not> db_down d" and "sv_audit sv" and "ae_operator_name e = None" and "ae_event_class e \<noteq> EcProxy"
  shows "\<exists>row. audit (audit_for_operator sv oper e d') = audit d @ [row] \<and> operator_row oper row"
  using assms
  by (cases "ae_event_class e")
     (auto simp: audit_for_operator_def admin_audit_def note_event_def audit_record_def log_view_def event_to_row_def operator_row_def Let_def)

lemma service_recorded:
  assumes "\<not> db_down d" and "sv_audit sv"
  shows "\<exists>row. audit (snd (snd (create_agent_as_operator E oper ci sv d))) = audit d @ [row] \<and> operator_row oper row"
    "\<exists>row. audit (snd (snd (modify_agent E oper pid mi sv d))) = audit d @ [row] \<and> operator_row oper row"
    "\<exists>row. audit (snd (snd (revoke_agent E oper pid sv d))) = audit d @ [row] \<and> operator_row oper row"
    "\<exists>row. audit (snd (snd (set_agent_cert_identity E oper pid cert sv d))) = audit d @ [row] \<and> operator_row oper row"
    "\<exists>row. audit (snd (snd (mint_bootstrap_token E oper bi sv d))) = audit d @ [row] \<and> operator_row oper row"
    "\<exists>row. audit (snd (snd (revoke_bootstrap_token E oper pid sv d))) = audit d @ [row] \<and> operator_row oper row"
proof -
  note rec = operator_recorded [OF _ assms]
  have pair: "log_view d2 = log_view d" if "f = (r, d2)" "log_view (snd f) = log_view d" for f and r :: 'x and d2 using that by simp
  show "\<exists>row. audit (snd (snd (create_agent_as_operator E oper ci sv d))) = audit d @ [row] \<and> operator_row oper row"
    by (auto simp: create_agent_as_operator_def create_reviewed_def Let_def default_event_def split: prod.split sum.split
        intro!: rec dest!: pair)
  show "\<exists>row. audit (snd (snd (modify_agent E oper pid mi sv d))) = audit d @ [row] \<and> operator_row oper row"
    by (auto simp: modify_agent_def update_policy_reviewed_def default_event_def split: prod.split intro!: rec dest!: pair)
  show "\<exists>row. audit (snd (snd (revoke_agent E oper pid sv d))) = audit d @ [row] \<and> operator_row oper row"
    by (auto simp: revoke_agent_def agent_revoke_def default_event_def split: prod.split intro!: rec dest!: pair)
  show "\<exists>row. audit (snd (snd (set_agent_cert_identity E oper pid cert sv d))) = audit d @ [row] \<and> operator_row oper row"
    by (auto simp: set_agent_cert_identity_def set_cert_identity_def default_event_def split: prod.split intro!: rec dest!: pair)
  show "\<exists>row. audit (snd (snd (mint_bootstrap_token E oper bi sv d))) = audit d @ [row] \<and> operator_row oper row"
    by (auto simp: mint_bootstrap_token_def mint_reviewed_def Let_def default_event_def split: prod.split sum.split intro!: rec dest!: pair)
  show "\<exists>row. audit (snd (snd (revoke_bootstrap_token E oper pid sv d))) = audit d @ [row] \<and> operator_row oper row"
    by (auto simp: revoke_bootstrap_token_def default_event_def split: prod.split intro!: rec dest!: pair)
qed

lemma operator_handle_service:
  assumes "operator_handle E q oper us d = (resp, us', d')" and "service_write q" and "sv_audit (us_admin us)" and "\<not> db_down d"
  shows "\<exists>row. audit d' = audit d @ [row] \<and> operator_row oper row"
proof -
  have a: "sv_audit (service_view us)" using assms(3) by (simp add: service_view_def)
  note rec = service_recorded [OF assms(4) a]
  show ?thesis using assms(1,2) by (cases q) (auto dest!: with_admin_parts intro!: rec)
qed

lemma binding_handle_log:
  "op_set_agent_credential E key reg spec us d = (resp, us', d') \<Longrightarrow> log_view d' = log_view d"
  "op_unset_agent_credential E key reg us d = (resp, us', d') \<Longrightarrow> log_view d' = log_view d"
  "op_set_agent_stored_credential E key reg v h us d = (resp, us', d') \<Longrightarrow> log_view d' = log_view d"
proof -
  have cs: "log_view d2 = log_view d1" if "creds_set now aid r s d1 = (x, d2)" for now aid r s d1 x d2
    using that by (metis log_view_quiet(1) snd_conv)
  have cd: "log_view d2 = log_view d1" if "creds_delete aid r d1 = (x, d2)" for aid r d1 x d2
    using that by (metis log_view_quiet(2) snd_conv)
  have si: "log_view d2 = log_view d1" if "secret_insert bs now s n d1 = (x, d2)" for bs now s n d1 x d2
    using that by (metis log_view_quiet(3) snd_conv)
  show "op_set_agent_credential E key reg spec us d = (resp, us', d') \<Longrightarrow> log_view d' = log_view d"
    by (auto simp: op_set_agent_credential_def split: sum.splits if_splits prod.splits dest!: cs)
  show "op_unset_agent_credential E key reg us d = (resp, us', d') \<Longrightarrow> log_view d' = log_view d"
    by (auto simp: op_unset_agent_credential_def Let_def split: sum.splits if_splits prod.splits dest!: cd)
  show "op_set_agent_stored_credential E key reg v h us d = (resp, us', d') \<Longrightarrow> log_view d' = log_view d"
    by (auto simp: op_set_agent_stored_credential_def Let_def split: sum.splits option.splits if_splits prod.splits dest!: cs si)
qed

lemma query_unchanged:
  "op_query_audit E q us d = (resp, us', d') \<Longrightarrow> d' = d" "op_query_logs E q' us d = (resp, us', d') \<Longrightarrow> d' = d"
  by (auto simp: op_query_audit_def op_query_logs_def read_admin_def split: sum.splits prod.splits if_splits)

lemma operator_handle_quiet:
  assumes "operator_handle E q oper us d = (resp, us', d')" and "\<not> service_write q"
  shows "log_view d' = log_view d"
proof (cases q)
  case (OqRegistry k r)
  with assms(1) show ?thesis by (auto simp: op_registry_def split: prod.splits dest: registry_handle_log)
next
  case (OqOauth r)
  with assms(1) show ?thesis
    using oauth_handle_log [of "av_oauth E" "case rs_catalog (us_registry us) of Some c \<Rightarrow> c | None \<Rightarrow> []" r "the (us_oauth us)" d]
    by (auto simp: op_oauth_def split: prod.splits option.splits)
qed (use assms in \<open>auto simp: read_admin_def op_list_agent_credentials_def dest: query_unchanged binding_handle_log\<close>)

text \<open>Which operator actions leave an audit row: with auditing on and the database up, every call that creates,
  changes or revokes an agent or a bootstrap token adds exactly one row with the name of the operator, whether it
  succeeds or fails; every other call of an operator, also one that writes a registration, a stored credential,
  an account binding or an OAuth session, adds none.\<close>

theorem operator_calls_audited:
  assumes "operator_handle E q oper us d = (resp, us', d')" and "sv_audit (us_admin us)" and "\<not> db_down d"
  shows "if service_write q then \<exists>row. audit d' = audit d @ [row] \<and> operator_row oper row else audit d' = audit d"
  using operator_handle_service [OF assms(1) _ assms(2,3)] operator_handle_quiet [OF assms(1)] by (simp add: log_view_def)

section \<open>The routes keep the database well formed\<close>

lemma audit_frame_db_ok: "audit_frame d d' \<Longrightarrow> db_ok d \<Longrightarrow> db_ok d'"
  by (auto simp: audit_frame_def db_ok_def)

lemma authenticate_bearer_db_ok:
  assumes "authenticate_bearer B t h d = (r, d')" and "db_ok d"
  shows "db_ok d'"
proof (cases r)
  case (Inl e)
  with assms show ?thesis by (auto intro: audit_frame_db_ok dest: authenticate_bearer_frame)
next
  case (Inr i)
  with assms(1) obtain pid secret where "bearer_resolve B t pid secret d = (Inr i, d')" by (auto elim: authenticate_bearer_InrD)
  then obtain a :: agent_record where "d' = snd (touch_last_used (cl_secs t) (ar_public_id a) d)"
    by (rule bearer_resolve_InrD)
  then show ?thesis
    using agent_step_db_ok [of "\<lambda>_. True", OF agent_step.ag_touch assms(2)] by simp
qed

lemma binding_handle_db_ok:
  assumes "db_ok d"
  shows "op_set_agent_credential E key reg spec us d = (resp, us', d') \<Longrightarrow> db_ok d'"
    and "op_unset_agent_credential E key reg us d = (resp, us', d') \<Longrightarrow> db_ok d'"
    and "op_set_agent_stored_credential E key reg v h us d = (resp, us', d') \<Longrightarrow> db_ok d'"
proof -
  have cs: "db_ok d1 \<longrightarrow> db_ok d2" if "creds_set now aid r s d1 = (x, d2)" for now aid r s d1 x d2
    using binding_step_db_ok [OF binding_step.bd_set, of d1 now aid r s] that by simp
  have cd: "db_ok d1 \<longrightarrow> db_ok d2" if "creds_delete aid r d1 = (x, d2)" for aid r d1 x d2
    using binding_step_db_ok [OF binding_step.bd_delete, of d1 aid r] that by simp
  have si: "db_ok d1 \<longrightarrow> db_ok d2" if "secret_insert bs now s n d1 = (x, d2)" for bs now s n d1 x d2
    using that by (blast intro: secret_insert_db_ok)
  show "op_set_agent_credential E key reg spec us d = (resp, us', d') \<Longrightarrow> db_ok d'"
    using assms by (auto simp: op_set_agent_credential_def split: sum.splits if_splits prod.splits dest!: cs)
  show "op_unset_agent_credential E key reg us d = (resp, us', d') \<Longrightarrow> db_ok d'"
    using assms by (auto simp: op_unset_agent_credential_def Let_def split: sum.splits if_splits prod.splits dest!: cd
        intro: tombstone_old_db_ok)
  show "op_set_agent_stored_credential E key reg v h us d = (resp, us', d') \<Longrightarrow> db_ok d'"
    using assms by (auto simp: op_set_agent_stored_credential_def Let_def split: sum.splits option.splits if_splits prod.splits
        dest!: cs si intro: tombstone_old_db_ok)
qed

lemma operator_handle_db_ok:
  assumes "operator_handle E q oper us d = (resp, us', d')" and "db_ok d"
  shows "db_ok d'"
proof (cases q)
  case (OqRegistry k r)
  with assms show ?thesis by (auto simp: op_registry_def split: prod.splits dest: registry_handle_db_ok)
next
  case (OqOauth r)
  with assms(1) show ?thesis
    using oauth_handle_db_ok [OF assms(2), of "av_oauth E" "case rs_catalog (us_registry us) of Some c \<Rightarrow> c | None \<Rightarrow> []" r "the (us_oauth us)"]
      assms(2)
    by (auto simp: op_oauth_def split: prod.splits option.splits)
qed (use assms in \<open>auto simp: read_admin_def op_list_agent_credentials_def admin_service_db_ok
  dest!: with_admin_parts dest: query_unchanged binding_handle_db_ok [OF assms(2)]\<close>)

lemma agent_handle_db_ok:
  assumes "agent_handle E q i us d = (resp, us', d')" and "db_ok d"
  shows "db_ok d'"
  using assms by (cases q) (auto simp: read_admin_def admin_service_db_ok dest!: with_admin_parts)

lemma admin_dispatch_db_ok:
  assumes "admin_dispatch E c req us d = (resp, us', d')" and "db_ok d"
  shows "db_ok d'"
proof (cases req)
  case (Register input)
  with assms show ?thesis
    by (auto simp: admin_dispatch_def handle_register_def admin_service_db_ok dest!: with_admin_parts)
next
  case (AgentCall q)
  with assms show ?thesis
    by (auto simp: admin_dispatch_def agent_auth_middleware_def split: option.splits prod.splits sum.splits
        dest: authenticate_bearer_db_ok agent_handle_db_ok)
next
  case (OperatorCall q)
  obtain r d1 where r: "operator_identify E c us d = (r, d1)" by (metis surj_pair)
  from operator_identify_sound [OF r] assms(2) have "db_ok d1" by (auto intro: audit_frame_db_ok)
  with assms OperatorCall r show ?thesis
    by (auto simp: admin_dispatch_def operator_auth_middleware_def split: sum.splits if_splits dest: operator_handle_db_ok)
qed

section \<open>A stored credential for one agent\<close>

lemma bound_ref_referenced:
  assumes "creds_get aid reg d = Inr (Some co)" and "stored_secret_ref (co_auth_spec co) = Some r"
  shows "r \<in> set (referenced_refs d)"
proof -
  from assms(1) obtain row where row: "find (binding_key_is aid reg) (overrides d) = Some row" "row_to_override row = Inr co"
    by (auto simp: creds_get_def split: if_splits option.splits)
  then have "row \<in> set (overrides d)" by (auto dest: find_SomeD)
  moreover have "ov_auth_spec row = JVal (co_auth_spec co)" using row(2) by (auto simp: row_to_override_def split: jcol.splits)
  ultimately show ?thesis using assms(2) by (auto simp: referenced_refs_def set_map_filter_option intro!: bexI [of _ row])
qed

lemma admin_error_not_ok [simp]: "hr_status (admin_err_response e) \<noteq> 200"
  by (cases e) (simp_all add: admin_err_response_def json_response_def)

lemma set_stored_steps:
  assumes "op_set_agent_stored_credential E key reg v h us d = (resp, us', d')" and "hr_status resp = 200"
  obtains sk agent sealed nonce r d1 d2 where "rs_credential_sealing_key (us_registry us) = Some sk"
    "get_agent (av_admin E) key d = Inr agent"
    "credential_seal (ge_seal (av_registry E)) sk (ge_nonce (av_registry E)) v = Inr (sealed, nonce)"
    "secret_insert (ge_ref_bytes (av_registry E)) (ge_insert_at (av_registry E)) sealed nonce d = (Inr r, d1)"
    "creds_set (av_set_at E) (ar_id agent) reg (stored_auth (stored_header_name h (prior_binding (ar_id agent) reg d)
       (rs_catalog (us_registry us)) reg) r) d1 = (Inr (), d2)"
    "d' = tombstone_old (av_registry E) (Option.bind (prior_binding (ar_id agent) reg d) stored_secret_ref) d2"
    "hr_body resp = RJson (JObj [(''agent_public_id'', JStr (ar_public_id agent)), (''registration'', JStr reg), (''secret_ref'', JStr r)])"
proof -
  let ?G = "av_registry E"
  have no: "hr_status not_wired \<noteq> 200" "hr_status credential_store_unconfigured \<noteq> 200"
    by (simp_all add: not_wired_def credential_store_unconfigured_def json_response_def)
  note u = assms(1) [unfolded op_set_agent_stored_credential_def Let_def]
  obtain sk where sk: "rs_credential_sealing_key (us_registry us) = Some sk"
    using u assms(2) no by (cases "rs_credential_sealing_key (us_registry us)") auto
  have w: "rs_credential_secrets (us_registry us)" "rs_agent_creds (us_registry us)" using u sk assms(2) no by (auto split: if_splits)
  obtain agent where ag: "get_agent (av_admin E) key d = Inr agent"
    using u sk w assms(2) by (cases "get_agent (av_admin E) key d") auto
  obtain sealed nonce where se: "credential_seal (ge_seal ?G) sk (ge_nonce ?G) v = Inr (sealed, nonce)"
    using u sk w ag assms(2) by (cases "credential_seal (ge_seal ?G) sk (ge_nonce ?G) v") auto
  obtain x d1 where x: "secret_insert (ge_ref_bytes ?G) (ge_insert_at ?G) sealed nonce d = (x, d1)" by (metis surj_pair)
  obtain r where r: "x = Inr r" using u sk w ag se x assms(2) by (cases x) auto
  let ?spec = "stored_auth (stored_header_name h (prior_binding (ar_id agent) reg d) (rs_catalog (us_registry us)) reg) r"
  obtain y d2 where y: "creds_set (av_set_at E) (ar_id agent) reg ?spec d1 = (y, d2)" by (metis surj_pair)
  obtain z where z: "y = Inr z" using u sk w ag se x r y assms(2) by (cases y) auto
  from u sk w ag se x r y z show thesis by (intro that) (auto simp: json_response_def)
qed

text \<open>C23. Setting a stored credential for one agent round-trips and stays with that agent: after the call
  succeeds, the reply carries the new reference but not the value, the agent's binding for that registration
  uses the reference, reading it for the proxy gives back exactly the value, and no other binding, registration
  or agent changed.\<close>

theorem stored_binding_round_trip:
  assumes "seal_contract (ge_seal (av_registry E))" and "\<forall>n. ge_nonce (av_registry E) = Some n \<longrightarrow> length n = NONCE_LEN"
    and "utf8_valid v" and "v \<noteq> []"
    and "operator_handle E (OqSetStoredCredential key reg v h) oper us d = (resp, us', d')" and "hr_status resp = 200"
    and "pe_seal P = ge_seal (av_registry E)" and "st_credential_sealing_key st = rs_credential_sealing_key (us_registry us)"
    and "st_credential_secrets st"
  shows "\<exists>agent r co. get_agent (av_admin E) key d = Inr agent
    \<and> hr_body resp = RJson (JObj [(''agent_public_id'', JStr (ar_public_id agent)), (''registration'', JStr reg), (''secret_ref'', JStr r)])
    \<and> creds_get (ar_id agent) reg d' = Inr (Some co) \<and> stored_secret_ref (co_auth_spec co) = Some r
    \<and> resolve_stored_credential P st r d' = Inr v
    \<and> (\<forall>a n. (a, n) \<noteq> (ar_id agent, reg) \<longrightarrow> creds_get a n d' = creds_get a n d)
    \<and> registrations d' = registrations d \<and> agents d' = agents d"
proof -
  from assms(5) have "op_set_agent_stored_credential E key reg v h us d = (resp, us', d')" by simp
  from this assms(6) obtain sk agent sealed nonce r d1 d2 where
    s: "rs_credential_sealing_key (us_registry us) = Some sk" "get_agent (av_admin E) key d = Inr agent"
    "credential_seal (ge_seal (av_registry E)) sk (ge_nonce (av_registry E)) v = Inr (sealed, nonce)"
    "secret_insert (ge_ref_bytes (av_registry E)) (ge_insert_at (av_registry E)) sealed nonce d = (Inr r, d1)"
    "creds_set (av_set_at E) (ar_id agent) reg (stored_auth (stored_header_name h (prior_binding (ar_id agent) reg d)
       (rs_catalog (us_registry us)) reg) r) d1 = (Inr (), d2)"
    "d' = tombstone_old (av_registry E) (Option.bind (prior_binding (ar_id agent) reg d) stored_secret_ref) d2"
    "hr_body resp = RJson (JObj [(''agent_public_id'', JStr (ar_public_id agent)), (''registration'', JStr reg), (''secret_ref'', JStr r)])"
    by (rule set_stored_steps)
  note ins = inserted_secret_live [OF s(4)]
  obtain co where co: "creds_get (ar_id agent) reg d2 = Inr (Some co)" "stored_secret_ref (co_auth_spec co) = Some r"
    using creds_set_get [OF s(5)] by (auto simp: stored_auth_def split: option.splits)
  have d2: "live_secret r d2 = live_secret r d1" "registrations d2 = registrations d1" "agents d2 = agents d1" "\<not> db_down d2"
    using s(5) ins(3) by (auto simp: creds_set_def live_secret_def split: if_splits)
  have get: "creds_get a n d' = creds_get a n d2" for a n
    unfolding s(6) by (simp add: creds_get_def tombstone_old_frame)
  have "live_secret r d' = Some \<lparr>cs_secret_ref = r, cs_sealed_value = sealed, cs_nonce = nonce,
      cs_set_at = ge_insert_at (av_registry E), cs_tombstoned_at = None\<rparr>"
    unfolding s(6) using ins(1) d2(1) bound_ref_referenced [OF co] by (simp add: tombstone_old_live)
  moreover have "\<not> db_down d'" using d2(4) s(6) by simp
  moreover have "credential_unseal (ge_seal (av_registry E)) sk sealed nonce = Inr v"
    using s(3) unseal_seal [OF assms(1)] assms(2) seal_nonce by (fastforce simp: credential_seal_def credential_unseal_def)
  ultimately have "resolve_stored_credential P st r d' = Inr v"
    using assms(3,4,7-9) s(1) by (simp add: resolve_stored_credential_def secret_get_live)
  moreover have "creds_get a n d1 = creds_get a n d" "registrations d1 = registrations d" "agents d1 = agents d" for a n
    by (subst ins(2), simp add: creds_get_def)+
  moreover have "registrations d' = registrations d2" "agents d' = agents d2" using s(6) by (simp_all add: tombstone_old_frame)
  ultimately show ?thesis using s(2,7) co get creds_set_other [OF s(5)] d2(2,3) by auto
qed

section \<open>Witnesses\<close>

definition demo_uds :: uds_state where
  "demo_uds = \<lparr>us_admin = demo_service_state,
     us_agent_auth = \<lparr>ba_argon2 = cr_argon2 demo_crypto, ba_decodes = (\<lambda>s. True), ba_decoy_hash = [], ba_audit = True\<rparr>,
     us_operator_auth = \<lparr>oa_records = [], oa_argon2 = cr_argon2 demo_crypto, oa_decodes = (\<lambda>s. True), oa_decoy_hash = [], oa_audit = True\<rparr>,
     us_operator_mtls = None, us_registrations = True, us_registry = demo_registry, us_oauth = None, us_operational_log_store = True\<rparr>"

definition demo_api_env :: api_env where
  "demo_api_env = \<lparr>av_admin = demo_admin_env, av_registry = demo_registry_env, av_oauth = demo_oauth_admin_env,
     av_clock = \<lparr>cl_secs = 300, cl_ms = 300000\<rparr>,
     av_x509 = \<lparr>xl_parse = (\<lambda>c. None), xl_end_entity = (\<lambda>c. False), xl_anchor = (\<lambda>c. False), xl_verify = (\<lambda>c r t. False), xl_pem = (\<lambda>c. None)\<rparr>,
     av_set_at = 300\<rparr>"

definition demo_operator :: operator_identity where
  "demo_operator = \<lparr>oi_name = ''alice'', oi_scope = None, oi_auth_method = None\<rparr>"

theorem operator_access_required_witness:
  "\<exists>resp d'. admin_dispatch demo_api_env \<lparr>ac_authorization = Some ''Bearer x'', ac_peer_cert = None\<rparr>
      (OperatorCall (OqRevokeAgent ''abcdefgh'')) demo_uds demo_db = (resp, demo_uds, d') \<and> 400 \<le> hr_status resp"
proof -
  obtain resp us' d' where r: "admin_dispatch demo_api_env \<lparr>ac_authorization = Some ''Bearer x'', ac_peer_cert = None\<rparr>
      (OperatorCall (OqRevokeAgent ''abcdefgh'')) demo_uds demo_db = (resp, us', d')" by (metis surj_pair)
  moreover have "\<not> (\<exists>oper. operator_proof demo_api_env \<lparr>ac_authorization = Some ''Bearer x'', ac_peer_cert = None\<rparr> demo_uds oper)"
    by (simp add: operator_proof_def bearer_operator_def demo_uds_def)
  ultimately show ?thesis using operator_access_required [OF r] by blast
qed

theorem agent_call_confined_witness:
  "\<exists>resp d'. admin_dispatch demo_api_env \<lparr>ac_authorization = None, ac_peer_cert = None\<rparr> (AgentCall AqDeregister) demo_uds demo_db
      = (resp, demo_uds, d') \<and> audit_frame demo_db d' \<and> 400 \<le> hr_status resp"
proof -
  obtain resp us' d' where r: "admin_dispatch demo_api_env \<lparr>ac_authorization = None, ac_peer_cert = None\<rparr> (AgentCall AqDeregister)
      demo_uds demo_db = (resp, us', d')" by (metis surj_pair)
  from agent_call_confined [OF r] r show ?thesis by (auto simp: bearer_agent_def)
qed

theorem operator_calls_audited_witness:
  "\<exists>resp us' d' row. operator_handle demo_api_env (OqRevokeAgent ''abcdefgh'') demo_operator demo_uds demo_db = (resp, us', d')
    \<and> audit d' = audit demo_db @ [row] \<and> au_operator_name row = Some ''alice''"
proof -
  obtain resp us' d' where r: "operator_handle demo_api_env (OqRevokeAgent ''abcdefgh'') demo_operator demo_uds demo_db = (resp, us', d')"
    by (metis surj_pair)
  have "sv_audit (us_admin demo_uds)" "\<not> db_down demo_db"
    by (simp_all add: demo_uds_def demo_service_state_def demo_db_def empty_db_def)
  from operator_calls_audited [OF r this] r show ?thesis by (auto simp: operator_row_def demo_operator_def)
qed

lemma demo_set_stored:
  "\<exists>resp us' d'. operator_handle demo_api_env (OqSetStoredCredential ''abcdefgh'' ''github'' ''tok'' None) demo_operator demo_uds demo_db
      = (resp, us', d') \<and> hr_status resp = 200"
proof -
  obtain ct nonce where s: "credential_seal demo_seal \<lparr>ck_inner = demo_key\<rparr> (Some demo_nonce) ''tok'' = Inr (ct, nonce)"
    by (simp add: credential_seal_def seal_def cipher_def demo_seal_def demo_key_def KEY_LEN_def)
  obtain agent where a: "get_agent demo_admin_env ''abcdefgh'' demo_db = Inr agent" "ar_id agent = 1"
    by (simp add: get_agent_def get_active_by_public_id_def fetch_agent_def demo_db_def empty_db_def demo_agent_def into_record_def
        json_opt_def admin_result_def)
  have "\<exists>x d2. secret_insert [7] 300 ct nonce demo_db = (Inr x, d2) \<and> overrides d2 = overrides demo_db \<and> agents d2 = agents demo_db
      \<and> registrations d2 = registrations demo_db \<and> \<not> db_down d2"
    by (simp add: secret_insert_def demo_db_def empty_db_def Let_def)
  then obtain x d2 where x: "secret_insert [7] 300 ct nonce demo_db = (Inr x, d2)" "overrides d2 = overrides demo_db"
    "agents d2 = agents demo_db" "registrations d2 = registrations demo_db" "\<not> db_down d2" by blast
  have "fst (creds_set 300 1 ''github'' spec d2) = Inr ()" for spec
    using x by (simp add: creds_set_def valid_grant_target_def demo_db_def empty_db_def demo_agent_def)
       (simp add: demo_reg_def registration_new_def registration_to_row_def)
  then have c: "creds_set 300 1 ''github'' spec d2 = (Inr (), snd (creds_set 300 1 ''github'' spec d2))" for spec
    by (metis prod.collapse)
  show ?thesis
    by (simp add: op_set_agent_stored_credential_def demo_api_env_def demo_registry_env_def demo_uds_def demo_registry_def
        Let_def s a x(1)) (subst c, simp add: json_response_def Let_def)
qed

theorem stored_binding_round_trip_witness:
  "\<exists>resp us' d' r. operator_handle demo_api_env (OqSetStoredCredential ''abcdefgh'' ''github'' ''tok'' None) demo_operator demo_uds demo_db
      = (resp, us', d') \<and> resolve_stored_credential demo_proxy_env
        (demo_state\<lparr>st_credential_sealing_key := Some \<lparr>ck_inner = demo_key\<rparr>, st_credential_secrets := True\<rparr>) r d' = Inr ''tok''"
proof -
  obtain resp us' d' where r: "operator_handle demo_api_env (OqSetStoredCredential ''abcdefgh'' ''github'' ''tok'' None) demo_operator
      demo_uds demo_db = (resp, us', d')" "hr_status resp = 200" using demo_set_stored by blast
  have "seal_contract (ge_seal (av_registry demo_api_env))"
    "\<forall>n. ge_nonce (av_registry demo_api_env) = Some n \<longrightarrow> length n = NONCE_LEN" "''tok'' \<noteq> []"
    "pe_seal demo_proxy_env = ge_seal (av_registry demo_api_env)"
    by (simp_all add: demo_api_env_def demo_registry_env_def demo_proxy_env_def)
  note h = this
  have u: "utf8_valid ''tok''" by code_simp
  note * = stored_binding_round_trip [OF h(1,2) u h(3) r h(4), of
    "demo_state\<lparr>st_credential_sealing_key := Some \<lparr>ck_inner = demo_key\<rparr>, st_credential_secrets := True\<rparr>"]
  then show ?thesis using r by (auto simp: demo_uds_def demo_registry_def)
qed

end
