(* ===== verification/AgentApi.thy ===== *)
theory AgentApi
  imports ProxySafety AdminApi
begin

text \<open>
  The agent listener: \<open>app.rs\<close> builds the shared state and the router, \<open>auth.rs\<close> wraps every route, \<open>skill.rs\<close>
  renders the document an agent reads first.  One request is one step: the middleware, then the handler of the
  route.  The framework's matching of method and path is the parameter \<open>ax_route\<close>; the fixed texts of the skill
  document are parameters as well, the model keeps where the variable parts stand.
\<close>

section \<open>The skill document\<close>

record skill_texts =
  sx_template :: string
  sx_codex_quirks :: string
  sx_parts :: "nat \<Rightarrow> string"

definition backtick :: string where
  "backtick = [CHR 96]"

definition list_or :: "string \<Rightarrow> string list option \<Rightarrow> string" where
  "list_or none l = (case l of Some v \<Rightarrow> backtick @ ''['' @ join_with '', '' v @ '']'' @ backtick | None \<Rightarrow> none)"

definition tool_line :: "string \<times> string \<Rightarrow> string" where
  "tool_line t = ''| '' @ backtick @ fst t @ backtick @ '' | '' @ map (\<lambda>c. if c = CHR 0x0A then CHR '' '' else c) (snd t) @ '' |'' @ [CHR 0x0A]"

definition NO_TOOLS :: string where
  "NO_TOOLS = ''_No tools currently available to you._ Either your ACL excludes every active tool, or no tools are active in this deployment. Ask your operator to inspect catalog activation and intended ACL policy.'' @ [CHR 0x0A]"

definition tools_md :: "(string \<times> string) list \<Rightarrow> string" where
  "tools_md available =
    (if available = [] then NO_TOOLS
     else ''| Tool | Description |'' @ [CHR 0x0A] @ ''|---|---|'' @ [CHR 0x0A] @ concat (map tool_line available))"

definition render_unauthenticated :: "skill_texts \<Rightarrow> string" where
  "render_unauthenticated X = sx_template X"

text \<open>\<open>sx_parts i\<close> is the fixed text before the \<open>i\<close>-th variable part.\<close>

definition render_authenticated :: "skill_texts \<Rightarrow> agent_identity \<Rightarrow> (string \<times> string) list \<Rightarrow> string" where
  "render_authenticated X i available =
    (let quirks = (if list_ex (\<lambda>(n, _). n = ''codex'') available then sx_codex_quirks X else []);
         variables = [ai_name i, ai_name i, ai_public_id i, tools_md available, quirks,
           list_or (backtick @ ''(no HTTP grants)'' @ backtick) (ai_tool_allowlist i),
           list_or (backtick @ ''(none)'' @ backtick) (ai_tool_denylist i),
           ai_public_id i, ai_public_id i, ai_public_id i, ai_public_id i]
     in sx_template X @ concat (map (\<lambda>(k, v). sx_parts X k @ v) (enumerate 0 variables)) @ sx_parts X (length variables))"

definition skill_response :: "string \<Rightarrow> string \<Rightarrow> http_response" where
  "skill_response body cache_control =
    \<lparr>hr_status = 200, hr_headers = [(''content-type'', ''text/markdown; charset=utf-8''), (''cache-control'', cache_control)],
     hr_body = RBytes body\<rparr>"

section \<open>State and router\<close>

datatype agent_route =
    RouteLivez
  | RouteReadyz
  | RouteVersion
  | RouteSkill
  | RouteTools
  | RouteModels
  | RouteApi string string
  | RouteNone http_response

record agent_env =
  ax_route :: "http_request \<Rightarrow> agent_route"
  ax_query :: "http_request \<Rightarrow> string option"
  ax_clock :: auth_clock
  ax_now :: int
  ax_uptime :: u64
  ax_version :: string
  ax_name :: string
  ax_codec :: service_codec
  ax_service_json :: "http_service \<Rightarrow> json"
  ax_skill :: skill_texts
  ax_proxy :: proxy_env

definition build_app_full_with_phase_k ::
    "regex_lib \<Rightarrow> listener \<Rightarrow> bool \<Rightarrow> resolved_creds \<Rightarrow> bool \<Rightarrow> catalog \<Rightarrow> oauth_runtime option \<Rightarrow> bool
      \<Rightarrow> credential_sealing_key option \<Rightarrow> bool \<Rightarrow> emitter option \<Rightarrow> op_resolver option \<Rightarrow> app_state" where
  "build_app_full_with_phase_k X S audit_on creds registrations_on c oauth agent_creds key secrets log resolver =
    \<lparr>st_listener = S, st_client_pool = client_pool_new, st_audit = audit_on, st_resolved_creds = creds,
     st_response_controls = compile_response_controls X (ls_config S), st_registrations = registrations_on, st_catalog = c,
     st_oauth = oauth, st_agent_creds = agent_creds, st_credential_sealing_key = key, st_credential_secrets = secrets,
     st_operational_log = log, st_op_resolver = resolver\<rparr>"

text \<open>The narrower constructors leave services out.\<close>

definition build_app_full_with_phase_j ::
    "regex_lib \<Rightarrow> listener \<Rightarrow> bool \<Rightarrow> resolved_creds \<Rightarrow> bool \<Rightarrow> catalog \<Rightarrow> oauth_runtime option \<Rightarrow> bool
      \<Rightarrow> credential_sealing_key option \<Rightarrow> bool \<Rightarrow> app_state" where
  "build_app_full_with_phase_j X S audit_on creds registrations_on c oauth agent_creds key secrets =
    build_app_full_with_phase_k X S audit_on creds registrations_on c oauth agent_creds key secrets None None"

definition build_app_full_with_phase_g ::
    "regex_lib \<Rightarrow> listener \<Rightarrow> bool \<Rightarrow> resolved_creds \<Rightarrow> bool \<Rightarrow> catalog \<Rightarrow> oauth_runtime option \<Rightarrow> bool \<Rightarrow> app_state" where
  "build_app_full_with_phase_g X S audit_on creds registrations_on c oauth agent_creds =
    build_app_full_with_phase_j X S audit_on creds registrations_on c oauth agent_creds None False"

definition build_app_full_with_oauth ::
    "regex_lib \<Rightarrow> listener \<Rightarrow> bool \<Rightarrow> resolved_creds \<Rightarrow> bool \<Rightarrow> catalog \<Rightarrow> oauth_runtime option \<Rightarrow> app_state" where
  "build_app_full_with_oauth X S audit_on creds registrations_on c oauth =
    build_app_full_with_phase_g X S audit_on creds registrations_on c oauth False"

definition build_app_full_with_catalog ::
    "regex_lib \<Rightarrow> listener \<Rightarrow> bool \<Rightarrow> resolved_creds \<Rightarrow> bool \<Rightarrow> catalog \<Rightarrow> app_state" where
  "build_app_full_with_catalog X S audit_on creds registrations_on c =
    build_app_full_with_oauth X S audit_on creds registrations_on c None"

definition build_app_full_with_registrations ::
    "regex_lib \<Rightarrow> listener \<Rightarrow> bool \<Rightarrow> resolved_creds \<Rightarrow> bool \<Rightarrow> app_state" where
  "build_app_full_with_registrations X S audit_on creds registrations_on =
    build_app_full_with_catalog X S audit_on creds registrations_on []"

definition build_app_full :: "regex_lib \<Rightarrow> listener \<Rightarrow> bool \<Rightarrow> resolved_creds \<Rightarrow> app_state" where
  "build_app_full X S audit_on creds = build_app_full_with_registrations X S audit_on creds False"

definition build_app_with_audit_and_creds :: "regex_lib \<Rightarrow> listener \<Rightarrow> bool \<Rightarrow> resolved_creds \<Rightarrow> app_state" where
  "build_app_with_audit_and_creds X S audit_on creds = build_app_full X (S\<lparr>ls_mtls := None, ls_agent_auth := None\<rparr>) audit_on creds"

definition build_app_with_audit :: "regex_lib \<Rightarrow> listener \<Rightarrow> bool \<Rightarrow> app_state" where
  "build_app_with_audit X S audit_on = build_app_with_audit_and_creds X S audit_on Map.empty"

definition build_app :: "regex_lib \<Rightarrow> listener \<Rightarrow> app_state" where
  "build_app X S = build_app_with_audit X S False"

lemmas app_constructors = build_app_def build_app_with_audit_def build_app_with_audit_and_creds_def build_app_full_def
  build_app_full_with_registrations_def build_app_full_with_catalog_def build_app_full_with_oauth_def build_app_full_with_phase_g_def
  build_app_full_with_phase_j_def build_app_full_with_phase_k_def

definition json_str :: "string \<Rightarrow> json \<Rightarrow> string option" where
  "json_str k v = (case v of JObj m \<Rightarrow> (case map_of m k of Some (JStr s) \<Rightarrow> Some s | _ \<Rightarrow> None) | _ \<Rightarrow> None)"

definition skill_handler :: "agent_env \<Rightarrow> agent_identity option \<Rightarrow> app_state \<Rightarrow> db \<Rightarrow> http_response" where
  "skill_handler A identity st d =
    (case identity of
       Some i \<Rightarrow>
         let listing = catalog_listing (ax_codec A) (ax_service_json A) (ax_now A) st (Some i) Tool d;
             available = List.map_filter (\<lambda>v. map_option (\<lambda>n. (n, case json_str ''description'' v of Some x \<Rightarrow> x | None \<Rightarrow> []))
               (json_str ''name'' v)) listing
         in skill_response (render_authenticated (ax_skill A) i available) ''private, no-cache, no-store''
     | None \<Rightarrow> skill_response (render_unauthenticated (ax_skill A)) ''public, max-age=86400'')"

definition version_handler :: "agent_env \<Rightarrow> http_response" where
  "version_handler A = json_response 200 (JObj [(''name'', JStr (ax_name A)), (''version'', JStr (ax_version A))])"

definition tools_handler :: "agent_env \<Rightarrow> agent_identity option \<Rightarrow> app_state \<Rightarrow> db \<Rightarrow> http_response" where
  "tools_handler A identity st d =
    json_response 200 (JObj [(''tools'', JArr (catalog_listing (ax_codec A) (ax_service_json A) (ax_now A) st identity Tool d))])"

definition models_handler :: "agent_env \<Rightarrow> agent_identity option \<Rightarrow> app_state \<Rightarrow> db \<Rightarrow> http_response" where
  "models_handler A identity st d =
    json_response 200 (JObj [(''models'', JArr (catalog_listing (ax_codec A) (ax_service_json A) (ax_now A) st identity Model d))])"

definition answer_with :: "http_response \<Rightarrow> app_state \<Rightarrow> db \<Rightarrow> proxy_result" where
  "answer_with r st d = \<lparr>pr_reply = Full r, pr_sent = None, pr_state = st, pr_db = d\<rparr>"

definition route_handler ::
    "agent_env \<Rightarrow> agent_route \<Rightarrow> authenticated_as option \<Rightarrow> agent_identity option \<Rightarrow> http_request \<Rightarrow> app_state \<Rightarrow> db \<Rightarrow> proxy_result" where
  "route_handler A route as_method identity req st d =
    (case route of
       RouteLivez \<Rightarrow> answer_with (livez_handler (ax_uptime A)) st d
     | RouteReadyz \<Rightarrow> answer_with (readyz_handler (ax_uptime A) st) st d
     | RouteVersion \<Rightarrow> answer_with (version_handler A) st d
     | RouteSkill \<Rightarrow> answer_with (skill_handler A identity st d) st d
     | RouteTools \<Rightarrow> answer_with (tools_handler A identity st d) st d
     | RouteModels \<Rightarrow> answer_with (models_handler A identity st d) st d
     | RouteApi tool path \<Rightarrow> proxy_handler (ax_proxy A) as_method identity tool path (ax_query A req) req st d
     | RouteNone r \<Rightarrow> answer_with r st d)"

definition agent_dispatch :: "agent_env \<Rightarrow> http_request \<Rightarrow> app_state \<Rightarrow> db \<Rightarrow> proxy_result" where
  "agent_dispatch A req st d =
    (case auth_middleware (st_listener st) (ax_clock A) req d of
       (Respond r, d') \<Rightarrow> answer_with r st d'
     | (Forward as_method identity, d') \<Rightarrow> route_handler A (ax_route A req) as_method identity req st d')"

section \<open>Who a request speaks for\<close>

text \<open>The request proves the agent of row \<open>a\<close>: it carries a token with the public id of the row and a secret that
  verifies against its hash, or a client certificate that the validator accepts and whose identity the row has.\<close>

definition agent_proof :: "listener \<Rightarrow> auth_clock \<Rightarrow> http_request \<Rightarrow> agent_row \<Rightarrow> bool" where
  "agent_proof S t req a \<longleftrightarrow>
     (\<exists>B raw secret. ls_agent_auth S = Some B \<and> authorization_header S req = Some (''Bearer '' @ raw)
        \<and> parse (ba_decodes B) raw = Inr (NsAgent, ag_public_id a, secret)
        \<and> argon2_verify (ba_argon2 B) (ag_secret_hash a) secret = Inr True)
   \<or> (\<exists>M der v. ls_mtls S = Some M \<and> rq_peer_cert req = Some der
        \<and> mtls_validate (ls_x509 S) (cl_secs t) (ma_validator M) der = Inr v \<and> ag_cert_identity a = Some (mi_value v))"

lemma bearer_branch_proof:
  assumes "run_bearer_branch S B t req d = (Forward m (Some i), d')" and "ls_agent_auth S = Some B"
  shows "\<exists>a\<in>set (agents d). identifies a i \<and> agent_proof S t req a"
proof -
  let ?h = "case authorization_header S req of Some h \<Rightarrow> h | None \<Rightarrow> []"
  from assms(1) have "authenticate_bearer B t ?h d = (Inr i, d')"
    by (auto simp: run_bearer_branch_def Let_def split: prod.splits sum.splits)
  then obtain pid secret where h: "?h = ''Bearer '' @ wire_format \<lparr>st_namespace = NsAgent, st_public_id = pid, st_secret = secret\<rparr>"
    "parse (ba_decodes B) (wire_format \<lparr>st_namespace = NsAgent, st_public_id = pid, st_secret = secret\<rparr>) = Inr (NsAgent, pid, secret)"
    "bearer_resolve B t pid secret d = (Inr i, d')"
    by (rule authenticate_bearer_InrD)
  from h(3) obtain a where a: "get_active_by_public_id pid d = Inr (Some a)" "i = identity_of a"
    "argon2_verify (ba_argon2 B) (ar_secret_hash a) secret = Inr True" by (rule bearer_resolve_InrD)
  from a(1) obtain row where row: "row \<in> set (agents d)" "ag_public_id row = pid" "ag_revoked_at row = None" "into_record row = Inr a"
    unfolding get_active_by_public_id_def by (auto dest: fetch_agent_SomeD)
  from row(4) have "ar_secret_hash a = ag_secret_hash row" by (auto simp: into_record_def)
  moreover from h(1) have "authorization_header S req = Some ?h" by (auto split: option.splits)
  ultimately have "agent_proof S t req row" using h a(3) row(2) assms(2) unfolding agent_proof_def by metis
  with row(1) identifies_record [OF row(4,3)] a(2) show ?thesis by blast
qed

lemma cert_proof:
  assumes "authenticate_cert (ls_x509 S) (ls_mtls_message S) M t der d = (Inr i, d')" and "ls_mtls S = Some M" and "rq_peer_cert req = Some der"
  shows "\<exists>a\<in>set (agents d). identifies a i \<and> agent_proof S t req a"
proof -
  from assms(1) obtain v a where v: "mtls_validate (ls_x509 S) (cl_secs t) (ma_validator M) der = Inr v"
    "get_by_cert_identity (mi_value v) d = Inr (Some a)" "i = identity_of a"
    by (auto simp: authenticate_cert_def split: sum.splits option.splits)
  from v(2) obtain row where row: "row \<in> set (agents d)" "ag_cert_identity row = Some (mi_value v)" "ag_revoked_at row = None"
    "into_record row = Inr a" unfolding get_by_cert_identity_def by (auto dest: fetch_agent_SomeD)
  with assms(2,3) v identifies_record [OF row(4,3)] show ?thesis by (auto simp: agent_proof_def)
qed

lemma middleware_proof:
  assumes "auth_middleware S t req d = (Forward m (Some i), d')"
  shows "same_authority d d' \<and> (\<exists>a\<in>set (agents d). identifies a i \<and> agent_proof S t req a)"
proof -
  let ?mode = "ln_auth_mode (cf_listen (ls_config S))"
  consider (cert) M der where "ls_mtls S = Some M" "rq_peer_cert req = Some der"
      "authenticate_cert (ls_x509 S) (ls_mtls_message S) M t der d = (Inr i, d')"
    | (bearer) B where "ls_agent_auth S = Some B" "run_bearer_branch S B t req d = (Forward m (Some i), d')"
    using assms
    by (auto simp: auth_middleware_def Let_def shared_bearer_def split: if_splits option.splits prod.splits sum.splits)
  then show ?thesis
  proof cases
    case cert
    with cert_proof mtls.keeps show ?thesis by blast
  next
    case bearer
    then have "same_authority d d'"
      by (auto simp: run_bearer_branch_def Let_def bearer.keeps split: prod.splits sum.splits)
    with bearer_branch_proof [OF bearer(2,1)] show ?thesis by simp
  qed
qed


lemma same_authority_rows:
  assumes "same_authority d d'" and "b \<in> set (agents d')"
  shows "\<exists>a\<in>set (agents d). a\<lparr>ag_last_used_at := None\<rparr> = b\<lparr>ag_last_used_at := None\<rparr>"
proof -
  have "b\<lparr>ag_last_used_at := None\<rparr> \<in> set (map (\<lambda>a. a\<lparr>ag_last_used_at := None\<rparr>) (agents d))"
    using assms by (metis same_authority_def image_eqI list.set_map)
  then show ?thesis by auto
qed

lemma same_authority_registrations: "same_authority d d' \<Longrightarrow> registrations d' = registrations d"
  by (drule same_authority_def [THEN iffD1, THEN conjunct1, THEN arg_cong [where f = registrations]]) simp

lemma erased_last_used:
  assumes "a\<lparr>ag_last_used_at := None\<rparr> = b\<lparr>ag_last_used_at := None\<rparr>"
  shows "ag_id a = ag_id b" and "ag_public_id a = ag_public_id b" and "row_allows now a n = row_allows now b n"
proof -
  from assms have "a = b\<lparr>ag_last_used_at := ag_last_used_at a\<rparr>" by (cases a, cases b) simp
  then obtain x where "a = b\<lparr>ag_last_used_at := x\<rparr>" by blast
  then show "ag_id a = ag_id b" "ag_public_id a = ag_public_id b" "row_allows now a n = row_allows now b n"
    by (simp_all add: row_allows_def reviewed_grants_def)
qed

lemma same_authority_db_ok:
  assumes "same_authority d d'" and "db_ok d"
  shows "db_ok d'"
proof -
  have erased: "map (\<lambda>a. a\<lparr>ag_last_used_at := None\<rparr>) (agents d') = map (\<lambda>a. a\<lparr>ag_last_used_at := None\<rparr>) (agents d)"
    and d': "d' = d\<lparr>audit := audit d', next_audit_id := next_audit_id d', agents := agents d'\<rparr>"
    using assms(1) by (simp_all add: same_authority_def)
  have col: "map f (agents d') = map f (agents d)" if "\<And>a x. f (a\<lparr>ag_last_used_at := x\<rparr>) = f a" for f :: "agent_row \<Rightarrow> 'x"
  proof -
    have "map f (map (\<lambda>a. a\<lparr>ag_last_used_at := None\<rparr>) as) = map f as" for as by (simp add: that)
    with erased show ?thesis by metis
  qed
  have ids: "map ag_id (agents d') = map ag_id (agents d)" "map ag_public_id (agents d') = map ag_public_id (agents d)"
    "map ag_name (agents d') = map ag_name (agents d)" by (rule col, simp)+
  then have "ag_id ` set (agents d') = ag_id ` set (agents d)" by (metis list.set_map)
  moreover have "list_all (\<lambda>a. ag_id a < n) (agents d') = list_all (\<lambda>a. ag_id a < n) (agents d)" for n
    using calculation by (auto simp: list_all_iff) (metis imageE image_eqI)+
  moreover have "db_ok (d\<lparr>audit := audit d', next_audit_id := next_audit_id d', agents := agents d'\<rparr>)"
    using assms(2) ids calculation by (simp add: db_ok_def)
  ultimately show ?thesis by (subst d')
qed

lemma auth_middleware_keeps: "auth_middleware S t req d = (r, d') \<Longrightarrow> same_authority d d'"
  by (erule auth_middleware_cases)
    (auto simp: run_bearer_branch_def Let_def bearer.keeps mtls.keeps split: prod.splits sum.splits)

lemma agent_dispatch_sound:
  assumes "db_ok d" and "st_registrations st" and "pr_sent (agent_dispatch A req st d) = Some u"
  shows "\<exists>a tool path reg. a \<in> set (agents d) \<and> agent_proof (st_listener st) (ax_clock A) req a \<and> ax_route A req = RouteApi tool path
    \<and> row_allows (pe_now (ax_proxy A)) a tool \<and> (\<exists>r\<in>set (registrations d). row_to_registration r = Inr reg)
    \<and> lookup_active (st_catalog st) tool = Some reg \<and> reg_name reg = tool
    \<and> ur_url u = upstream_url (reg_upstream reg) path (ax_query A req)"
proof -
  from assms(3) obtain m identity d1 tool path where mw: "auth_middleware (st_listener st) (ax_clock A) req d = (Forward m identity, d1)"
    and route: "ax_route A req = RouteApi tool path"
    and sent: "pr_sent (proxy_handler (ax_proxy A) m identity tool path (ax_query A req) req st d1) = Some u"
    by (auto simp: agent_dispatch_def route_handler_def answer_with_def split: prod.splits admitted.splits agent_route.splits)
  have keeps: "same_authority d d1" by (rule auth_middleware_keeps [OF mw])
  have ok1: "db_ok d1" by (rule same_authority_db_ok [OF keeps assms(1)])
  obtain i reg spec t st1 body where i: "identity = Some i" "open_connection (pe_now (ax_proxy A)) st d1 i tool reg spec"
    and u: "u = fst (build_upstream_request (ax_proxy A) st1 t (rq_method req) (upstream_url (reg_upstream reg) path (ax_query A req))
      (rq_headers req) body (Some (ai_name i)))"
    using sent_target [OF ok1 assms(2) sent] by metis
  from mw i(1) obtain a where a: "a \<in> set (agents d)" "identifies a i" "agent_proof (st_listener st) (ax_clock A) req a"
    by (auto dest: middleware_proof)
  from i(2) obtain b where b: "b \<in> set (agents d1)" "ag_id b = ai_id i" "row_allows (pe_now (ax_proxy A)) b tool"
    by (auto simp: open_connection_def)
  from same_authority_rows [OF keeps b(1)] obtain c where c: "c \<in> set (agents d)" "c\<lparr>ag_last_used_at := None\<rparr> = b\<lparr>ag_last_used_at := None\<rparr>"
    by blast
  have "ag_id c = ag_id a" using erased_last_used(1) [OF c(2)] b(2) a(2) by (simp add: identifies_def)
  with a(1) c(1) assms(1) have "c = a" by (auto simp: db_ok_def distinct_map inj_on_def)
  with erased_last_used(3) [OF c(2)] b(3) have "row_allows (pe_now (ax_proxy A)) a tool" by simp
  moreover have "registrations d1 = registrations d" by (rule same_authority_registrations [OF keeps])
  moreover have "ur_url u = upstream_url (reg_upstream reg) path (ax_query A req)" by (simp add: u build_upstream_request_def split_beta)
  ultimately show ?thesis using a route i(2) by (auto simp: open_connection_def)
qed

text \<open>End to end on the agent listener of a deployment with agent identities: a request leaves the daemon only when
  it proves, with a verified token secret or an accepted client certificate, an agent of the database that is neither
  revoked nor expired and whose reviewed grants name the tool of the route, and when that connection is stored, enabled
  and current; it then goes to the upstream of that connection.\<close>

theorem agent_listener_sound:
  assumes "db_ok d" and "st_registrations st" and "pr_sent (agent_dispatch A req st d) = Some u"
  shows "\<exists>a tool path reg. a \<in> set (agents d) \<and> agent_proof (st_listener st) (ax_clock A) req a \<and> ax_route A req = RouteApi tool path
    \<and> row_allows (pe_now (ax_proxy A)) a tool \<and> (\<exists>r\<in>set (registrations d). row_to_registration r = Inr reg)
    \<and> lookup_active (st_catalog st) tool = Some reg \<and> reg_name reg = tool
    \<and> ur_url u = upstream_url (reg_upstream reg) path (ax_query A req)"
  by (rule agent_dispatch_sound [OF assms])


section \<open>What a request leaves alone\<close>

lemma proxy_frame_db_ok:
  assumes "proxy_frame d d'" and "db_ok d"
  shows "db_ok d'"
proof -
  have ok: "db_ok e \<longleftrightarrow> db_ok (proxy_core e) \<and> distinct (map oauth_key (oauth_sessions e))" for e
    by (auto simp: db_ok_def proxy_core_def)
  show ?thesis using assms ok [of d] ok [of d'] by (simp add: proxy_frame_def)
qed

lemma send_phase_services: "same_services st (pr_state (send_phase P req path query target ctx body st d))"
proof -
  obtain u st' where b: "build_upstream_request P st target (rq_method req) (upstream_url (pt_upstream target) path query)
      (rq_headers req) body (cx_agent_name ctx) = (u, st')" by (metis surj_pair)
  then have "same_services st st'" by (auto simp: build_upstream_request_def split: prod.splits)
  then show ?thesis unfolding send_phase_def Let_def b by (simp add: split_beta split: upstream_result.split)
qed

lemma proxy_handler_keeps:
  "proxy_frame d (pr_db (proxy_handler P as_method identity tool path query req st d))
   \<and> same_services st (pr_state (proxy_handler P as_method identity tool path query req st d))"
proof (cases rule: proxy_handler_cases [of P as_method identity tool path query req st d])
  case (answered r st' d')
  then show ?thesis by (simp add: logs_frame)
next
  case (sent target st1 d1 x body' st' d')
  then show ?thesis
    using send_phase_services send_phase_logs [THEN logs_frame] same_services_trans proxy_frame_trans by metis
qed

lemma agent_dispatch_keeps:
  assumes "r = agent_dispatch A req st d"
  shows "same_services st (pr_state r)" and "registrations (pr_db r) = registrations d" and "db_down (pr_db r) = db_down d"
    and "db_ok d \<Longrightarrow> db_ok (pr_db r)"
proof -
  obtain m d1 where mw: "auth_middleware (st_listener st) (ax_clock A) req d = (m, d1)" by fastforce
  note keeps = auth_middleware_keeps [OF mw]
  have "proxy_frame d1 (pr_db r) \<and> same_services st (pr_state r)"
    unfolding assms agent_dispatch_def mw
    by (auto simp: route_handler_def answer_with_def proxy_handler_keeps split: admitted.splits agent_route.splits)
  then have frame: "proxy_frame d1 (pr_db r)" and services: "same_services st (pr_state r)" by auto
  show "same_services st (pr_state r)" by (rule services)
  show "db_ok d \<Longrightarrow> db_ok (pr_db r)" using proxy_frame_db_ok [OF frame] same_authority_db_ok [OF keeps] by blast
  show "registrations (pr_db r) = registrations d"
    using proxy_frameD [OF frame] same_authority_registrations [OF keeps] by simp
  have "db_down d1 = db_down d"
    using keeps [unfolded same_authority_def, THEN conjunct1, THEN arg_cong [where f = db_down]] by simp
  then show "db_down (pr_db r) = db_down d" using proxy_frameD [OF frame] by simp
qed

section \<open>Witness\<close>

definition demo_agent_db :: db where
  "demo_agent_db = demo_db\<lparr>agents := [demo_agent\<lparr>ag_public_id := demo_pid, ag_secret_hash := ''phc'' @ replicate 43 (CHR ''s'')\<rparr>]\<rparr>"

definition demo_agent_call :: http_request where
  "demo_agent_call = demo_call\<lparr>rq_headers :=
     [(''accept'', ''*/*''), (''authorization'', ''Bearer lk_'' @ demo_pid @ ''.'' @ replicate 43 (CHR ''s''))]\<rparr>"

definition demo_agent_env :: agent_env where
  "demo_agent_env = \<lparr>ax_route = (\<lambda>r. RouteApi ''github'' ''user''), ax_query = (\<lambda>r. None), ax_clock = \<lparr>cl_secs = 200, cl_ms = 200000\<rparr>,
     ax_now = 200, ax_uptime = 1, ax_version = ''2'', ax_name = ''agent-locksmith'', ax_codec = demo_codec, ax_service_json = (\<lambda>s. JNull),
     ax_skill = \<lparr>sx_template = [], sx_codex_quirks = [], sx_parts = (\<lambda>k. [])\<rparr>, ax_proxy = demo_proxy_env\<rparr>"

definition demo_caller :: agent_identity where
  "demo_caller = demo_identity\<lparr>ai_public_id := demo_pid\<rparr>"

definition demo_touched_db :: db where
  "demo_touched_db = demo_agent_db\<lparr>agents := map (\<lambda>a. a\<lparr>ag_last_used_at := Some 200\<rparr>) (agents demo_agent_db)\<rparr>"

lemma demo_authenticated:
  "auth_middleware demo_listener (ax_clock demo_agent_env) demo_agent_call demo_agent_db = (Forward (Some AsBearer) (Some demo_caller), demo_touched_db)"
  by code_simp

lemma demo_caller_admission:
  "http_admissions 200 demo_caller (Some ''github'') demo_touched_db =
    Inr [\<lparr>ha_registration = demo_reg, ha_account = Some (Bearer ''GH_TOKEN''), ha_agent_active = True, ha_grant = Inr ()\<rparr>]"
proof -
  have "admission_of_row 200 demo_caller demo_touched_db (registration_to_row demo_reg) =
    Inr \<lparr>ha_registration = demo_reg, ha_account = Some (Bearer ''GH_TOKEN''), ha_agent_active = True, ha_grant = Inr ()\<rparr>"
    unfolding admission_of_row_def demo_row
    by (simp add: joined_agent_def joined_binding_def demo_touched_db_def demo_agent_db_def demo_db_def demo_caller_def demo_identity_def
        demo_agent_def binding_key_is_def registration_to_row_def demo_reg_def registration_new_def empty_db_def agent_active_def
        allows_tool_def admission_list_def)
  moreover have "connection_row ''github'' (registration_to_row demo_reg)"
    by (simp add: connection_row_def registration_to_row_def demo_reg_def registration_new_def)
  moreover have "\<not> db_down demo_touched_db" "registrations demo_touched_db = [registration_to_row demo_reg]"
    by (simp_all add: demo_touched_db_def demo_agent_db_def demo_db_def empty_db_def)
  moreover have "db_ok demo_touched_db"
    by (simp add: db_ok_def demo_touched_db_def demo_agent_db_def demo_defs override_key_def reg_row_check_def)
  ultimately show ?thesis by (simp add: named_admission)
qed

lemma demo_caller_prepared:
  assumes "cx_tool_name ctx = ''github''"
  shows "prepare_target demo_proxy_env ctx (Some demo_caller) demo_state demo_touched_db = (Inr demo_target, demo_state, demo_touched_db)"
proof -
  have "gate_phase demo_proxy_env ctx (Some demo_caller) demo_state demo_touched_db = (Inr (), demo_state, demo_touched_db)"
    by (simp add: gate_phase_def assms demo_caller_def demo_identity_def allows_tool_def)
  moreover have "activation demo_reg (Some (st_catalog demo_state)) = ''active''"
    by (simp add: demo_state_def lookup_any_def) (simp add: demo_reg_def registration_new_def)
  then have "target_phase demo_proxy_env ctx (Some demo_caller) demo_state demo_touched_db = (Inr demo_target, demo_state, demo_touched_db)"
    using demo_caller_admission
    by (simp add: target_phase_def admission_target_def assms demo_target_def demo_proxy_env_def selected_env_def)
       (simp add: demo_state_def demo_reg_def registration_new_def)
  ultimately show ?thesis
    by (simp add: prepare_target_def phase_bind_def oauth_phase_pass stored_phase_pass op_phase_pass demo_target_def)
qed

lemma demo_caller_sent: "\<exists>u. pr_sent (agent_dispatch demo_agent_env demo_agent_call demo_state demo_agent_db) = Some u"
proof -
  have "body_phase demo_proxy_env demo_agent_call demo_target h ctx st d = (Inr [], st, d)" for h ctx st d
    by (simp add: body_phase_def read_request_body_def demo_proxy_env_def demo_agent_call_def demo_call_def)
  moreover have "\<not> is_chatgpt_codex_upstream (pt_upstream demo_target)" by code_simp
  moreover have "st_listener demo_state = demo_listener" by (simp add: demo_state_def)
  moreover have "ax_route demo_agent_env r = RouteApi ''github'' ''user''" "ax_proxy demo_agent_env = demo_proxy_env" for r
    by (simp_all add: demo_agent_env_def)
  ultimately show ?thesis
    by (simp add: agent_dispatch_def demo_authenticated route_handler_def proxy_handler_def Let_def phase_bind_def demo_caller_prepared
        ctx_snapshot_def codex_phase_def send_phase_sent)
qed

theorem agent_listener_sound_witness:
  "\<exists>u a tool path. pr_sent (agent_dispatch demo_agent_env demo_agent_call demo_state demo_agent_db) = Some u
     \<and> a \<in> set (agents demo_agent_db) \<and> agent_proof demo_listener (ax_clock demo_agent_env) demo_agent_call a
     \<and> ax_route demo_agent_env demo_agent_call = RouteApi tool path \<and> row_allows 200 a tool"
proof -
  obtain u where u: "pr_sent (agent_dispatch demo_agent_env demo_agent_call demo_state demo_agent_db) = Some u"
    using demo_caller_sent by blast
  have "db_ok demo_agent_db" by (simp add: db_ok_def demo_agent_db_def demo_defs override_key_def reg_row_check_def)
  moreover have "st_registrations demo_state" "st_listener demo_state = demo_listener" by (simp_all add: demo_state_def)
  moreover have "pe_now (ax_proxy demo_agent_env) = 200" by (simp add: demo_agent_env_def demo_proxy_env_def)
  ultimately show ?thesis using agent_listener_sound [OF _ _ u] u by metis
qed

end
