(* ===== verification/SeedLoader.thy ===== *)
theory SeedLoader
  imports RegistryApi
begin

text \<open>
  \<open>registrations/seed_loader.rs\<close> and \<open>registrations/legacy_bootstrap.rs\<close>: the two imports that fill the
  registrations table at start-up.  The seed catalog ships with the image and is applied when its version is newer
  than the stored one; the legacy import then adds the tools of the configuration file that have no row yet.
  \<open>seed_env\<close> holds the environment, the file system, the YAML reader, the URL parser and the clock.
\<close>

section \<open>Seed catalog\<close>

record seed_entry =
  sn_name :: string
  sn_kind :: kind
  sn_description :: string
  sn_upstream :: string
  sn_auth :: "auth_spec option"
  sn_egress :: "egress_mode option"
  sn_timeouts :: "tool_timeouts option"
  sn_body_limit_bytes :: "u64 option"
  sn_metadata :: "json option"

record seed_catalog =
  sk_version :: string
  sk_entries :: "seed_entry list"

datatype seed_load_error =
    SeedIo string
  | SeedParse string
  | SeedEntryError string string registration_error
  | SeedBackend registration_error

record seed_env =
  sd_vars :: "string \<Rightarrow> string option"
  sd_exists :: "string \<Rightarrow> bool"
  sd_read :: "string \<Rightarrow> string + string"
  sd_yaml :: "string \<Rightarrow> string + seed_catalog"
  sd_parse_url :: "string \<Rightarrow> url_view option"
  sd_codec :: service_codec
  sd_now :: int

definition DEFAULT_SEED_PATH :: string where
  "DEFAULT_SEED_PATH = ''/etc/locksmith/seed/catalog.yaml''"

definition seed_path_from_env :: "seed_env \<Rightarrow> string option" where
  "seed_path_from_env E =
    (case sd_vars E ''LOCKSMITH_SEED_PATH'' of
       Some s \<Rightarrow> if s = [] then None else Some s
     | None \<Rightarrow> Some DEFAULT_SEED_PATH)"

text \<open>\<open>str::parse::<u64>\<close>: an optional plus sign and at least one digit, below $2^{64}$.\<close>

definition parse_u64 :: "string \<Rightarrow> u64 option" where
  "parse_u64 s =
    (let ds = (case s of c # r \<Rightarrow> if c = CHR ''+'' then r else s | [] \<Rightarrow> [])
     in if ds = [] \<or> \<not> list_all is_ascii_digit ds then None
        else let n = foldl (\<lambda>a c. 10 * a + (of_char c - 48)) (0 :: nat) ds
             in if n < 2 ^ 64 then Some (word_of_nat n) else None)"

definition semver_parse :: "string \<Rightarrow> u64 \<times> u64 \<times> u64" where
  "semver_parse s =
    (let parts = split_by (\<lambda>c. c = CHR ''.'') s;
         part = (\<lambda>i. if i < length parts then (case parse_u64 (parts ! i) of Some n \<Rightarrow> n | None \<Rightarrow> 0) else 0)
     in (part 0, part 1, part 2))"

definition semver_lt :: "string \<Rightarrow> string \<Rightarrow> bool" where
  "semver_lt a b =
    (case (semver_parse a, semver_parse b) of
       ((a1, a2, a3), (b1, b2, b3)) \<Rightarrow> a1 < b1 \<or> a1 = b1 \<and> (a2 < b2 \<or> a2 = b2 \<and> a3 < b3))"

definition check_auth_for_kind :: "seed_entry \<Rightarrow> registration_error + unit" where
  "check_auth_for_kind e =
    (case (sn_kind e, sn_auth e) of
       (Tool, None) \<Rightarrow> Inl AuthRequired
     | (Model, None) \<Rightarrow> Inl AuthRequired
     | _ \<Rightarrow> Inr ())"

definition entry_error :: "seed_entry \<Rightarrow> registration_error \<Rightarrow> seed_load_error" where
  "entry_error e err = SeedEntryError (sn_name e) (kind_as_str (sn_kind e)) err"

definition entry_to_registration :: "seed_entry \<Rightarrow> kind \<Rightarrow> int \<Rightarrow> seed_load_error + registration" where
  "entry_to_registration e k now =
    result_bind
      (case (k, sn_auth e) of
         (_, Some a) \<Rightarrow> Inr a
       | (Infra, None) \<Rightarrow> Inr AuthNone
       | (_, None) \<Rightarrow> Inl (SeedEntryError (sn_name e) (kind_as_str k) AuthRequired))
      (\<lambda>auth. Inr
        \<lparr>reg_name = sn_name e, reg_kind = k, reg_description = sn_description e, reg_upstream = sn_upstream e,
         reg_auth = auth, reg_egress = (case sn_egress e of Some g \<Rightarrow> g | None \<Rightarrow> Direct),
         reg_timeouts = (case sn_timeouts e of Some t \<Rightarrow> t | None \<Rightarrow> default_timeouts),
         reg_body_limit_bytes = (case sn_body_limit_bytes e of Some b \<Rightarrow> b | None \<Rightarrow> 10 * 1024 * 1024),
         reg_metadata = (case sn_metadata e of Some m \<Rightarrow> m | None \<Rightarrow> JObj []),
         reg_seed = True, reg_disabled = False, reg_created_at = now, reg_updated_at = now\<rparr>)"

text \<open>The checks of every entry, before the first write.\<close>

definition check_entry :: "seed_env \<Rightarrow> seed_entry \<Rightarrow> seed_load_error + unit" where
  "check_entry E e =
    (case result_bind (case sn_metadata e of Some m \<Rightarrow> from_metadata (sd_codec E) m | None \<Rightarrow> Inr None) (\<lambda>_.
          result_bind (validate_upstream (sd_parse_url E) (sn_kind e) (sn_upstream e)) (\<lambda>_.
          result_bind (validate_name (sn_name e)) (\<lambda>_. check_auth_for_kind e))) of
       Inl err \<Rightarrow> Inl (entry_error e err)
     | Inr _ \<Rightarrow> Inr ())"

fun check_entries :: "seed_env \<Rightarrow> seed_entry list \<Rightarrow> seed_load_error + unit" where
  "check_entries E [] = Inr ()"
| "check_entries E (e # es) = (case check_entry E e of Inl err \<Rightarrow> Inl err | Inr _ \<Rightarrow> check_entries E es)"

text \<open>One pass of the loop that writes: an operator's row is left alone, a seed row of the same kind is refreshed,
  a missing row is created.\<close>

definition apply_entry :: "seed_env \<Rightarrow> seed_entry \<Rightarrow> db \<Rightarrow> (seed_load_error + unit) \<times> db" where
  "apply_entry E e d =
    (case registration_get (sn_name e) d of
       Inl err \<Rightarrow> (Inl (SeedBackend err), d)
     | Inr (Some existing) \<Rightarrow>
         if \<not> reg_seed existing then (Inr (), d)
         else if reg_kind existing \<noteq> sn_kind e then (Inl (entry_error e (WrongKind (reg_kind existing) (sn_kind e))), d)
         else
           (case entry_to_registration e (sn_kind e) (sd_now E) of
              Inl err \<Rightarrow> (Inl err, d)
            | Inr r \<Rightarrow>
                (case registration_upsert (r\<lparr>reg_created_at := reg_created_at existing, reg_disabled := reg_disabled existing\<rparr>) d of
                   (Inl err, d') \<Rightarrow> (Inl (SeedBackend err), d')
                 | (Inr _, d') \<Rightarrow> (Inr (), d')))
     | Inr None \<Rightarrow>
         (case entry_to_registration e (sn_kind e) (sd_now E) of
            Inl err \<Rightarrow> (Inl err, d)
          | Inr r \<Rightarrow>
              (case registration_create r d of
                 (Inl err, d') \<Rightarrow> (Inl (SeedBackend err), d')
               | (Inr _, d') \<Rightarrow> (Inr (), d'))))"

fun apply_entries :: "seed_env \<Rightarrow> seed_entry list \<Rightarrow> db \<Rightarrow> (seed_load_error + unit) \<times> db" where
  "apply_entries E [] d = (Inr (), d)"
| "apply_entries E (e # es) d =
    (case apply_entry E e d of (Inl err, d') \<Rightarrow> (Inl err, d') | (Inr _, d') \<Rightarrow> apply_entries E es d')"

definition apply_catalog_parsed :: "seed_env \<Rightarrow> seed_catalog \<Rightarrow> db \<Rightarrow> (seed_load_error + unit) \<times> db" where
  "apply_catalog_parsed E cat d =
    (case get_seed_version d of
       Inl err \<Rightarrow> (Inl (SeedBackend err), d)
     | Inr current \<Rightarrow>
         if (case current of Some v \<Rightarrow> v = sk_version cat \<or> \<not> semver_lt v (sk_version cat) | None \<Rightarrow> False)
         then (Inr (), d)
         else
           (case check_entries E (sk_entries cat) of
              Inl err \<Rightarrow> (Inl err, d)
            | Inr _ \<Rightarrow>
                (case apply_entries E (sk_entries cat) d of
                   (Inl err, d') \<Rightarrow> (Inl err, d')
                 | (Inr _, d') \<Rightarrow>
                     (case set_seed_version (sk_version cat) d' of
                        (Inl err, d'') \<Rightarrow> (Inl (SeedBackend err), d'')
                      | (Inr _, d'') \<Rightarrow> (Inr (), d'')))))"

definition apply_catalog :: "seed_env \<Rightarrow> string \<Rightarrow> db \<Rightarrow> (seed_load_error + unit) \<times> db" where
  "apply_catalog E yaml d =
    (case sd_yaml E yaml of Inl m \<Rightarrow> (Inl (SeedParse (''yaml: '' @ m)), d) | Inr cat \<Rightarrow> apply_catalog_parsed E cat d)"

definition load_or_skip :: "seed_env \<Rightarrow> string \<Rightarrow> db \<Rightarrow> (seed_load_error + unit) \<times> db" where
  "load_or_skip E path d =
    (if \<not> sd_exists E path then (Inr (), d)
     else case sd_read E path of
       Inl m \<Rightarrow> (Inl (SeedIo (''read '' @ path @ '': '' @ m)), d)
     | Inr contents \<Rightarrow> apply_catalog E contents d)"

section \<open>Tools of the configuration file\<close>

text \<open>The scan for \<open>${...}\<close>: exactly one reference, closed.\<close>

function extract_from :: "string option \<Rightarrow> string \<Rightarrow> string option" where
  "extract_from found (a # b # rest) =
    (if a = CHR ''$'' \<and> b = CHR ''{'' then
       (case split_once (CHR ''}'') rest of
          None \<Rightarrow> None
        | Some (name, tail) \<Rightarrow> if found \<noteq> None then None else extract_from (Some name) tail)
     else extract_from found (b # rest))"
| "extract_from found [a] = found"
| "extract_from found [] = found"
  by pat_completeness auto
termination
  by (relation "measure (\<lambda>(f, s). length s)") (auto dest: split_once_SomeD)

definition extract_single_env_var :: "string \<Rightarrow> string option" where
  "extract_single_env_var s = extract_from None s"

fun translate_auth :: "tool_auth_config \<Rightarrow> auth_spec option" where
  "translate_auth ta =
    (case ta_value ta of
       FromEnv var _ \<Rightarrow> Some (Header (ta_header ta) var)
     | LegacyString s \<Rightarrow> (case extract_single_env_var s of Some var \<Rightarrow> Some (Header (ta_header ta) var) | None \<Rightarrow> None)
     | _ \<Rightarrow> None)"

definition tool_registration :: "int \<Rightarrow> tool_config \<Rightarrow> auth_spec \<Rightarrow> registration" where
  "tool_registration now t auth =
    \<lparr>reg_name = tc_name t, reg_kind = Tool, reg_description = tc_description t, reg_upstream = tc_upstream t,
     reg_auth = auth, reg_egress = tc_egress t, reg_timeouts = tc_timeouts t, reg_body_limit_bytes = tc_body_limit_bytes t,
     reg_metadata = JObj [], reg_seed = False, reg_disabled = False, reg_created_at = now, reg_updated_at = now\<rparr>"

text \<open>The loop carries its three counters; an error ends it.\<close>

fun bootstrap_tools :: "int \<Rightarrow> tool_config list \<Rightarrow> nat \<times> nat \<times> nat \<Rightarrow> db \<Rightarrow> (registration_error + nat \<times> nat \<times> nat) \<times> db" where
  "bootstrap_tools now [] n d = (Inr n, d)"
| "bootstrap_tools now (t # ts) (inserted, existing, unsupported) d =
    (case registration_get (tc_name t) d of
       Inl err \<Rightarrow> (Inl err, d)
     | Inr (Some _) \<Rightarrow> bootstrap_tools now ts (inserted, existing + 1, unsupported) d
     | Inr None \<Rightarrow>
         (case (case tc_auth t of None \<Rightarrow> Some AuthNone | Some ta \<Rightarrow> translate_auth ta) of
            None \<Rightarrow> bootstrap_tools now ts (inserted, existing, unsupported + 1) d
          | Some auth \<Rightarrow>
              (case registration_create (tool_registration now t auth) d of
                 (Inl err, d') \<Rightarrow> (Inl err, d')
               | (Inr _, d') \<Rightarrow> bootstrap_tools now ts (inserted + 1, existing, unsupported) d')))"

definition bootstrap_from_config_tools :: "int \<Rightarrow> app_config \<Rightarrow> db \<Rightarrow> (registration_error + nat \<times> nat \<times> nat) \<times> db" where
  "bootstrap_from_config_tools now cfg d = bootstrap_tools now (cf_tools cfg) (0, 0, 0) d"

section \<open>What the seed import keeps\<close>

lemma registry_run_step: "registry_step d d' \<Longrightarrow> registry_run d d'"
  by (rule run_step [OF run_refl])

lemma registry_run_trans: "registry_run d d' \<Longrightarrow> registry_run c d \<Longrightarrow> registry_run c d'"
  by (induction rule: registry_run.induct) (auto intro: run_step)

lemma registry_run_keeps: "registry_run d d' \<Longrightarrow> db_ok d \<Longrightarrow> db_ok d'"
  by (induction rule: registry_run.induct) (auto intro: registry_step_keeps)

lemma registry_run_pins:
  "registry_run d d' \<Longrightarrow> holds_authority n d' \<Longrightarrow> holds_authority n d \<and> destination n d' = destination n d"
  by (induction rule: registry_run.induct) (auto dest: step_pins_destination)

text \<open>What an import may do to a row that exists: an operator's row stays as it is, and no row loses its kind, its
  creation time, its origin or its disabled flag.\<close>

definition row_kept :: "reg_row option \<Rightarrow> reg_row option \<Rightarrow> bool" where
  "row_kept old new \<longleftrightarrow> (\<forall>row. old = Some row \<longrightarrow>
     (\<exists>row'. new = Some row' \<and> rg_kind row' = rg_kind row \<and> rg_created_at row' = rg_created_at row
        \<and> rg_seed row' = rg_seed row \<and> rg_disabled row' = rg_disabled row \<and> (\<not> rg_seed row \<longrightarrow> row' = row)))"

lemma row_kept_refl [simp]: "row_kept r r"
  by (simp add: row_kept_def)

lemma row_kept_trans: "row_kept a b \<Longrightarrow> row_kept b c \<Longrightarrow> row_kept a c"
  by (fastforce simp: row_kept_def)

lemma row_kept_None [simp]: "row_kept None r"
  by (simp add: row_kept_def)

text \<open>The row an entry leaves under its name.\<close>

definition seeded_row :: "seed_env \<Rightarrow> seed_entry \<Rightarrow> reg_row option \<Rightarrow> reg_row option" where
  "seeded_row E e old =
    (case entry_to_registration e (sn_kind e) (sd_now E) of
       Inl _ \<Rightarrow> old
     | Inr r \<Rightarrow>
         (case old of
            None \<Rightarrow> Some (registration_to_row r)
          | Some row \<Rightarrow> Some (if rg_seed row then (upsert_row r row)\<lparr>rg_disabled := rg_disabled row\<rparr> else row)))"

lemma entry_to_registration_Inr:
  assumes "entry_to_registration e k now = Inr r"
  shows "reg_name r = sn_name e" and "reg_kind r = k" and "reg_seed r"
  using assms by (auto simp: entry_to_registration_def split: prod.splits option.splits kind.splits)

lemma registration_get_row:
  assumes "registration_get n d = Inr (Some r)"
  obtains row where "reg_by_name n d = Some row" "row_to_registration row = Inr r" "\<not> db_down d" "reg_name r = n"
    "reg_seed r = rg_seed row" "reg_disabled r = rg_disabled row" "rg_kind row = kind_as_str (reg_kind r)"
proof -
  from assms obtain row where row: "reg_by_name n d = Some row" "row_to_registration row = Inr r" "\<not> db_down d"
    by (auto simp: registration_get_def split: if_splits option.splits)
  moreover from row(1) have "rg_name row = n" by (auto simp: reg_by_name_def find_Some_iff)
  ultimately show thesis
    by (intro that [of row])
      (auto simp: row_to_registration_def row_kind_def split: if_splits)
qed

lemma registration_get_None: "registration_get n d = Inr None \<Longrightarrow> reg_by_name n d = None \<and> \<not> db_down d"
  by (auto simp: registration_get_def split: if_splits option.splits)

lemma upsert_existing_rows:
  assumes "reg_by_name (reg_name r) d = Some row" and "\<not> db_down d"
  shows "reg_by_name n (snd (registration_upsert r d)) = (if n = reg_name r then Some (upsert_row r row) else reg_by_name n d)"
  using assms by (auto simp: registration_upsert_def Let_def reg_by_name_update_where)

lemma create_rows:
  assumes "reg_by_name (reg_name r) d = None" and "\<not> db_down d"
  shows "reg_by_name n (snd (registration_create r d)) = (if n = reg_name r then Some (registration_to_row r) else reg_by_name n d)"
  using assms by (auto simp: registration_create_def reg_by_name_append split: option.splits)

lemma apply_entry_cases:
  assumes "apply_entry E e d = (res, d')"
  shows "d' = d \<and> (res = Inr () \<longrightarrow> (\<exists>row. reg_by_name (sn_name e) d = Some row \<and> \<not> rg_seed row))
    \<or> res = Inr () \<and> registry_step d d'
       \<and> (\<forall>n. reg_by_name n d' = (if n = sn_name e then seeded_row E e (reg_by_name n d) else reg_by_name n d))
       \<and> row_kept (reg_by_name (sn_name e) d) (seeded_row E e (reg_by_name (sn_name e) d))"
proof (cases "registration_get (sn_name e) d")
  case (Inl err)
  with assms show ?thesis by (auto simp: apply_entry_def)
next
  case (Inr found)
  show ?thesis
  proof (cases "entry_to_registration e (sn_kind e) (sd_now E)")
    case (Inl err)
    with assms Inr show ?thesis
      by (auto simp: apply_entry_def split: option.splits if_splits elim: registration_get_row)
  next
    case entry: (Inr r)
    note r = entry_to_registration_Inr [OF entry]
    show ?thesis
    proof (cases found)
      case None
      with Inr have n: "reg_by_name (sn_name e) d = None" "\<not> db_down d" by (auto dest: registration_get_None)
      with assms Inr None entry have *: "res = Inr ()" "d' = snd (registration_create r d)"
        by (auto simp: apply_entry_def registration_create_def r)
      have "registry_step d d'" unfolding * by (rule step_create)
      with * n entry create_rows [of r d] r show ?thesis by (simp add: seeded_row_def)
    next
      case (Some x)
      with Inr obtain row where row: "reg_by_name (sn_name e) d = Some row" "\<not> db_down d" "reg_seed x = rg_seed row"
        "reg_disabled x = rg_disabled row" by (auto elim: registration_get_row)
      show ?thesis
      proof (cases "reg_seed x \<and> reg_kind x = sn_kind e")
        case True
        let ?r = "r\<lparr>reg_created_at := reg_created_at x, reg_disabled := reg_disabled x\<rparr>"
        from True assms Inr Some entry row r have *: "res = Inr ()" "d' = snd (registration_upsert ?r d)"
          by (auto simp: apply_entry_def registration_upsert_def Let_def)
        have "registry_step d d'" unfolding * by (rule step_upsert)
        moreover have "upsert_row ?r row = (upsert_row r row)\<lparr>rg_disabled := rg_disabled row\<rparr>"
          using row by (simp add: upsert_row_def registration_to_row_def Let_def)
        ultimately show ?thesis
          using * row True r entry upsert_existing_rows [of ?r d row]
          by (simp add: seeded_row_def row_kept_def upsert_row_def registration_to_row_def Let_def)
      next
        case False
        with assms Inr Some row show ?thesis by (auto simp: apply_entry_def split: if_splits)
      qed
    qed
  qed
qed

lemma apply_entry_run:
  assumes "apply_entry E e d = (res, d')"
  shows "registry_run d d'" and "row_kept (reg_by_name n d) (reg_by_name n d')"
  using apply_entry_cases [OF assms] by (auto intro: run_refl registry_run_step)

lemma apply_entry_row:
  assumes "apply_entry E e d = (Inr (), d')"
  shows "reg_by_name n d' = (if n = sn_name e then seeded_row E e (reg_by_name n d) else reg_by_name n d)"
  using apply_entry_cases [OF assms] by (auto simp: seeded_row_def split: sum.splits)

lemma apply_entries_run:
  "apply_entries E es d = (res, d') \<Longrightarrow> registry_run d d' \<and> row_kept (reg_by_name n d) (reg_by_name n d')"
proof (induction es arbitrary: d)
  case Nil
  then show ?case by (auto intro: run_refl)
next
  case (Cons e es)
  obtain r1 d1 where one: "apply_entry E e d = (r1, d1)" by fastforce
  note first = apply_entry_run [OF one]
  show ?case
  proof (cases r1)
    case (Inl err)
    with Cons.prems one first show ?thesis by auto
  next
    case (Inr u)
    with Cons.prems one have "apply_entries E es d1 = (res, d')" by simp
    with Cons.IH [of d1] first show ?thesis by (metis registry_run_trans row_kept_trans)
  qed
qed

lemma apply_entries_rows:
  assumes "apply_entries E es d = (Inr (), d')" and "distinct (map sn_name es)"
  shows "reg_by_name n d' =
    (case find (\<lambda>e. sn_name e = n) es of None \<Rightarrow> reg_by_name n d | Some e \<Rightarrow> seeded_row E e (reg_by_name n d))"
  using assms
proof (induction es arbitrary: d)
  case (Cons e es)
  then obtain d1 where one: "apply_entry E e d = (Inr (), d1)" "apply_entries E es d1 = (Inr (), d')"
    by (auto split: prod.splits sum.splits)
  from Cons.prems(2) have "sn_name e = n \<Longrightarrow> find (\<lambda>e. sn_name e = n) es = None"
    by (auto simp: find_None_iff image_iff)
  with one Cons.IH [OF one(2)] Cons.prems(2) show ?case
    by (auto simp: apply_entry_row [OF one(1)] split: option.splits)
qed simp

text \<open>Whether the catalog is newer than the stored one.\<close>

definition seed_due :: "seed_catalog \<Rightarrow> db \<Rightarrow> bool" where
  "seed_due cat d \<longleftrightarrow>
     (\<forall>v. map_of (registrations_meta d) ''seed_version'' = Some v \<longrightarrow> v \<noteq> sk_version cat \<and> semver_lt v (sk_version cat))"

lemma reg_by_name_meta [simp]: "reg_by_name n (d\<lparr>registrations_meta := m\<rparr>) = reg_by_name n d"
  by (simp add: reg_by_name_def)

lemma holds_authority_meta [simp]: "holds_authority n (d\<lparr>registrations_meta := m\<rparr>) = holds_authority n d"
  by (simp add: holds_authority_def)

lemma destination_meta [simp]: "destination n (d\<lparr>registrations_meta := m\<rparr>) = destination n d"
  by (simp add: destination_def)

lemma apply_catalog_cases:
  assumes "apply_catalog_parsed E cat d = (res, d')"
  shows "d' = d \<and> (res = Inr () \<longrightarrow> \<not> db_down d \<and> \<not> seed_due cat d)
    \<or> seed_due cat d \<and> check_entries E (sk_entries cat) = Inr ()
       \<and> (\<exists>r1 d1. apply_entries E (sk_entries cat) d = (r1, d1)
          \<and> (d' = d1 \<and> res \<noteq> Inr ()
             \<or> r1 = Inr () \<and> res = Inr () \<and> \<not> db_down d1
               \<and> d' = d1\<lparr>registrations_meta := bt_insert ''seed_version'' (sk_version cat) (registrations_meta d1)\<rparr>))"
proof (cases "db_down d \<or> \<not> seed_due cat d")
  case True
  with assms show ?thesis
    by (auto simp: apply_catalog_parsed_def get_seed_version_def seed_due_def split: option.splits if_splits)
next
  case False
  then have "apply_catalog_parsed E cat d = (case check_entries E (sk_entries cat) of
      Inl err \<Rightarrow> (Inl err, d)
    | Inr _ \<Rightarrow>
        (case apply_entries E (sk_entries cat) d of
           (Inl err, d') \<Rightarrow> (Inl err, d')
         | (Inr _, d') \<Rightarrow>
             (case set_seed_version (sk_version cat) d' of
                (Inl err, d'') \<Rightarrow> (Inl (SeedBackend err), d'')
              | (Inr _, d'') \<Rightarrow> (Inr (), d''))))"
    by (auto simp: apply_catalog_parsed_def get_seed_version_def seed_due_def split: option.splits)
  with assms False show ?thesis
    by (auto simp: set_seed_version_def split: sum.splits prod.splits if_splits)
qed

lemma apply_entries_pins:
  "apply_entries E es d = (res, d') \<Longrightarrow> holds_authority n d' \<Longrightarrow> holds_authority n d \<and> destination n d' = destination n d"
  by (blast dest: apply_entries_run registry_run_pins)

lemma apply_catalog_kept:
  assumes "apply_catalog_parsed E cat d = (res, d')"
  shows "row_kept (reg_by_name n d) (reg_by_name n d')"
    and "holds_authority n d' \<Longrightarrow> holds_authority n d \<and> destination n d' = destination n d"
  using apply_catalog_cases [OF assms] by (auto dest: apply_entries_run apply_entries_pins)

lemma apply_catalog_db_ok:
  assumes "apply_catalog_parsed E cat d = (res, d')" and "db_ok d"
  shows "db_ok d'"
proof -
  have meta: "db_ok (e\<lparr>registrations_meta := m\<rparr>) = db_ok e" for e :: db and m by (simp add: db_ok_def)
  show ?thesis
    using apply_catalog_cases [OF assms(1)] assms(2)
    by (auto simp: meta dest!: apply_entries_run dest: registry_run_keeps)
qed

lemma load_or_skip_db_ok: "load_or_skip E path d = (res, d') \<Longrightarrow> db_ok d \<Longrightarrow> db_ok d'"
  by (auto simp: load_or_skip_def apply_catalog_def dest: apply_catalog_db_ok split: if_splits sum.splits)

text \<open>C17. Importing a seed catalog, whether it succeeds or fails half way, leaves every row an operator has written
  as it was, never enables a connection an operator has disabled, and never changes the kind, origin or creation time
  of a row; a grant, scope or binding in force afterwards was in force before, for the same upstream and egress; and a
  catalog with an invalid entry changes nothing.\<close>

theorem seed_respects_operator:
  assumes "apply_catalog_parsed E cat d = (res, d')"
  shows "(\<forall>n row. reg_by_name n d = Some row \<longrightarrow>
        (\<exists>row'. reg_by_name n d' = Some row' \<and> rg_disabled row' = rg_disabled row \<and> rg_kind row' = rg_kind row
           \<and> rg_seed row' = rg_seed row \<and> rg_created_at row' = rg_created_at row \<and> (\<not> rg_seed row \<longrightarrow> row' = row)))
    \<and> (\<forall>n. holds_authority n d' \<longrightarrow> holds_authority n d \<and> destination n d' = destination n d)
    \<and> (check_entries E (sk_entries cat) \<noteq> Inr () \<longrightarrow> d' = d)"
proof (intro conjI allI impI)
  fix n row assume "reg_by_name n d = Some row"
  with apply_catalog_kept(1) [OF assms, of n]
  show "\<exists>row'. reg_by_name n d' = Some row' \<and> rg_disabled row' = rg_disabled row \<and> rg_kind row' = rg_kind row
     \<and> rg_seed row' = rg_seed row \<and> rg_created_at row' = rg_created_at row \<and> (\<not> rg_seed row \<longrightarrow> row' = row)"
    by (auto simp: row_kept_def)
next
  show "d' = d" if "check_entries E (sk_entries cat) \<noteq> Inr ()"
    using apply_catalog_cases [OF assms] that by auto
qed (use apply_catalog_kept(2) [OF assms] in blast)+

text \<open>A catalog with distinct names that is newer than the stored one and imports without error leaves under each
  of its names the row of its entry (an operator's row excepted, a refreshed row keeping its disabled flag), changes
  no other row and records its version; one that is not newer changes nothing; importing it again changes nothing.\<close>

theorem seed_import_exact:
  assumes "apply_catalog_parsed E cat d = (Inr (), d')" and "distinct (map sn_name (sk_entries cat))"
  shows "(if seed_due cat d
      then get_seed_version d' = Inr (Some (sk_version cat))
        \<and> (\<forall>n. reg_by_name n d' =
             (case find (\<lambda>e. sn_name e = n) (sk_entries cat) of
                None \<Rightarrow> reg_by_name n d
              | Some e \<Rightarrow> seeded_row E e (reg_by_name n d)))
      else d' = d)
    \<and> apply_catalog_parsed E2 cat d' = (Inr (), d')"
proof (cases "seed_due cat d")
  case True
  with apply_catalog_cases [OF assms(1)] obtain d1 where d1: "apply_entries E (sk_entries cat) d = (Inr (), d1)" "\<not> db_down d1"
    "d' = d1\<lparr>registrations_meta := bt_insert ''seed_version'' (sk_version cat) (registrations_meta d1)\<rparr>" by auto
  then have v: "get_seed_version d' = Inr (Some (sk_version cat))" by (simp add: get_seed_version_def)
  then have "apply_catalog_parsed E2 cat d' = (Inr (), d')" by (simp add: apply_catalog_parsed_def)
  with True v d1 apply_entries_rows [OF d1(1) assms(2)] show ?thesis by simp
next
  case False
  with apply_catalog_cases [OF assms(1)] have d: "d' = d" "\<not> db_down d" by auto
  with False have "apply_catalog_parsed E2 cat d' = (Inr (), d')"
    by (auto simp: apply_catalog_parsed_def get_seed_version_def seed_due_def split: option.splits)
  with False d show ?thesis by simp
qed


section \<open>What the legacy import keeps\<close>

lemma bootstrap_tools_run:
  "bootstrap_tools now ts c d = (res, d') \<Longrightarrow>
     registry_run d d' \<and> (\<forall>row. reg_by_name n d = Some row \<longrightarrow> reg_by_name n d' = Some row)"
proof (induction ts arbitrary: c d)
  case (Cons t ts)
  obtain i x u where c: "c = (i, x, u)" by (cases c)
  show ?case
  proof (cases "registration_get (tc_name t) d")
    case (Inr found)
    show ?thesis
    proof (cases found)
      case None
      with Inr have n: "reg_by_name (tc_name t) d = None" "\<not> db_down d" by (auto dest: registration_get_None)
      show ?thesis
      proof (cases "case tc_auth t of None \<Rightarrow> Some AuthNone | Some ta \<Rightarrow> translate_auth ta")
        case (Some auth)
        let ?r = "tool_registration now t auth"
        have nm: "reg_name ?r = tc_name t" by (simp add: tool_registration_def)
        obtain d1 where cr: "registration_create ?r d = (Inr (), d1)" using n by (simp add: registration_create_def nm)
        then have d1: "d1 = snd (registration_create ?r d)" by simp
        have "registry_run d d1" unfolding d1 by (intro registry_run_step step_create)
        moreover have "reg_by_name n d = Some row \<longrightarrow> reg_by_name n d1 = Some row" for row
          using create_rows [of ?r d n] n by (auto simp: nm d1)
        moreover have "bootstrap_tools now ts (i + 1, x, u) d1 = (res, d')" using Cons.prems c Inr None Some cr by simp
        ultimately show ?thesis using Cons.IH by (metis registry_run_trans)
      qed (use Cons c Inr None in auto)
    qed (use Cons c Inr in auto)
  qed (use Cons.prems c in \<open>auto intro: run_refl\<close>)
qed (auto intro: run_refl)

lemma bootstrap_tools_db_ok: "bootstrap_from_config_tools now cfg d = (res, d') \<Longrightarrow> db_ok d \<Longrightarrow> db_ok d'"
  by (auto simp: bootstrap_from_config_tools_def dest: bootstrap_tools_run registry_run_keeps)

text \<open>A text without a complete placeholder names no variable.\<close>

lemma extract_from_None:
  assumes "\<not> (\<exists>a v b. s = a @ ''${'' @ v @ ''}'' @ b)"
  shows "extract_from None s = None"
  using assms
proof (induction "None :: string option" s rule: extract_from.induct)
  case (1 a b rest)
  show ?case
  proof (cases "a = CHR ''$'' \<and> b = CHR ''{''")
    case True
    have "split_once (CHR ''}'') rest = None"
    proof (rule ccontr)
      assume "split_once (CHR ''}'') rest \<noteq> None"
      then obtain v r where "split_once (CHR ''}'') rest = Some (v, r)" by auto
      with True have "a # b # rest = [] @ ''${'' @ v @ ''}'' @ r" by (auto dest: split_once_SomeD)
      with 1(2) show False by blast
    qed
    with True show ?thesis by simp
  next
    case False
    have "\<not> (\<exists>p v q. b # rest = p @ ''${'' @ v @ ''}'' @ q)"
    proof
      assume "\<exists>p v q. b # rest = p @ ''${'' @ v @ ''}'' @ q"
      then obtain p v q where "a # b # rest = (a # p) @ ''${'' @ v @ ''}'' @ q" by auto
      with 1(2) show False by blast
    qed
    with 1(1) [OF False] have "extract_from None (b # rest) = None" .
    with False show ?thesis by (auto split: option.splits)
  qed
qed auto



section \<open>Witnesses\<close>

definition demo_seed_env :: seed_env where
  "demo_seed_env = \<lparr>sd_vars = (\<lambda>v. None), sd_exists = (\<lambda>p. True), sd_read = (\<lambda>p. Inr []), sd_yaml = (\<lambda>s. Inl []),
     sd_parse_url = demo_url, sd_codec = demo_codec, sd_now = 400\<rparr>"

definition demo_seed_entry :: "string \<Rightarrow> seed_entry" where
  "demo_seed_entry n = \<lparr>sn_name = n, sn_kind = Tool, sn_description = [], sn_upstream = ''https://api.example.com'',
     sn_auth = Some (Bearer ''KEY''), sn_egress = None, sn_timeouts = None, sn_body_limit_bytes = None, sn_metadata = None\<rparr>"

definition demo_seed_catalog :: seed_catalog where
  "demo_seed_catalog = \<lparr>sk_version = ''1.2.0'', sk_entries = [demo_seed_entry ''github'', demo_seed_entry ''search'']\<rparr>"

lemma demo_seed_checks: "check_entries demo_seed_env (sk_entries demo_seed_catalog) = Inr ()"
proof -
  have "validate_upstream demo_url Tool ''https://api.example.com'' = Inr ()" by code_simp
  moreover have "validate_name ''github'' = Inr ()" "validate_name ''search'' = Inr ()" by code_simp+
  ultimately show ?thesis
    by (simp add: demo_seed_catalog_def demo_seed_entry_def demo_seed_env_def check_entry_def check_auth_for_kind_def)
qed

lemma demo_seed_import:
  "\<exists>d'. apply_catalog_parsed demo_seed_env demo_seed_catalog demo_db = (Inr (), d') \<and> seed_due demo_seed_catalog demo_db"
proof -
  have g: "registration_get ''search'' demo_db = Inr None" "\<not> db_down demo_db"
    by (simp_all add: registration_get_def reg_by_name_def demo_db_def empty_db_def demo_reg_def registration_new_def
        registration_to_row_def)
  have "reg_by_name ''search'' demo_db = None" using g by (auto dest: registration_get_None)
  moreover have "\<not> reg_seed demo_reg" by (simp add: demo_reg_def registration_new_def)
  ultimately obtain d1 where "apply_entries demo_seed_env (sk_entries demo_seed_catalog) demo_db = (Inr (), d1)" "\<not> db_down d1"
    using g demo_get
    by (simp add: demo_seed_catalog_def demo_seed_entry_def demo_seed_env_def apply_entry_def entry_to_registration_def
        registration_create_def invalidate_authority_def)
  moreover have "seed_due demo_seed_catalog demo_db" by (simp add: seed_due_def demo_db_def empty_db_def)
  ultimately show ?thesis
    using demo_seed_checks g(2)
    by (simp add: apply_catalog_parsed_def get_seed_version_def set_seed_version_def demo_db_def empty_db_def)
qed

theorem seed_respects_operator_witness:
  "\<exists>d'. apply_catalog_parsed demo_seed_env demo_seed_catalog demo_db = (Inr (), d')
     \<and> reg_by_name ''github'' d' = Some (registration_to_row demo_reg)"
proof -
  obtain d' where d': "apply_catalog_parsed demo_seed_env demo_seed_catalog demo_db = (Inr (), d')"
    using demo_seed_import by blast
  have "reg_by_name ''github'' demo_db = Some (registration_to_row demo_reg)" "\<not> rg_seed (registration_to_row demo_reg)"
    by (simp_all add: reg_by_name_def demo_defs)
  with d' seed_respects_operator [OF d'] show ?thesis by blast
qed

theorem seed_import_exact_witness:
  "\<exists>d'. apply_catalog_parsed demo_seed_env demo_seed_catalog demo_db = (Inr (), d')
     \<and> get_seed_version d' = Inr (Some ''1.2.0'') \<and> reg_by_name ''search'' d' \<noteq> None
     \<and> apply_catalog_parsed demo_seed_env demo_seed_catalog d' = (Inr (), d')"
proof -
  obtain d' where d': "apply_catalog_parsed demo_seed_env demo_seed_catalog demo_db = (Inr (), d')"
    "seed_due demo_seed_catalog demo_db" using demo_seed_import by blast
  have dist: "distinct (map sn_name (sk_entries demo_seed_catalog))" by (simp add: demo_seed_catalog_def demo_seed_entry_def)
  have find: "find (\<lambda>e. sn_name e = ''search'') (sk_entries demo_seed_catalog) = Some (demo_seed_entry ''search'')"
    by (simp add: demo_seed_catalog_def demo_seed_entry_def)
  have "seeded_row demo_seed_env (demo_seed_entry ''search'') (reg_by_name ''search'' demo_db) \<noteq> None"
    by (simp add: seeded_row_def entry_to_registration_def demo_seed_entry_def split: option.splits)
  with seed_import_exact [OF d'(1) dist, of demo_seed_env] d' find show ?thesis
    by (auto simp: demo_seed_catalog_def)
qed

definition demo_legacy_tool :: tool_config where
  "demo_legacy_tool = \<lparr>tc_name = ''jira'', tc_description = [], tc_upstream = ''https://jira.example.com'', tc_egress = Direct,
     tc_auth = Some \<lparr>ta_header = ''Authorization'', ta_value = LegacyString ''Bearer abc''\<rparr>,
     tc_timeouts = default_timeouts, tc_body_limit_bytes = 1024, tc_response = None\<rparr>"


end
