(* ===== verification/Shutdown.thy ===== *)
theory Shutdown
  imports Prelude
begin

text \<open>
  \<open>shutdown.rs\<close>: the shutdown coordinator.  Every listener awaits its own \<open>shutdown_signal\<close>, a task sets the latch
  and notifies the waiters once the process is signalled, and the daemon then waits for the listeners for at most
  the drain window.  The tasks interleave at their awaits and at every access to the shared latch and \<open>Notify\<close>; a
  schedule is a sequence of the tasks that take a step.  tokio's \<open>Notify\<close> and \<open>timeout\<close> are parameters, with
  \<open>notify_contract\<close> and \<open>timeout_contract\<close> what their documentation promises.
\<close>

section \<open>tokio\<close>

record ('n, 'w) notify_lib =
  nl_new :: 'n
  nl_notified :: "'n \<Rightarrow> 'w \<times> 'n"
  nl_notify_waiters :: "'n \<Rightarrow> 'n"
  nl_ready :: "'n \<Rightarrow> 'w \<Rightarrow> bool"

text \<open>A future that \<open>notified\<close> has created (\<open>live\<close>) is completed by the next \<open>notify_waiters\<close>, polled or not, by
  nothing else, and stays complete.\<close>

definition notify_contract :: "('n, 'w) notify_lib \<Rightarrow> ('n \<Rightarrow> 'w \<Rightarrow> bool) \<Rightarrow> bool" where
  "notify_contract N live \<longleftrightarrow>
     (\<forall>n w n'. nl_notified N n = (w, n') \<longrightarrow> live n' w \<and> \<not> nl_ready N n' w)
   \<and> (\<forall>n w v n'. nl_notified N n = (v, n') \<longrightarrow> live n w \<longrightarrow> live n' w \<and> nl_ready N n' w = nl_ready N n w)
   \<and> (\<forall>n w. live n w \<longrightarrow> live (nl_notify_waiters N n) w \<and> nl_ready N (nl_notify_waiters N n) w)"

text \<open>\<open>timeout window task\<close> from \<open>start\<close>, where the task finishes at \<open>at\<close> (or never): the value of the task and the
  time it is returned, or \<open>None\<close> when the window has passed.\<close>

type_synonym 'a task = "('a \<times> nat) option"

definition timeout_contract :: "(nat \<Rightarrow> nat \<Rightarrow> 'a task \<Rightarrow> 'a option \<times> nat) \<Rightarrow> bool" where
  "timeout_contract timeout \<longleftrightarrow>
     (\<forall>window start a at. at \<le> start + window \<longrightarrow> timeout window start (Some (a, at)) = (Some a, max start at))
   \<and> (\<forall>window start task. (\<forall>a at. task = Some (a, at) \<longrightarrow> start + window < at) \<longrightarrow> timeout window start task = (None, start + window))"

section \<open>The coordinator\<close>

text \<open>Where a \<open>shutdown_signal\<close> future stands: before its first look at the latch, before it registers, registered
  and before its second look, awaiting the notification, returned.\<close>

datatype 'w waiter = WaitStart | WaitRegister | WaitRecheck 'w | WaitAwait 'w | WaitDone

text \<open>Where the task of \<open>install\<close>, or a caller of \<open>trigger\<close>, stands: waiting for the signal, latch set, waiters
  notified.\<close>

datatype trigger = TriggerIdle | TriggerStored | TriggerNotified

record ('n, 'w) coordinator =
  sc_notify :: 'n
  sc_triggered :: bool
  sc_trigger :: trigger
  sc_waiters :: "'w waiter list"

definition DEFAULT_DRAIN_WINDOW_SECS :: nat where
  "DEFAULT_DRAIN_WINDOW_SECS = 30"

definition coordinator_new :: "('n, 'w) notify_lib \<Rightarrow> nat \<Rightarrow> ('n, 'w) coordinator" where
  "coordinator_new N waiters =
    \<lparr>sc_notify = nl_new N, sc_triggered = False, sc_trigger = TriggerIdle, sc_waiters = replicate waiters WaitStart\<rparr>"

definition trigger_step :: "('n, 'w) notify_lib \<Rightarrow> ('n, 'w) coordinator \<Rightarrow> ('n, 'w) coordinator" where
  "trigger_step N s =
    (case sc_trigger s of
       TriggerIdle \<Rightarrow> s\<lparr>sc_triggered := True, sc_trigger := TriggerStored\<rparr>
     | TriggerStored \<Rightarrow> s\<lparr>sc_notify := nl_notify_waiters N (sc_notify s), sc_trigger := TriggerNotified\<rparr>
     | TriggerNotified \<Rightarrow> s)"

fun shutdown_signal :: "('n, 'w) notify_lib \<Rightarrow> ('n, 'w) coordinator \<Rightarrow> 'w waiter \<Rightarrow> 'w waiter \<times> 'n" where
  "shutdown_signal N s WaitStart = (if sc_triggered s then WaitDone else WaitRegister, sc_notify s)"
| "shutdown_signal N s WaitRegister = (case nl_notified N (sc_notify s) of (w, n) \<Rightarrow> (WaitRecheck w, n))"
| "shutdown_signal N s (WaitRecheck w) = (if sc_triggered s then WaitDone else WaitAwait w, sc_notify s)"
| "shutdown_signal N s (WaitAwait w) = (if nl_ready N (sc_notify s) w then WaitDone else WaitAwait w, sc_notify s)"
| "shutdown_signal N s WaitDone = (WaitDone, sc_notify s)"

definition waiter_step :: "('n, 'w) notify_lib \<Rightarrow> nat \<Rightarrow> ('n, 'w) coordinator \<Rightarrow> ('n, 'w) coordinator" where
  "waiter_step N i s =
    (if i < length (sc_waiters s) then
       (case shutdown_signal N s (sc_waiters s ! i) of
          (p, n) \<Rightarrow> s\<lparr>sc_notify := n, sc_waiters := (sc_waiters s)[i := p]\<rparr>)
     else s)"

definition is_triggered :: "('n, 'w) coordinator \<Rightarrow> bool" where
  "is_triggered s = sc_triggered s"

datatype actor = Signaller | Waiter nat

fun actor_step :: "('n, 'w) notify_lib \<Rightarrow> actor \<Rightarrow> ('n, 'w) coordinator \<Rightarrow> ('n, 'w) coordinator" where
  "actor_step N Signaller s = trigger_step N s"
| "actor_step N (Waiter i) s = waiter_step N i s"

primrec coordinator_run :: "('n, 'w) notify_lib \<Rightarrow> (nat \<Rightarrow> actor) \<Rightarrow> nat \<Rightarrow> nat \<Rightarrow> ('n, 'w) coordinator" where
  "coordinator_run N sched waiters 0 = coordinator_new N waiters"
| "coordinator_run N sched waiters (Suc k) = actor_step N (sched k) (coordinator_run N sched waiters k)"

definition drain_or_timeout :: "(nat \<Rightarrow> nat \<Rightarrow> 'a task \<Rightarrow> 'a option \<times> nat) \<Rightarrow> nat \<Rightarrow> 'a task \<Rightarrow> nat \<Rightarrow> 'a option \<times> nat" where
  "drain_or_timeout timeout window task start = timeout window start task"

text \<open>\<open>signalled\<close> is the time the coordinator's own \<open>shutdown_signal\<close> returns, \<open>None\<close> when it never does.\<close>

definition await_shutdown_then_drain ::
    "(nat \<Rightarrow> nat \<Rightarrow> 'a task \<Rightarrow> 'a option \<times> nat) \<Rightarrow> nat \<Rightarrow> nat option \<Rightarrow> 'a task \<Rightarrow> ('a option \<times> nat) option" where
  "await_shutdown_then_drain timeout window signalled task =
    (case signalled of None \<Rightarrow> None | Some start \<Rightarrow> Some (drain_or_timeout timeout window task start))"

section \<open>No lost wake-up\<close>

text \<open>A waiter that awaits looked at the latch before it was set, so it was registered before the notification.\<close>

definition waiter_ok :: "('n, 'w) notify_lib \<Rightarrow> ('n \<Rightarrow> 'w \<Rightarrow> bool) \<Rightarrow> 'n \<Rightarrow> trigger \<Rightarrow> 'w waiter \<Rightarrow> bool" where
  "waiter_ok N live n t p \<longleftrightarrow>
     (case p of
        WaitRecheck w \<Rightarrow> live n w \<and> (t = TriggerIdle \<longrightarrow> \<not> nl_ready N n w)
      | WaitAwait w \<Rightarrow> live n w \<and> (nl_ready N n w \<longleftrightarrow> t = TriggerNotified)
      | WaitDone \<Rightarrow> t \<noteq> TriggerIdle
      | _ \<Rightarrow> True)"

definition coordinator_inv :: "('n, 'w) notify_lib \<Rightarrow> ('n \<Rightarrow> 'w \<Rightarrow> bool) \<Rightarrow> ('n, 'w) coordinator \<Rightarrow> bool" where
  "coordinator_inv N live s \<longleftrightarrow>
     (sc_triggered s \<longleftrightarrow> sc_trigger s \<noteq> TriggerIdle)
   \<and> (\<forall>p\<in>set (sc_waiters s). waiter_ok N live (sc_notify s) (sc_trigger s) p)"

lemma waiter_ok_register:
  assumes "notify_contract N live" and "nl_notified N n = (v, n')" and "waiter_ok N live n t p"
  shows "waiter_ok N live n' t p"
proof -
  have "live n w \<Longrightarrow> live n' w \<and> nl_ready N n' w = nl_ready N n w" for w
    using assms(1,2) unfolding notify_contract_def by blast
  with assms(3) show ?thesis by (auto simp: waiter_ok_def split: waiter.splits)
qed

lemma waiter_ok_new:
  assumes "notify_contract N live" and "nl_notified N n = (w, n')"
  shows "waiter_ok N live n' t (WaitRecheck w)"
  using assms unfolding notify_contract_def by (simp add: waiter_ok_def)

lemma waiter_ok_notify:
  assumes "notify_contract N live" and "waiter_ok N live n TriggerStored p"
  shows "waiter_ok N live (nl_notify_waiters N n) TriggerNotified p"
proof -
  have "live n w \<Longrightarrow> live (nl_notify_waiters N n) w \<and> nl_ready N (nl_notify_waiters N n) w" for w
    using assms(1) unfolding notify_contract_def by blast
  with assms(2) show ?thesis by (auto simp: waiter_ok_def split: waiter.splits)
qed

lemma waiter_ok_store: "waiter_ok N live n TriggerIdle p \<Longrightarrow> waiter_ok N live n TriggerStored p"
  by (auto simp: waiter_ok_def split: waiter.splits)

lemma waiter_ok_signal:
  assumes "notify_contract N live" and "coordinator_inv N live s" and "shutdown_signal N s p = (p', n')"
    and "waiter_ok N live (sc_notify s) (sc_trigger s) p"
  shows "waiter_ok N live n' (sc_trigger s) p'"
    and "waiter_ok N live (sc_notify s) (sc_trigger s) q \<Longrightarrow> waiter_ok N live n' (sc_trigger s) q"
  using assms
  by (cases p; auto simp: coordinator_inv_def waiter_ok_def [of _ _ _ _ "WaitAwait _"] waiter_ok_def [of _ _ _ _ "WaitDone"]
      waiter_ok_def [of _ _ _ _ "WaitRecheck _"] waiter_ok_def [of _ _ _ _ WaitRegister]
      split: if_splits prod.splits dest: waiter_ok_new waiter_ok_register)+

lemma coordinator_inv_step:
  assumes "notify_contract N live" and "coordinator_inv N live s"
  shows "coordinator_inv N live (actor_step N a s)"
proof (cases a)
  case Signaller
  with assms show ?thesis
    by (cases "sc_trigger s") (auto simp: trigger_step_def coordinator_inv_def intro: waiter_ok_store waiter_ok_notify)
next
  case (Waiter i)
  show ?thesis
  proof (cases "i < length (sc_waiters s)")
    case True
    obtain p n where p: "shutdown_signal N s (sc_waiters s ! i) = (p, n)" by fastforce
    have ok: "waiter_ok N live (sc_notify s) (sc_trigger s) q" if "q \<in> set (sc_waiters s)" for q
      using assms(2) that by (simp add: coordinator_inv_def)
    note sig = waiter_ok_signal [OF assms p ok [OF nth_mem [OF True]]]
    have "q \<in> set ((sc_waiters s)[i := p]) \<Longrightarrow> waiter_ok N live n (sc_trigger s) q" for q
      using set_update_subset_insert [of "sc_waiters s" i p] sig ok by blast
    with Waiter True p assms(2) show ?thesis by (simp add: waiter_step_def coordinator_inv_def)
  qed (use Waiter assms in \<open>simp add: waiter_step_def\<close>)
qed

lemma coordinator_run_inv:
  assumes "notify_contract N live"
  shows "coordinator_inv N live (coordinator_run N sched n k)"
proof (induction k)
  case 0
  show ?case by (auto simp: coordinator_inv_def coordinator_new_def waiter_ok_def)
qed (simp add: coordinator_inv_step [OF assms])

lemma run_waiters [simp]: "length (sc_waiters (coordinator_run N sched n k)) = n"
proof (induction k)
  case (Suc k)
  then show ?case
    by (cases "sched k") (auto simp: trigger_step_def waiter_step_def split: trigger.splits prod.splits)
qed (simp add: coordinator_new_def)

section \<open>Progress\<close>

lemma trigger_moves:
  "sc_trigger (actor_step N Signaller s) = (if sc_trigger s = TriggerIdle then TriggerStored else TriggerNotified)"
  by (cases "sc_trigger s") (simp_all add: trigger_step_def)

lemma trigger_stays: "sc_trigger (actor_step N (Waiter i) s) = sc_trigger s"
  by (auto simp: waiter_step_def split: prod.splits)

text \<open>How many steps a waiter is away from returning once the waiters are notified.\<close>

fun waiter_rank :: "'w waiter \<Rightarrow> nat" where
  "waiter_rank WaitRegister = 2"
| "waiter_rank WaitDone = 0"
| "waiter_rank _ = 1"

lemma waiter_rank_0: "waiter_rank p = 0 \<longleftrightarrow> p = WaitDone"
  by (cases p) auto

lemma rank_step:
  assumes "coordinator_inv N live s" and "sc_trigger s = TriggerNotified" and "i < length (sc_waiters s)"
  shows "waiter_rank (sc_waiters (actor_step N a s) ! i)
    \<le> waiter_rank (sc_waiters s ! i) - (if a = Waiter i then 1 else 0)"
proof (cases a)
  case Signaller
  with assms show ?thesis by (simp add: trigger_step_def)
next
  case (Waiter j)
  obtain p n where p: "shutdown_signal N s (sc_waiters s ! j) = (p, n)" by fastforce
  show ?thesis
  proof (cases "j = i")
    case True
    have "waiter_ok N live (sc_notify s) TriggerNotified (sc_waiters s ! i)" and "sc_triggered s"
      using assms by (auto simp: coordinator_inv_def)
    with p True have "waiter_rank p \<le> waiter_rank (sc_waiters s ! i) - 1"
      by (cases "sc_waiters s ! i") (auto simp: waiter_ok_def split: prod.splits)
    with Waiter True p assms(3) show ?thesis by (simp add: waiter_step_def)
  next
    case False
    with Waiter p assms(3) show ?thesis by (simp add: waiter_step_def)
  qed
qed


definition infinitely_often :: "(nat \<Rightarrow> actor) \<Rightarrow> actor \<Rightarrow> bool" where
  "infinitely_often sched a \<longleftrightarrow> (\<forall>k. \<exists>j\<ge>k. sched j = a)"

lemma notified_stays:
  assumes "sc_trigger (coordinator_run N sched n k) = TriggerNotified" and "k \<le> j"
  shows "sc_trigger (coordinator_run N sched n j) = TriggerNotified"
  using assms(2)
proof (induction rule: dec_induct)
  case (step m)
  then show ?case by (cases "sched m") (simp_all add: trigger_moves trigger_stays del: actor_step.simps)
qed (use assms(1) in simp)

lemma stored_stays:
  assumes "sc_trigger (coordinator_run N sched n k) \<noteq> TriggerIdle" and "k \<le> j"
  shows "sc_trigger (coordinator_run N sched n j) \<noteq> TriggerIdle"
  using assms(2)
proof (induction rule: dec_induct)
  case (step m)
  then show ?case by (cases "sched m") (simp_all add: trigger_moves trigger_stays del: actor_step.simps)
qed (use assms(1) in simp)

lemma eventually_notified:
  assumes "infinitely_often sched Signaller"
  obtains k where "sc_trigger (coordinator_run N sched n k) = TriggerNotified"
proof -
  obtain j where j: "sched j = Signaller" using assms by (auto simp: infinitely_often_def)
  then have "sc_trigger (coordinator_run N sched n (Suc j)) \<noteq> TriggerIdle"
    by (simp add: trigger_moves del: actor_step.simps)
  moreover obtain l where l: "Suc j \<le> l" "sched l = Signaller" using assms by (auto simp: infinitely_often_def)
  ultimately have "sc_trigger (coordinator_run N sched n l) \<noteq> TriggerIdle" using stored_stays [of N sched n "Suc j" l] l by simp
  with l have "sc_trigger (coordinator_run N sched n (Suc l)) = TriggerNotified"
    by (simp add: trigger_moves del: actor_step.simps)
  with that show thesis .
qed

lemma rank_run:
  assumes "notify_contract N live" and "sc_trigger (coordinator_run N sched n k) = TriggerNotified" and "i < n" and "k \<le> j"
  shows "waiter_rank (sc_waiters (coordinator_run N sched n j) ! i) \<le> waiter_rank (sc_waiters (coordinator_run N sched n k) ! i)"
  using assms(4)
proof (induction rule: dec_induct)
  case (step m)
  have "waiter_rank (sc_waiters (coordinator_run N sched n (Suc m)) ! i) \<le> waiter_rank (sc_waiters (coordinator_run N sched n m) ! i)"
    using rank_step [OF coordinator_run_inv [OF assms(1)] notified_stays [OF assms(2) step(1)], of i "sched m"] assms(3) by simp
  with step(3) show ?case by simp
qed simp

lemma waiter_returns:
  assumes "notify_contract N live" and "infinitely_often sched (Waiter i)" and "i < n"
  shows "sc_trigger (coordinator_run N sched n k) = TriggerNotified \<Longrightarrow>
    \<exists>j\<ge>k. sc_waiters (coordinator_run N sched n j) ! i = WaitDone"
proof (induction "waiter_rank (sc_waiters (coordinator_run N sched n k) ! i)" arbitrary: k rule: less_induct)
  case less
  show ?case
  proof (cases "sc_waiters (coordinator_run N sched n k) ! i = WaitDone")
    case False
    obtain j where j: "k \<le> j" "sched j = Waiter i" using assms(2) by (auto simp: infinitely_often_def)
    have notified: "sc_trigger (coordinator_run N sched n j) = TriggerNotified" by (rule notified_stays [OF less(2) j(1)])
    have "waiter_rank (sc_waiters (coordinator_run N sched n (Suc j)) ! i)
        \<le> waiter_rank (sc_waiters (coordinator_run N sched n j) ! i) - 1"
      using rank_step [OF coordinator_run_inv [OF assms(1)] notified, of i "Waiter i"] assms(3) j(2) by simp
    also have "\<dots> < waiter_rank (sc_waiters (coordinator_run N sched n k) ! i)"
      using rank_run [OF assms(1) less(2) assms(3) j(1)] False waiter_rank_0 [of "sc_waiters (coordinator_run N sched n k) ! i"]
      by linarith
    finally show ?thesis
      using less(1) [of "Suc j"] notified_stays [OF notified, of "Suc j"] j(1) by (meson Suc_leD le_SucI le_trans le_refl)
  qed auto
qed

lemma triggered_by_signaller:
  "sc_trigger (coordinator_run N sched n k) \<noteq> TriggerIdle \<Longrightarrow> \<exists>j<k. sched j = Signaller"
proof (induction k)
  case (Suc k)
  then show ?case
    by (cases "sched k") (auto simp: trigger_stays less_Suc_eq simp del: actor_step.simps)
qed (simp add: coordinator_new_def)

text \<open>C20. Under every schedule in which the signal arrives and no task is starved, every \<open>shutdown_signal\<close>, whether it
  starts before, during or after the signal, returns and stays returned: no wake-up is lost between the check of the
  latch and the await.  None returns before the signal.\<close>

theorem shutdown_reaches_every_waiter:
  assumes "notify_contract N live" and "infinitely_often sched Signaller"
    and "\<forall>i<n. infinitely_often sched (Waiter i)"
  shows "(\<exists>k. \<forall>j\<ge>k. sc_waiters (coordinator_run N sched n j) = replicate n WaitDone)
    \<and> (\<forall>k. WaitDone \<in> set (sc_waiters (coordinator_run N sched n k)) \<longrightarrow>
         is_triggered (coordinator_run N sched n k) \<and> (\<exists>j<k. sched j = Signaller))"
proof (intro conjI allI impI)
  let ?run = "coordinator_run N sched n"
  obtain k0 where k0: "sc_trigger (?run k0) = TriggerNotified" using eventually_notified [OF assms(2)] .
  have "\<exists>k\<ge>k0. sc_waiters (?run k) ! i = WaitDone" if "i < n" for i
    using waiter_returns [OF assms(1) _ that k0] assms(3) that by blast
  then obtain f where f: "\<And>i. i < n \<Longrightarrow> k0 \<le> f i \<and> sc_waiters (?run (f i)) ! i = WaitDone" by metis
  define K where "K = Max (insert k0 (f ` {..<n}))"
  have "sc_waiters (?run j) ! i = WaitDone" if "K \<le> j" and "i < n" for i j
  proof -
    have "f i \<le> j" using that by (auto simp: K_def)
    moreover have "sc_trigger (?run (f i)) = TriggerNotified" using f [OF that(2)] k0 notified_stays by blast
    ultimately have "waiter_rank (sc_waiters (?run j) ! i) \<le> waiter_rank (sc_waiters (?run (f i)) ! i)"
      using rank_run [OF assms(1) _ that(2)] by blast
    with f [OF that(2)] show ?thesis by (simp add: waiter_rank_0)
  qed
  then show "\<exists>k. \<forall>j\<ge>k. sc_waiters (?run j) = replicate n WaitDone"
    by (intro exI [of _ K]) (auto intro: nth_equalityI)
next
  let ?run = "coordinator_run N sched n"
  fix k assume "WaitDone \<in> set (sc_waiters (?run k))"
  with coordinator_run_inv [OF assms(1), of sched n k] have "sc_trigger (?run k) \<noteq> TriggerIdle" "sc_triggered (?run k)"
    by (auto simp: coordinator_inv_def waiter_ok_def)
  then show "is_triggered (?run k)" and "\<exists>j<k. sched j = Signaller"
    using triggered_by_signaller [of N sched n k] by (simp_all add: is_triggered_def)
qed

text \<open>The daemon leaves the drain at most one window after the signal, with the result of the listeners exactly when
  they finish in time, and never before the signal.\<close>

lemma drain_bounded:
  assumes "timeout_contract timeout" and "await_shutdown_then_drain timeout window signalled task = Some (res, at)"
  shows "\<exists>start. signalled = Some start \<and> start \<le> at \<and> at \<le> start + window
    \<and> (res \<noteq> None \<longleftrightarrow> (\<exists>a t. task = Some (a, t) \<and> t \<le> start + window))"
proof -
  obtain start where start: "signalled = Some start" "timeout window start task = (res, at)"
    using assms(2) by (auto simp: await_shutdown_then_drain_def drain_or_timeout_def split: option.splits)
  show ?thesis
  proof (cases "\<exists>a t. task = Some (a, t) \<and> t \<le> start + window")
    case True
    then obtain a t where "task = Some (a, t)" "t \<le> start + window" by blast
    with assms(1) start show ?thesis by (auto simp: timeout_contract_def)
  next
    case False
    then have "\<forall>a t. task = Some (a, t) \<longrightarrow> start + window < t" by (auto simp: not_le)
    with assms(1) have "timeout window start task = (None, start + window)" unfolding timeout_contract_def by blast
    with start False show ?thesis by auto
  qed
qed

section \<open>Witness\<close>

text \<open>A \<open>Notify\<close> that numbers its notifications: a future is complete once the number has grown.\<close>

definition demo_notify :: "(nat, nat) notify_lib" where
  "demo_notify = \<lparr>nl_new = 0, nl_notified = (\<lambda>n. (n, n)), nl_notify_waiters = Suc, nl_ready = (\<lambda>n w. w < n)\<rparr>"

definition demo_schedule :: "nat \<Rightarrow> actor" where
  "demo_schedule k = (if k mod 3 = 2 then Signaller else Waiter (k mod 3))"

lemma demo_schedule_fair: "infinitely_often demo_schedule Signaller" "i < 2 \<Longrightarrow> infinitely_often demo_schedule (Waiter i)"
proof -
  have *: "\<exists>j\<ge>k. j mod 3 = r" if "r < 3" for k r :: nat
    using that by (intro exI [of _ "3 * k + r"]) simp
  show "infinitely_often demo_schedule Signaller"
    using * [of 2] by (force simp: infinitely_often_def demo_schedule_def)
  show "infinitely_often demo_schedule (Waiter i)" if "i < 2"
    using * [of i] that by (force simp: infinitely_often_def demo_schedule_def)
qed

theorem shutdown_reaches_every_waiter_witness:
  "\<exists>k. \<forall>j\<ge>k. sc_waiters (coordinator_run demo_notify demo_schedule 2 j) = [WaitDone, WaitDone]"
proof -
  have "notify_contract demo_notify (\<lambda>n w. w \<le> n)" by (auto simp: notify_contract_def demo_notify_def)
  from shutdown_reaches_every_waiter [OF this, of demo_schedule 2] demo_schedule_fair show ?thesis
    by (simp add: numeral_2_eq_2)
qed

end
