(* ===== verification/Daemon.thy ===== *)
theory Daemon
  imports AgentApi SeedLoader Shutdown
begin

text \<open>
  \<open>daemon.rs\<close>: how the process starts, what its periodic tasks do, and how it ends.  Start-up checks the
  configuration, opens the database, imports the seed catalog and the legacy tools, builds the state that the agent
  listener and the admin listeners share, and binds.  \<open>daemon_env\<close> holds the process environment, the file system,
  the database driver, the cryptographic libraries and the outcome of binding; the rows a start-up works on are those of the database once
  it is opened and migrated.  A start-up that never returns is
  \<open>None\<close>.
\<close>

section \<open>Environment and errors\<close>

datatype daemon_error =
    DaemonAdminConfig string
  | DaemonDatabase string
  | DaemonOperatorCreds string
  | DaemonIo string
  | DaemonServer string

record daemon_env =
  dn_vars :: "string \<Rightarrow> string option"
  dn_files :: file_sys
  dn_read :: "string \<Rightarrow> string + string"
  dn_mkdir_parent :: "string \<Rightarrow> string option"
  dn_open_and_migrate :: "string \<Rightarrow> string option"
  dn_sink :: "string \<Rightarrow> string option"
  dn_seed :: seed_env
  dn_argon2 :: argon2_lib
  dn_decodes :: "string \<Rightarrow> bool"
  dn_salt :: "8 word list"
  dn_operator_salt :: "8 word list"
  dn_operators :: "string \<Rightarrow> operator_record list option"
  dn_seal :: seal_lib
  dn_x509 :: x509_lib
  dn_regex :: regex_lib
  dn_op_read :: "string \<Rightarrow> string + string"
  dn_op_task :: bool
  dn_parse_ip :: "string \<Rightarrow> string option"
  dn_bind :: "string \<times> 16 word \<Rightarrow> string option"
  dn_to_str :: "string \<Rightarrow> string option"
  dn_debug :: "string \<Rightarrow> string"
  dn_auth_text :: "auth_error \<Rightarrow> string"
  dn_sealing_text :: "sealing_key_error \<Rightarrow> string"
  dn_mtls_text :: "mtls_error \<Rightarrow> string"
  dn_now :: int

fun seed_error_text :: "(string \<Rightarrow> string) \<Rightarrow> seed_load_error \<Rightarrow> string" where
  "seed_error_text dbg (SeedIo m) = ''io: '' @ m"
| "seed_error_text dbg (SeedParse m) = ''parse: '' @ m"
| "seed_error_text dbg (SeedEntryError n k e) = ''entry '' @ dbg n @ '' ('' @ k @ ''): '' @ registration_message e"
| "seed_error_text dbg (SeedBackend e) = ''backend: '' @ registration_message e"

section \<open>The admin substrate\<close>

record admin_setup =
  su_uds_state :: uds_state
  su_oauth_runtime :: "oauth_runtime option"

text \<open>A sealing key that is not set turns its feature off; one that cannot be read stops the start-up.\<close>

definition optional_key :: "(sealing_key_error \<Rightarrow> string) \<Rightarrow> string \<Rightarrow> sealing_key_error + 'a \<Rightarrow> daemon_error + 'a option" where
  "optional_key message what r =
    (case r of
       Inr k \<Rightarrow> Inr (Some k)
     | Inl (EnvVarUnset _) \<Rightarrow> Inr None
     | Inl e \<Rightarrow> Inl (DaemonAdminConfig (what @ '': '' @ message e)))"

definition import_registrations :: "daemon_env \<Rightarrow> app_config \<Rightarrow> db \<Rightarrow> (daemon_error + unit) \<times> db" where
  "import_registrations E cfg d =
    (case (case seed_path_from_env (dn_seed E) of
             None \<Rightarrow> (Inr (), d)
           | Some path \<Rightarrow>
               (case load_or_skip (dn_seed E) path d of
                  (Inr _, d1) \<Rightarrow> (Inr (), d1)
                | (Inl e, d1) \<Rightarrow>
                    (Inl (DaemonAdminConfig (''seed catalog load failed (path='' @ path @ ''): '' @ seed_error_text (dn_debug E) e)), d1))) of
       (Inl e, d1) \<Rightarrow> (Inl e, d1)
     | (Inr _, d1) \<Rightarrow>
         (case bootstrap_from_config_tools (dn_now E) cfg d1 of
            (Inr _, d2) \<Rightarrow> (Inr (), d2)
          | (Inl e, d2) \<Rightarrow> (Inl (DaemonAdminConfig (''legacy config.tools bootstrap: '' @ registration_message e)), d2)))"

definition open_sink :: "daemon_env \<Rightarrow> app_config \<Rightarrow> daemon_error + unit" where
  "open_sink E cfg =
    (case Option.bind (cf_audit cfg) ac_jsonl_path of
       None \<Rightarrow> Inr ()
     | Some path \<Rightarrow>
         (case dn_sink E path of None \<Rightarrow> Inr () | Some e \<Rightarrow> Inl (DaemonAdminConfig (''audit jsonl sink '' @ path @ '': '' @ e))))"

text \<open>The values of the configuration win over those of the registrations.\<close>

definition extend_creds :: "resolved_creds \<Rightarrow> resolved_creds \<Rightarrow> resolved_creds" where
  "extend_creds snap extra = extra ++ snap"

definition oauth_state_of :: "sealing_key \<Rightarrow> oauth_admin_state \<times> oauth_runtime" where
  "oauth_state_of key = (\<lparr>oas_sealing_key = key, oas_locks = \<lparr>lm_locks = []\<rparr>\<rparr>, \<lparr>ort_sealing_key = key, ort_locks = \<lparr>lm_locks = []\<rparr>\<rparr>)"

text \<open>Everything after the imports; the database is only read.\<close>

definition assemble :: "daemon_env \<Rightarrow> app_config \<Rightarrow> string \<Rightarrow> resolved_creds \<Rightarrow> db \<Rightarrow> daemon_error + admin_setup" where
  "assemble E cfg ops_path creds d =
    result_bind (open_sink E cfg) (\<lambda>_.
    result_bind (case with_audit (dn_argon2 E) (dn_decodes E) (dn_salt E) True of
                   Inr b \<Rightarrow> Inr b | Inl e \<Rightarrow> Inl (DaemonAdminConfig (''agent auth: '' @ dn_auth_text E e))) (\<lambda>bearer.
    result_bind (case load_with_audit (dn_argon2 E) (dn_decodes E) (dn_operator_salt E) (dn_operators E)
                        (case dn_read E ops_path of Inr t \<Rightarrow> Some t | Inl _ \<Rightarrow> None) True of
                   Inr o1 \<Rightarrow> Inr o1 | Inl e \<Rightarrow> Inl (DaemonOperatorCreds (dn_auth_text E e))) (\<lambda>operator_auth.
    result_bind (case catalog_from_repo d of
                   Inr c \<Rightarrow> Inr c | Inl e \<Rightarrow> Inl (DaemonAdminConfig (''catalog load: '' @ registration_message e))) (\<lambda>cat.
    result_bind (optional_key (dn_sealing_text E) ''oauth sealing key'' (sealing_from_env (dn_seal E) (dn_vars E))) (\<lambda>oauth_key.
    result_bind (optional_key (dn_sealing_text E) ''credential sealing key'' (credential_from_env (dn_seal E) (dn_vars E))) (\<lambda>cred_key.
      let log = emitter_new DEFAULT_CAPACITY;
          creds' = extend_creds creds (resolve_registration_creds_sync_env_only (dn_vars E) cat);
          resolver = resync_op_references (dn_op_read E) (dn_op_task E) cat (Some d) op_resolver_new
      in Inr \<lparr>su_uds_state =
                \<lparr>us_admin = \<lparr>sv_config = cfg, sv_audit = True, sv_resolved_creds = Some creds', sv_operational_log = Some log\<rparr>,
                 us_agent_auth = bearer, us_operator_auth = operator_auth, us_operator_mtls = None, us_registrations = True,
                 us_registry =
                   \<lparr>rs_catalog = Some cat, rs_resolved_creds = Some creds', rs_credential_sealing_key = cred_key,
                    rs_credential_secrets = (cred_key \<noteq> None), rs_operational_log = Some log, rs_op_resolver = Some resolver,
                    rs_agent_creds = True\<rparr>,
                 us_oauth = map_option (fst \<circ> oauth_state_of) oauth_key, us_operational_log_store = True\<rparr>,
              su_oauth_runtime = map_option (snd \<circ> oauth_state_of) oauth_key\<rparr>))))))"

definition build_admin_substrate ::
    "daemon_env \<Rightarrow> app_config \<Rightarrow> string \<Rightarrow> string \<Rightarrow> resolved_creds \<Rightarrow> db \<Rightarrow> (daemon_error + admin_setup) \<times> db" where
  "build_admin_substrate E cfg db_path ops_path creds d =
    (case dn_mkdir_parent E db_path of
       Some e \<Rightarrow> (Inl (DaemonIo e), d)
     | None \<Rightarrow>
         (case dn_open_and_migrate E db_path of
            Some e \<Rightarrow> (Inl (DaemonDatabase e), d)
          | None \<Rightarrow>
              (case import_registrations E cfg d of
                 (Inl e, d1) \<Rightarrow> (Inl e, d1)
               | (Inr _, d1) \<Rightarrow> (assemble E cfg ops_path creds d1, d1))))"

section \<open>Start-up\<close>

definition check_config :: "app_config \<Rightarrow> daemon_error + (string \<times> string) option" where
  "check_config cfg =
    (if ln_admin_socket (cf_listen cfg) = None then Inr None
     else
       (case cf_database_path cfg of
          None \<Rightarrow> Inl (DaemonAdminConfig (''listen.admin_socket is set but '' @ backtick @ ''database.path'' @ backtick @ '' is missing''))
        | Some db_path \<Rightarrow>
            (case cf_operator_credentials_path cfg of
               None \<Rightarrow> Inl (DaemonAdminConfig (''listen.admin_socket is set but '' @ backtick @ ''operator_credentials_path'' @ backtick @ '' is missing''))
             | Some ops_path \<Rightarrow> Inr (Some (db_path, ops_path)))))"

text \<open>The agent listener's certificate validator, built from the CA bundle.\<close>

definition agent_mtls :: "daemon_env \<Rightarrow> app_config \<Rightarrow> bool \<Rightarrow> daemon_error + mtls_authenticator option" where
  "agent_mtls E cfg audit_on =
    (if ln_auth_mode (cf_listen cfg) = ModeBearer then Inr None
     else
       (case ln_mtls (cf_listen cfg) of
          None \<Rightarrow> Inl (DaemonAdminConfig (''auth_mode mtls/both requires '' @ backtick @ ''listen.mtls'' @ backtick @ '' config block''))
        | Some m \<Rightarrow>
            (case dn_read E (mt_ca_bundle_path m) of
               Inl e \<Rightarrow> Inl (DaemonAdminConfig (''read mtls.ca_bundle_path '' @ mt_ca_bundle_path m @ '': '' @ e))
             | Inr ca_pem \<Rightarrow>
                 (case mtls_validator_new (dn_x509 E) ca_pem of
                    Inl e \<Rightarrow> Inl (DaemonAdminConfig (''mtls validator: '' @ dn_mtls_text E e))
                  | Inr validator \<Rightarrow>
                      (case cf_database_path cfg of
                         None \<Rightarrow> Inl (DaemonAdminConfig (''auth_mode mtls/both requires '' @ backtick @ ''database.path'' @ backtick))
                       | Some path \<Rightarrow>
                           (case dn_open_and_migrate E path of
                              Some e \<Rightarrow> Inl (DaemonDatabase e)
                            | None \<Rightarrow> Inr (Some \<lparr>ma_validator = validator, ma_audit = audit_on\<rparr>)))))))"

definition listen_addr :: "daemon_env \<Rightarrow> app_config \<Rightarrow> string \<times> 16 word" where
  "listen_addr E cfg =
    ((case dn_parse_ip E (ln_host (cf_listen cfg)) of Some ip \<Rightarrow> ip | None \<Rightarrow> ''127.0.0.1''), ln_port (cf_listen cfg))"

text \<open>A plain listener is bound here; a TLS listener is bound inside the task that serves it.\<close>

definition bind_agent :: "daemon_env \<Rightarrow> app_config \<Rightarrow> daemon_error + unit" where
  "bind_agent E cfg =
    (if ln_auth_mode (cf_listen cfg) = ModeBearer
     then (case dn_bind E (listen_addr E cfg) of None \<Rightarrow> Inr () | Some e \<Rightarrow> Inl (DaemonIo e))
     else
       (case ln_mtls (cf_listen cfg) of
          None \<Rightarrow> Inl (DaemonAdminConfig (''auth_mode mtls/both requires '' @ backtick @ ''listen.mtls'' @ backtick @ '' config block''))
        | Some m \<Rightarrow>
            if mt_server_cert_path m = None
            then Inl (DaemonAdminConfig (''auth_mode mtls/both requires '' @ backtick @ ''mtls.server_cert_path'' @ backtick))
            else if mt_server_key_path m = None
            then Inl (DaemonAdminConfig (''auth_mode mtls/both requires '' @ backtick @ ''mtls.server_key_path'' @ backtick))
            else (case dn_read E (mt_ca_bundle_path m) of Inl e \<Rightarrow> Inl (DaemonIo e) | Inr _ \<Rightarrow> Inr ())))"

fun auth_mode_debug :: "auth_mode \<Rightarrow> string" where
  "auth_mode_debug ModeBearer = ''Bearer''"
| "auth_mode_debug ModeMtls = ''Mtls''"
| "auth_mode_debug ModeBoth = ''Both''"

definition admin_https :: "daemon_env \<Rightarrow> app_config \<Rightarrow> uds_state \<Rightarrow> daemon_error + uds_state option" where
  "admin_https E cfg us =
    (case ln_admin_https (cf_listen cfg) of
       None \<Rightarrow> Inr None
     | Some c \<Rightarrow>
         if \<not> ah_enabled c then Inr None
         else if ah_auth_mode c = ModeBearer then Inr (Some us)
         else
           (case ah_mtls_ca_bundle_path c of
              None \<Rightarrow> Inl (DaemonAdminConfig (''admin_https.auth_mode='' @ auth_mode_debug (ah_auth_mode c)
                        @ '' requires admin_https.mtls.ca_bundle_path''))
            | Some path \<Rightarrow>
                (case dn_read E path of
                   Inl e \<Rightarrow> Inl (DaemonIo e)
                 | Inr ca_pem \<Rightarrow>
                     (case mtls_validator_new (dn_x509 E) ca_pem of
                        Inl e \<Rightarrow> Inl (DaemonAdminConfig (''admin_https.mtls.ca_bundle_path: '' @ dn_mtls_text E e))
                      | Inr validator \<Rightarrow> Inr (Some (us\<lparr>us_operator_mtls := Some (ah_auth_mode c, validator)\<rparr>))))))"

text \<open>What runs after a successful start: the agent listener, the admin listeners, the sweepers.\<close>

record running =
  rn_app :: app_state
  rn_uds :: "uds_state option"
  rn_https :: "uds_state option"
  rn_sweep_logs :: bool
  rn_sweep_credentials :: bool

definition config_loaded :: "app_config \<Rightarrow> bool \<Rightarrow> emitter \<Rightarrow> emitter" where
  "config_loaded cfg admin =
    emit \<lparr>le_level = Info, le_component = CompConfig, le_event = ''config_loaded'', le_message = ''daemon configuration loaded'',
      le_fields = Some (JObj [(''admin'', JBool admin), (''tools'', JNum (int (length (cf_tools cfg))))])\<rparr>"

definition agent_listener_of :: "daemon_env \<Rightarrow> app_config \<Rightarrow> bearer_authenticator option \<Rightarrow> mtls_authenticator option \<Rightarrow> listener" where
  "agent_listener_of E cfg bearer mtls =
    \<lparr>ls_config = cfg, ls_agent_auth = bearer, ls_mtls = mtls, ls_x509 = dn_x509 E, ls_mtls_message = dn_mtls_text E, ls_to_str = dn_to_str E\<rparr>"

definition share_log :: "emitter option \<Rightarrow> uds_state \<Rightarrow> uds_state" where
  "share_log log us = us\<lparr>us_admin := (us_admin us)\<lparr>sv_operational_log := log\<rparr>,
     us_registry := (us_registry us)\<lparr>rs_operational_log := log\<rparr>\<rparr>"

definition app_with_admin :: "daemon_env \<Rightarrow> app_config \<Rightarrow> admin_setup \<Rightarrow> mtls_authenticator option \<Rightarrow> emitter option \<Rightarrow> app_state" where
  "app_with_admin E cfg su mtls log =
    (let rs = us_registry (su_uds_state su) in
     build_app_full_with_phase_k (dn_regex E) (agent_listener_of E cfg (Some (us_agent_auth (su_uds_state su))) mtls) True
       (case rs_resolved_creds rs of Some m \<Rightarrow> m | None \<Rightarrow> Map.empty) True (case rs_catalog rs of Some c \<Rightarrow> c | None \<Rightarrow> [])
       (su_oauth_runtime su) True (rs_credential_sealing_key rs) (rs_credential_secrets rs) log (rs_op_resolver rs))"

definition start_with_admin :: "daemon_env \<Rightarrow> app_config \<Rightarrow> admin_setup \<Rightarrow> daemon_error + running" where
  "start_with_admin E cfg su =
    result_bind (agent_mtls E cfg True) (\<lambda>mtls.
      let log = map_option (config_loaded cfg True) (rs_operational_log (us_registry (su_uds_state su)));
          us = share_log log (su_uds_state su)
      in result_bind (bind_agent E cfg) (\<lambda>_.
         result_bind (admin_https E cfg us) (\<lambda>https.
           Inr \<lparr>rn_app = app_with_admin E cfg su mtls log, rn_uds = Some us, rn_https = https, rn_sweep_logs = True,
                rn_sweep_credentials = rs_credential_secrets (us_registry us)\<rparr>)))"

definition start_without_admin :: "daemon_env \<Rightarrow> app_config \<Rightarrow> daemon_error + running" where
  "start_without_admin E cfg =
    result_bind (agent_mtls E cfg False) (\<lambda>mtls.
    result_bind (bind_agent E cfg) (\<lambda>_.
      Inr \<lparr>rn_app = build_app_full_with_registrations (dn_regex E) (agent_listener_of E cfg None mtls) False Map.empty False,
           rn_uds = None, rn_https = None, rn_sweep_logs = False, rn_sweep_credentials = False\<rparr>))"

definition daemon_start :: "daemon_env \<Rightarrow> app_config \<Rightarrow> db \<Rightarrow> ((daemon_error + running) \<times> db) option" where
  "daemon_start E cfg d =
    (case check_config cfg of
       Inl e \<Rightarrow> Some (Inl e, d)
     | Inr None \<Rightarrow> Some (start_without_admin E cfg, d)
     | Inr (Some (db_path, ops_path)) \<Rightarrow>
         (case resolve_tool_creds (dn_vars E) (dn_files E) cfg (resolver_with_file_sealed file_sealed_new) of
            None \<Rightarrow> None
          | Some (creds, _) \<Rightarrow>
              (case build_admin_substrate E cfg db_path ops_path creds d of
                 (Inl e, d1) \<Rightarrow> Some (Inl e, d1)
               | (Inr su, d1) \<Rightarrow> Some (start_with_admin E cfg su, d1))))"

section \<open>Sweepers\<close>

definition audit_tick :: "audit_config \<Rightarrow> int \<Rightarrow> db \<Rightarrow> db" where
  "audit_tick cfg now_ms d = snd (sweep_older_than (now_ms - uint (ac_retention_days cfg) * (24 * 60 * 60 * 1000)) d)"

definition oplog_tick :: "operational_log_config \<Rightarrow> int \<Rightarrow> db \<Rightarrow> db" where
  "oplog_tick cfg now_ms d = snd (oplog_sweep (now_ms - uint (oc_retention_days cfg) * (24 * 60 * 60 * 1000)) d)"

definition MIN_ORPHAN_GRACE_SECONDS :: u64 where
  "MIN_ORPHAN_GRACE_SECONDS = 60"

text \<open>\<open>tombstoned_at\<close> is the clock reading of the repository.\<close>

definition orphan_grace :: "credential_store_config \<Rightarrow> int" where
  "orphan_grace cfg = (let g = uint (max (ccs_orphan_grace_seconds cfg) MIN_ORPHAN_GRACE_SECONDS) in
     if g < 2 ^ 63 then g else 2 ^ 63 - 1)"

definition credential_tick :: "credential_store_config \<Rightarrow> int \<Rightarrow> int \<Rightarrow> db \<Rightarrow> db" where
  "credential_tick cfg now_ms tombstoned_at d =
    (let now = now_ms div 1000;
         d1 = snd (tombstone_unreferenced tombstoned_at (max (now - orphan_grace cfg) (- (2 ^ 63))) d)
     in snd (sweep (now - uint (ccs_tombstone_retention_days cfg) * (24 * 60 * 60)) d1))"

section \<open>The end\<close>

text \<open>What a spawned listener ends with: its own result, or a panic.\<close>

datatype join_result = Joined "string + unit" | JoinPanicked

definition listener_failed :: "string \<Rightarrow> join_result option \<Rightarrow> daemon_error option" where
  "listener_failed what r = (case r of Some (Joined (Inl e)) \<Rightarrow> Some (DaemonServer (what @ '': '' @ e)) | _ \<Rightarrow> None)"

type_synonym listener_results = "join_result \<times> join_result option \<times> join_result option"

definition drained :: "listener_results \<Rightarrow> daemon_error + unit" where
  "drained r =
    (case r of (agent, uds, https) \<Rightarrow>
       (case listener_failed ''agent listener'' (Some agent) of
          Some e \<Rightarrow> Inl e
        | None \<Rightarrow>
            (case listener_failed ''admin listener'' uds of
               Some e \<Rightarrow> Inl e
             | None \<Rightarrow> (case listener_failed ''admin HTTPS listener'' https of Some e \<Rightarrow> Inl e | None \<Rightarrow> Inr ()))))"

definition daemon_exit ::
    "(nat \<Rightarrow> nat \<Rightarrow> listener_results task \<Rightarrow> listener_results option \<times> nat) \<Rightarrow> app_config \<Rightarrow> nat option \<Rightarrow> listener_results task
       \<Rightarrow> ((daemon_error + unit) \<times> nat) option" where
  "daemon_exit timeout cfg signalled task =
    (case await_shutdown_then_drain timeout (unat (cf_drain_window_seconds cfg)) signalled task of
       None \<Rightarrow> None
     | Some (Some r, at) \<Rightarrow> Some (drained r, at)
     | Some (None, at) \<Rightarrow> Some (Inr (), at))"

end
