(* ===== verification/DaemonRun.thy ===== *)
theory DaemonRun
  imports Daemon
begin

text \<open>
  The daemon once it serves (\<open>daemon.rs\<close>, composed with every listener and task it spawns): the agent listener, the
  admin listeners, the OAuth refresh task, the log writer and the sweepers interleave on one database and on shared
  in-memory cells.  \<open>daemon_step\<close> is one answer or tick of one of them, \<open>daemon_run\<close> a sequence of steps with its
  events.  The locales \<open>db_task\<close> and \<open>quiet_task\<close> are the contract of a task, interpreted for each of them; the lemmas
  about \<open>daemon_start\<close> give the state a run begins in.
\<close>

section \<open>Calls that leave the registrations alone\<close>

definition reg_view :: "db \<Rightarrow> reg_row list \<times> bool" where
  "reg_view d = (registrations d, db_down d)"

lemma reg_view_agent_writes [simp]:
  "reg_view (snd (create_inner C R now name de al dn me ex chk d)) = reg_view d"
  "reg_view (snd (update_agent P f e d)) = reg_view d"
  "reg_view (snd (update_policy_inner pid al' dn' me' ex' chk d)) = reg_view d"
  "reg_view (snd (mint_inner C R now scope who chk d)) = reg_view d"
  "reg_view (snd (bootstrap_revoke now pid d)) = reg_view d"
  "reg_view (note_event b ev d) = reg_view d"
  "reg_view (admin_audit sv ev d) = reg_view d"
  "reg_view (audit_for_operator sv oper ev d) = reg_view d"
  by (auto simp: reg_view_def create_inner_def update_agent_def update_policy_inner_def mint_inner_def bootstrap_revoke_def Let_def
      note_event_def audit_record_def admin_audit_def audit_for_operator_def split: sum.split)

lemma reg_view_binding_writes [simp]:
  "reg_view (snd (creds_set now aid reg spec d)) = reg_view d" "reg_view (snd (creds_delete aid reg d)) = reg_view d"
  "reg_view (snd (secret_insert bs now s n d)) = reg_view d" "reg_view (tombstone_old G r d) = reg_view d"
  by (auto simp: reg_view_def creds_set_def creds_delete_def secret_insert_def tombstone_old_def tombstone_if_unreferenced_def
      tombstone_where_def Let_def split: option.split)

lemma reg_view_rotate [simp]: "reg_view (snd (agent_rotate C R pid cur d)) = reg_view d"
  by (auto simp: reg_view_def agent_rotate_def rotate_commit_def Let_def split: sum.split)

lemma reg_view_pairs:
  "create_reviewed C R now name de al dn me ex d = (r1, d') \<Longrightarrow> reg_view d' = reg_view d"
  "consume L now' later pid s aid d = (r2, d') \<Longrightarrow> reg_view d' = reg_view d"
  "agent_rotate C R pid cur d = (r3, d') \<Longrightarrow> reg_view d' = reg_view d"
  "agent_revoke now pid d = (r4, d') \<Longrightarrow> reg_view d' = reg_view d"
  "set_cert_identity pid i d = (r4, d') \<Longrightarrow> reg_view d' = reg_view d"
  "update_policy_reviewed pid al' dn' me' ex' d = (r4, d') \<Longrightarrow> reg_view d' = reg_view d"
  "mint_reviewed C R now scope who d = (r5, d') \<Longrightarrow> reg_view d' = reg_view d"
  "bootstrap_revoke now pid d = (r4, d') \<Longrightarrow> reg_view d' = reg_view d"
proof -
  show "consume L now' later pid s aid d = (r2, d') \<Longrightarrow> reg_view d' = reg_view d"
    by (auto simp: reg_view_def consume_def consume_commit_def Let_def split: sum.splits if_splits)
qed (simp_all add: create_reviewed_def agent_revoke_def set_cert_identity_def update_policy_reviewed_def mint_reviewed_def
    | metis reg_view_agent_writes reg_view_rotate snd_conv)+

lemma register_inner_reg_view: "register_agent_inner E ri d = (r, d') \<Longrightarrow> reg_view d' = reg_view d"
  by (auto simp: register_agent_inner_def agent_revoke_def split: sum.splits prod.splits option.splits if_splits dest!: reg_view_pairs(1,2))

lemma service_reg_view:
  "reg_view (snd (snd (register_agent E ri sv d))) = reg_view d" "reg_view (snd (snd (rotate_agent E i cur sv d))) = reg_view d"
  "reg_view (snd (snd (deregister_agent E i sv d))) = reg_view d"
  "reg_view (snd (snd (create_agent_as_operator E oper ci sv d))) = reg_view d"
  "reg_view (snd (snd (modify_agent E oper pid mi sv d))) = reg_view d"
  "reg_view (snd (snd (set_agent_cert_identity E oper pid cert sv d))) = reg_view d"
  "reg_view (snd (snd (revoke_agent E oper pid sv d))) = reg_view d"
  "reg_view (snd (snd (mint_bootstrap_token E oper bi sv d))) = reg_view d"
  "reg_view (snd (snd (revoke_bootstrap_token E oper pid sv d))) = reg_view d"
  by (auto simp: register_agent_def rotate_agent_def deregister_agent_def create_agent_as_operator_def modify_agent_def
      set_agent_cert_identity_def revoke_agent_def mint_bootstrap_token_def revoke_bootstrap_token_def Let_def
      split: prod.split sum.split dest: reg_view_pairs register_inner_reg_view)

section \<open>The catalog that the listeners share\<close>

text \<open>An outage of the database makes nothing stale: the comparison is with the stored rows.\<close>

definition catalog_fresh :: "uds_state \<Rightarrow> db \<Rightarrow> bool" where
  "catalog_fresh us d = catalog_current (us_registry us) (d\<lparr>db_down := False\<rparr>)"

lemma catalog_fresh_cong:
  "registrations d' = registrations d \<Longrightarrow> rs_catalog (us_registry us') = rs_catalog (us_registry us) \<Longrightarrow> catalog_fresh us' d' = catalog_fresh us d"
  using catalog_from_repo_cong [of "d'\<lparr>db_down := False\<rparr>" "d\<lparr>db_down := False\<rparr>"] by (simp add: catalog_fresh_def catalog_current_def)

lemma reg_view_fresh:
  "reg_view d' = reg_view d \<Longrightarrow> rs_catalog (us_registry us') = rs_catalog (us_registry us) \<Longrightarrow> catalog_fresh us' d' = catalog_fresh us d"
  by (rule catalog_fresh_cong) (simp_all add: reg_view_def)

lemma registry_handle_down:
  assumes "registry_handle G k q rs d = (resp, rs', d')" and "db_down d"
  shows "registrations d' = registrations d \<and> rs_catalog rs' = rs_catalog rs"
proof -
  have "\<exists>e. registration_get n d = Inl e" "\<exists>e. registration_upsert r d = (Inl e, d)" for n r
    using assms(2) by (auto simp: registration_get_def registry_ops Let_def)
  then obtain g u where "\<And>n. registration_get n d = Inl (g n)" "\<And>r. registration_upsert r d = (Inl (u r), d)" by metis
  with assms show ?thesis
    by (cases q) (simp_all add: op_list_def op_get_registration_def op_put_def op_delete_def op_enable_def op_put_credential_def
      op_delete_credential_def Let_def split: sum.splits option.splits prod.splits if_splits)
qed

lemma registry_handle_fresh:
  assumes "registry_handle G k q rs d = (resp, rs', d')" and "catalog_current rs (d\<lparr>db_down := False\<rparr>)"
  shows "resp = activation_failed \<or> catalog_current rs' (d'\<lparr>db_down := False\<rparr>)"
proof (cases "db_down d")
  case True
  with registry_handle_down [OF assms(1)] have "registrations d' = registrations d" "rs_catalog rs' = rs_catalog rs" by auto
  then show ?thesis
    using assms(2) catalog_from_repo_cong [of "d'\<lparr>db_down := False\<rparr>" "d\<lparr>db_down := False\<rparr>"] by (simp add: catalog_current_def)
next
  case False
  with registry_handle_log [OF assms(1)] have "d\<lparr>db_down := False\<rparr> = d" "d'\<lparr>db_down := False\<rparr> = d'" by (simp_all add: log_view_def)
  with catalog_stays_current [OF _ assms(1)] assms(2) show ?thesis by simp
qed

definition registry_untouched :: "uds_state \<Rightarrow> db \<Rightarrow> uds_state \<Rightarrow> db \<Rightarrow> bool" where
  "registry_untouched us d us' d' \<longleftrightarrow> reg_view d' = reg_view d \<and> rs_catalog (us_registry us') = rs_catalog (us_registry us)"

lemma untouched_fresh: "registry_untouched us d us' d' \<Longrightarrow> catalog_fresh us' d' = catalog_fresh us d"
  unfolding registry_untouched_def by (rule reg_view_fresh) simp_all

lemma binding_handle_view:
  "op_set_agent_credential E key reg spec us d = (resp, us', d') \<Longrightarrow> registry_untouched us d us' d'"
  "op_unset_agent_credential E key reg us d = (resp, us', d') \<Longrightarrow> registry_untouched us d us' d'"
  "op_set_agent_stored_credential E key reg v h us d = (resp, us', d') \<Longrightarrow> registry_untouched us d us' d'"
proof -
  have cs: "reg_view d2 = reg_view d1" if "creds_set now aid r s d1 = (x, d2)" for now aid r s d1 x d2
    using that by (metis reg_view_binding_writes(1) snd_conv)
  have cd: "reg_view d2 = reg_view d1" if "creds_delete aid r d1 = (x, d2)" for aid r d1 x d2
    using that by (metis reg_view_binding_writes(2) snd_conv)
  have si: "reg_view d2 = reg_view d1" if "secret_insert bs now s n d1 = (x, d2)" for bs now s n d1 x d2
    using that by (metis reg_view_binding_writes(3) snd_conv)
  note defs = registry_untouched_def resync_bindings_def
  show "op_set_agent_credential E key reg spec us d = (resp, us', d') \<Longrightarrow> registry_untouched us d us' d'"
    by (auto simp: op_set_agent_credential_def defs split: sum.splits if_splits prod.splits dest!: cs)
  show "op_unset_agent_credential E key reg us d = (resp, us', d') \<Longrightarrow> registry_untouched us d us' d'"
    by (auto simp: op_unset_agent_credential_def Let_def defs split: sum.splits if_splits prod.splits dest!: cd)
  show "op_set_agent_stored_credential E key reg v h us d = (resp, us', d') \<Longrightarrow> registry_untouched us d us' d'"
    by (auto simp: op_set_agent_stored_credential_def Let_def defs split: sum.splits option.splits if_splits prod.splits dest!: cs si)
qed

lemma oauth_handle_view: "reg_view (snd (snd (oauth_handle E c q st d))) = reg_view d"
proof (cases q)
  case (OaBootstrap name l rt)
  with bootstrap_sessions [of E c name l rt st d] show ?thesis by (auto simp: reg_view_def)
qed (simp_all add: op_oauth_list_def op_oauth_status_def op_oauth_revoke_def oauth_delete_def reg_view_def Let_def)

lemma with_admin_view:
  assumes "with_admin f render us d = (resp, us', d')" and "reg_view (snd (snd (f (service_view us) d))) = reg_view d"
  shows "registry_untouched us d us' d'"
  using with_admin_parts [OF assms(1)] assms(2) by (simp add: registry_untouched_def)

lemma untouched_refl [simp]: "registry_untouched us d us d"
  by (simp add: registry_untouched_def)

lemma query_view:
  "op_query_audit E q us d = (resp, us', d') \<Longrightarrow> registry_untouched us d us' d'"
  "op_query_logs E q' us d = (resp, us', d') \<Longrightarrow> registry_untouched us d us' d'"
  by (auto simp: op_query_audit_def op_query_logs_def read_admin_def split: sum.splits prod.splits if_splits)

lemma operator_handle_view:
  assumes "operator_handle E q oper us d = (resp, us', d')" and "\<forall>k r. q \<noteq> OqRegistry k r"
  shows "registry_untouched us d us' d'"
proof (cases q)
  case (OqOauth r)
  with assms(1) show ?thesis
    using oauth_handle_view [of "av_oauth E" "case rs_catalog (us_registry us) of Some c \<Rightarrow> c | None \<Rightarrow> []" r "the (us_oauth us)" d]
    by (auto simp: op_oauth_def registry_untouched_def split: prod.splits option.splits)
qed (use assms in \<open>auto simp: read_admin_def op_list_agent_credentials_def service_reg_view
  intro: with_admin_view query_view binding_handle_view\<close>)

lemma operator_handle_fresh:
  assumes "operator_handle E q oper us d = (resp, us', d')" and "catalog_fresh us d"
  shows "resp = activation_failed \<or> catalog_fresh us' d'"
proof (cases "\<exists>k r. q = OqRegistry k r")
  case True
  then obtain k r where q: "q = OqRegistry k r" by blast
  obtain x rs d2 where h: "registry_handle (av_registry E) k r (us_registry us) d = (x, rs, d2)" by (metis prod_cases3)
  with q assms(1) have "resp = x" "us_registry us' = rs" "d' = d2" by (auto simp: op_registry_def)
  with registry_handle_fresh [OF h] assms(2) show ?thesis by (simp add: catalog_fresh_def)
next
  case False
  with operator_handle_view [OF assms(1)] untouched_fresh assms(2) show ?thesis by blast
qed

lemma audit_frame_view: "audit_frame d d' \<Longrightarrow> reg_view d' = reg_view d"
  by (auto simp: audit_frame_def reg_view_def)

lemma admin_dispatch_fresh:
  assumes "admin_dispatch E c req us d = (resp, us', d')" and "catalog_fresh us d"
  shows "resp = activation_failed \<or> catalog_fresh us' d'"
proof (cases req)
  case (Register input)
  with assms(1) have "registry_untouched us d us' d'"
    by (auto simp: admin_dispatch_def handle_register_def service_reg_view intro: with_admin_view)
  with assms(2) untouched_fresh show ?thesis by blast
next
  case (AgentCall q)
  have "us' = us \<and> registrations d' = registrations d"
  proof (cases "ac_authorization c")
    case None
    with AgentCall assms(1) show ?thesis by (auto simp: admin_dispatch_def agent_auth_middleware_def)
  next
    case (Some h)
    obtain r d1 where r: "authenticate_bearer (us_agent_auth us) (av_clock E) h d = (r, d1)" by (metis surj_pair)
    have reg: "registrations d1 = registrations d" by (rule same_authority_registrations [OF bearer.keeps [OF r]])
    show ?thesis
    proof (cases r)
      case (Inr i)
      with AgentCall Some assms(1) r have "agent_handle E q i us d1 = (resp, us', d')"
        by (simp add: admin_dispatch_def agent_auth_middleware_def)
      from agent_handle_confined [OF this] have "us' = us" "self_core d' = self_core d1" by (simp_all add: confined_def)
      from this(1) arg_cong [OF this(2), of registrations] reg show ?thesis by (simp add: self_core_def)
    qed (use AgentCall Some assms(1) r reg in \<open>auto simp: admin_dispatch_def agent_auth_middleware_def\<close>)
  qed
  then have "catalog_fresh us' d' = catalog_fresh us d" by (intro catalog_fresh_cong) simp_all
  with assms(2) show ?thesis by simp
next
  case (OperatorCall q)
  obtain r d1 where r: "operator_identify E c us d = (r, d1)" by (metis surj_pair)
  from operator_identify_sound [OF r] have "audit_frame d d1" by auto
  then have "catalog_fresh us d1" using assms(2) reg_view_fresh [of d1 d us us] by (simp add: audit_frame_view)
  with assms OperatorCall r show ?thesis
    by (auto simp: admin_dispatch_def operator_auth_middleware_def split: sum.splits if_splits dest: operator_handle_fresh)
qed

section \<open>Revoked agents stay revoked\<close>

definition keeps_revoked :: "db \<Rightarrow> db \<Rightarrow> bool" where
  "keeps_revoked d d' \<longleftrightarrow> (\<forall>pid. revoked pid d \<longrightarrow> revoked pid d')"

lemma keeps_revoked_refl [simp]: "keeps_revoked d d"
  by (simp add: keeps_revoked_def)

lemma keeps_revoked_trans: "keeps_revoked d d1 \<Longrightarrow> keeps_revoked d1 d2 \<Longrightarrow> keeps_revoked d d2"
  by (simp add: keeps_revoked_def)

lemma keeps_revoked_same: "agents d' = agents d \<Longrightarrow> keeps_revoked d d'"
  by (simp add: keeps_revoked_def revoked_def)

lemma keeps_revoked_step: "agent_step F d d' \<Longrightarrow> keeps_revoked d d'"
  by (auto simp: keeps_revoked_def intro: revoked_stays)

lemma revoked_audit [simp]:
  "revoked pid (note_event b ev d) = revoked pid d" "revoked pid (admin_audit sv ev d) = revoked pid d"
  "revoked pid (audit_for_operator sv oper ev d) = revoked pid d"
  by (simp_all add: revoked_def note_event_def audit_record_def admin_audit_def audit_for_operator_def Let_def)

lemma keeps_revoked_audit [simp]:
  "keeps_revoked d (note_event b ev d') = keeps_revoked d d'" "keeps_revoked d (admin_audit sv ev d') = keeps_revoked d d'"
  "keeps_revoked d (audit_for_operator sv oper ev d') = keeps_revoked d d'"
  by (simp_all add: keeps_revoked_def)

lemma keeps_revoked_writes:
  "keeps_revoked d (snd (create_reviewed C R now name de al dn me ex d))" "keeps_revoked d (snd (agent_revoke now pid d))"
  "keeps_revoked d (snd (set_cert_identity pid i d))" "keeps_revoked d (snd (update_policy_reviewed pid al' dn' me' ex' d))"
  "keeps_revoked d (snd (agent_rotate C R pid cur d))" "keeps_revoked d (snd (mint_reviewed C R now scope who d))"
  "keeps_revoked d (snd (bootstrap_revoke now pid d))"
proof -
  note step = keeps_revoked_step [of "\<lambda>_. True"]
  show "keeps_revoked d (snd (create_reviewed C R now name de al dn me ex d))"
    unfolding create_reviewed_def by (rule step, rule agent_step.ag_create) simp
  show "keeps_revoked d (snd (agent_revoke now pid d))" by (rule step, rule agent_step.ag_revoke)
  show "keeps_revoked d (snd (set_cert_identity pid i d))" by (rule step, rule agent_step.ag_cert)
  show "keeps_revoked d (snd (update_policy_reviewed pid al' dn' me' ex' d))"
    unfolding update_policy_reviewed_def by (rule step, rule agent_step.ag_policy)
  have "keeps_revoked d (snd (rotate_commit pid h m d))" for h m by (rule step, rule agent_step.ag_rotate) simp
  then show "keeps_revoked d (snd (agent_rotate C R pid cur d))" by (simp add: agent_rotate_def split: sum.split)
  show "keeps_revoked d (snd (mint_reviewed C R now scope who d))"
    by (rule keeps_revoked_same) (simp add: mint_reviewed_def mint_inner_def Let_def split: sum.split)
  show "keeps_revoked d (snd (bootstrap_revoke now pid d))" by (rule keeps_revoked_same) (simp add: bootstrap_revoke_def Let_def)
qed

lemma keeps_revoked_pairs:
  "create_reviewed C R now name de al dn me ex d = (r1, d') \<Longrightarrow> keeps_revoked d d'"
  "agent_revoke now pid d = (r4, d') \<Longrightarrow> keeps_revoked d d'"
  "set_cert_identity pid i d = (r4, d') \<Longrightarrow> keeps_revoked d d'"
  "update_policy_reviewed pid al' dn' me' ex' d = (r4, d') \<Longrightarrow> keeps_revoked d d'"
  "agent_rotate C R pid cur d = (r3, d') \<Longrightarrow> keeps_revoked d d'"
  "mint_reviewed C R now scope who d = (r5, d') \<Longrightarrow> keeps_revoked d d'"
  "bootstrap_revoke now pid d = (r4, d') \<Longrightarrow> keeps_revoked d d'"
  by (metis keeps_revoked_writes snd_conv)+

lemma register_inner_revoked: "register_agent_inner E ri d = (r, d') \<Longrightarrow> keeps_revoked d d'"
proof -
  have "keeps_revoked d (snd (agent_revoke now pid d2))" if "keeps_revoked d d1" "agents d2 = agents d1" for d1 d2 now pid
    using that keeps_revoked_same [of d2 d1] keeps_revoked_writes(2) [of d2 now pid] keeps_revoked_trans by metis
  moreover have "keeps_revoked d d2" if "keeps_revoked d d1" "agents d2 = agents d1" for d1 d2
    using that keeps_revoked_same keeps_revoked_trans by metis
  moreover assume "register_agent_inner E ri d = (r, d')"
  ultimately show ?thesis
    by (auto simp: register_agent_inner_def split: sum.splits prod.splits option.splits if_splits
        dest!: keeps_revoked_pairs(1) consume_agents)
qed

lemma service_revoked:
  "keeps_revoked d (snd (snd (register_agent E ri sv d)))" "keeps_revoked d (snd (snd (rotate_agent E i cur sv d)))"
  "keeps_revoked d (snd (snd (deregister_agent E i sv d)))" "keeps_revoked d (snd (snd (create_agent_as_operator E oper ci sv d)))"
  "keeps_revoked d (snd (snd (modify_agent E oper pid mi sv d)))"
  "keeps_revoked d (snd (snd (set_agent_cert_identity E oper pid cert sv d)))"
  "keeps_revoked d (snd (snd (revoke_agent E oper pid sv d)))" "keeps_revoked d (snd (snd (mint_bootstrap_token E oper bi sv d)))"
  "keeps_revoked d (snd (snd (revoke_bootstrap_token E oper pid sv d)))"
  by (auto simp: register_agent_def rotate_agent_def deregister_agent_def create_agent_as_operator_def modify_agent_def
      set_agent_cert_identity_def revoke_agent_def mint_bootstrap_token_def revoke_bootstrap_token_def Let_def
      split: prod.split sum.split dest: keeps_revoked_pairs register_inner_revoked)

lemma quiet_agents [simp]:
  "agents (snd (creds_set now aid reg spec d)) = agents d" "agents (snd (creds_delete aid reg d)) = agents d"
  "agents (snd (secret_insert bs now s n d)) = agents d" "agents (tombstone_old G r d) = agents d"
  by (auto simp: creds_set_def creds_delete_def secret_insert_def tombstone_old_def tombstone_if_unreferenced_def
      tombstone_where_def Let_def split: option.split)

lemma registry_handle_revoked: "registry_handle G k q rs d = (resp, rs', d') \<Longrightarrow> keeps_revoked d d'"
proof -
  have reg: "keeps_revoked d1 d2" if "registry_step d1 d2" for d1 d2
    using that by (intro keeps_revoked_step [of "\<lambda>_. True"] agent_step.ag_registry)
  have up: "keeps_revoked d1 d2" if "registration_upsert r d1 = (x, d2)" for r d1 x d2
    using reg [OF step_upsert, of d1 r] that by simp
  have de: "keeps_revoked d1 d2" if "registration_delete n d1 = (x, d2)" for n d1 x d2
    using reg [OF step_delete, of d1 n] that by simp
  have di: "keeps_revoked d1 d2" if "registration_set_disabled now n b d1 = (x, d2)" for now n b d1 x d2
    using reg [OF step_set_disabled, of d1 now n b] that by simp
  have si: "keeps_revoked d1 d2" if "secret_insert bs now s n d1 = (x, d2)" for bs now s n d1 x d2
    using that keeps_revoked_same quiet_agents(3) by (metis snd_conv)
  have tomb: "keeps_revoked d1 (tombstone_old G r d2)" if "keeps_revoked d1 d2" for d1 d2 r
    using that keeps_revoked_same [of "tombstone_old G r d2" d2] keeps_revoked_trans by simp
  assume "registry_handle G k q rs d = (resp, rs', d')"
  then show ?thesis
    by (cases q)
       (auto simp: op_list_def op_get_registration_def op_put_def op_delete_def op_enable_def op_put_credential_def
          op_delete_credential_def Let_def split: sum.splits option.splits prod.splits if_splits
          dest!: activate_db up de di si intro: tomb keeps_revoked_trans)
qed

lemma binding_handle_agents:
  "op_set_agent_credential E key reg spec us d = (resp, us', d') \<Longrightarrow> agents d' = agents d"
  "op_unset_agent_credential E key reg us d = (resp, us', d') \<Longrightarrow> agents d' = agents d"
  "op_set_agent_stored_credential E key reg v h us d = (resp, us', d') \<Longrightarrow> agents d' = agents d"
proof -
  have cs: "agents d2 = agents d1" if "creds_set now aid r s d1 = (x, d2)" for now aid r s d1 x d2
    using that by (metis quiet_agents(1) snd_conv)
  have cd: "agents d2 = agents d1" if "creds_delete aid r d1 = (x, d2)" for aid r d1 x d2
    using that by (metis quiet_agents(2) snd_conv)
  have si: "agents d2 = agents d1" if "secret_insert bs now s n d1 = (x, d2)" for bs now s n d1 x d2
    using that by (metis quiet_agents(3) snd_conv)
  show "op_set_agent_credential E key reg spec us d = (resp, us', d') \<Longrightarrow> agents d' = agents d"
    by (auto simp: op_set_agent_credential_def split: sum.splits if_splits prod.splits dest!: cs)
  show "op_unset_agent_credential E key reg us d = (resp, us', d') \<Longrightarrow> agents d' = agents d"
    by (auto simp: op_unset_agent_credential_def Let_def split: sum.splits if_splits prod.splits dest!: cd)
  show "op_set_agent_stored_credential E key reg v h us d = (resp, us', d') \<Longrightarrow> agents d' = agents d"
    by (auto simp: op_set_agent_stored_credential_def Let_def split: sum.splits option.splits if_splits prod.splits dest!: cs si)
qed

lemma oauth_handle_agents: "agents (snd (snd (oauth_handle E c q st d))) = agents d"
proof (cases q)
  case (OaBootstrap name l rt)
  with bootstrap_sessions [of E c name l rt st d] show ?thesis by auto
qed (simp_all add: op_oauth_list_def op_oauth_status_def op_oauth_revoke_def oauth_delete_def Let_def)

lemma operator_handle_revoked:
  assumes "operator_handle E q oper us d = (resp, us', d')"
  shows "keeps_revoked d d'"
proof (cases q)
  case (OqRegistry k r)
  with assms show ?thesis by (auto simp: op_registry_def split: prod.splits dest: registry_handle_revoked)
next
  case (OqOauth r)
  with assms show ?thesis
    using oauth_handle_agents [of "av_oauth E" "case rs_catalog (us_registry us) of Some c \<Rightarrow> c | None \<Rightarrow> []" r "the (us_oauth us)" d]
    by (auto simp: op_oauth_def intro: keeps_revoked_same split: prod.splits option.splits)
qed (use assms in \<open>auto simp: read_admin_def op_list_agent_credentials_def service_revoked
  dest!: with_admin_parts dest: query_unchanged binding_handle_agents [THEN keeps_revoked_same]\<close>)

lemma same_authority_revoked: "same_authority d d' \<Longrightarrow> keeps_revoked d d'"
proof -
  assume "same_authority d d'"
  then have "map (\<lambda>a. a\<lparr>ag_last_used_at := None\<rparr>) (agents d') = map (\<lambda>a. a\<lparr>ag_last_used_at := None\<rparr>) (agents d)"
    by (simp add: same_authority_def)
  from arg_cong [OF this, of "map (\<lambda>a. (ag_public_id a, ag_revoked_at a))"]
  have "set (map (\<lambda>a. (ag_public_id a, ag_revoked_at a)) (agents d')) = set (map (\<lambda>a. (ag_public_id a, ag_revoked_at a)) (agents d))"
    by (simp only: map_map comp_def) simp
  then show ?thesis
    by (auto simp: keeps_revoked_def revoked_def list_all_iff set_eq_iff image_iff) (metis (no_types, lifting))+
qed

lemma admin_dispatch_revoked:
  assumes "admin_dispatch E c req us d = (resp, us', d')"
  shows "keeps_revoked d d'"
proof (cases req)
  case (Register input)
  with assms show ?thesis
    by (auto simp: admin_dispatch_def handle_register_def service_revoked dest!: with_admin_parts)
next
  case (AgentCall q)
  have "keeps_revoked d1 d2" if "agent_handle E q i us d1 = (r, us2, d2)" for d1 i r us2 d2
    using that by (cases q) (auto simp: read_admin_def service_revoked dest!: with_admin_parts)
  with AgentCall assms show ?thesis
    by (auto simp: admin_dispatch_def agent_auth_middleware_def split: option.splits prod.splits sum.splits
        dest!: bearer.keeps same_authority_revoked intro: keeps_revoked_trans)
next
  case (OperatorCall q)
  obtain r d1 where r: "operator_identify E c us d = (r, d1)" by (metis surj_pair)
  from operator_identify_sound [OF r] have "keeps_revoked d d1" by (auto simp: audit_frame_def intro: keeps_revoked_same)
  with assms OperatorCall r show ?thesis
    by (auto simp: admin_dispatch_def operator_auth_middleware_def split: sum.splits if_splits
        dest!: operator_handle_revoked intro: keeps_revoked_trans)
qed

lemma agent_dispatch_revoked: "keeps_revoked d (pr_db (agent_dispatch A req st d))"
proof -
  obtain m d1 where mw: "auth_middleware (st_listener st) (ax_clock A) req d = (m, d1)" by fastforce
  have "proxy_frame d1 (pr_db (agent_dispatch A req st d))"
    unfolding agent_dispatch_def mw
    by (auto simp: route_handler_def answer_with_def proxy_handler_keeps split: admitted.splits agent_route.splits)
  then have "agents (pr_db (agent_dispatch A req st d)) = agents d1" by (simp add: proxy_frameD)
  then show ?thesis
    using same_authority_revoked [OF auth_middleware_keeps [OF mw]] keeps_revoked_same keeps_revoked_trans by blast
qed

lemma operator_revokes:
  assumes "admin_dispatch E c (OperatorCall (OqRevokeAgent pid)) us d = (resp, us', d')" and "hr_status resp = 204"
  shows "revoked pid d'"
proof -
  have no: "hr_status (error_response e) \<noteq> 204" "hr_status (admin_err_response e') \<noteq> 204" for e e'
    by (cases e; simp add: error_response_def json_response_def) (cases e'; simp add: admin_err_response_def json_response_def)
  from assms no(1) obtain oper d1 where "with_admin (revoke_agent (av_admin E) oper pid) (\<lambda>_. no_content) us d1 = (resp, us', d')"
    by (auto simp: admin_dispatch_def operator_auth_middleware_def split: sum.splits prod.splits)
  moreover obtain r d2 where r: "agent_revoke (an_revoke_at (av_admin E)) pid d1 = (r, d2)" by (metis surj_pair)
  ultimately have "r = Inr () \<and> revoked pid d' = revoked pid d2"
    using assms(2) no(2) by (cases r) (auto simp: with_admin_def revoke_agent_def admin_result_def)
  then show ?thesis using revoke_revokes [of "an_revoke_at (av_admin E)" pid d1] r by simp
qed

section \<open>One process\<close>

text \<open>What the daemon holds while it serves.  The agent listener and the admin listeners share the catalog, the resolved
  credentials, the operational log, the 1Password cache and the refresh locks; \<open>wd_uds\<close> has the shared cells, and the
  agent listener reads and writes them there.  The HTTPS admin listener differs from the socket only in how an
  operator is identified.\<close>

record daemon_world =
  wd_uds :: uds_state
  wd_https :: "(auth_mode \<times> mtls_validator) option option"
  wd_app :: app_state
  wd_db :: db

definition reads_shared :: "uds_state \<Rightarrow> app_state \<Rightarrow> app_state" where
  "reads_shared us st =
    (let rs = us_registry us in
     st\<lparr>st_resolved_creds := (case rs_resolved_creds rs of Some m \<Rightarrow> m | None \<Rightarrow> st_resolved_creds st),
        st_catalog := (case rs_catalog rs of Some c \<Rightarrow> c | None \<Rightarrow> st_catalog st),
        st_operational_log := rs_operational_log rs, st_op_resolver := rs_op_resolver rs,
        st_oauth := (case (st_oauth st, us_oauth us) of (Some r, Some a) \<Rightarrow> Some (r\<lparr>ort_locks := oas_locks a\<rparr>) | (r, _) \<Rightarrow> r)\<rparr>)"

definition writes_shared :: "app_state \<Rightarrow> uds_state \<Rightarrow> uds_state" where
  "writes_shared st us =
    us\<lparr>us_registry := (us_registry us)\<lparr>rs_operational_log := st_operational_log st\<rparr>,
       us_oauth := (case (us_oauth us, st_oauth st) of (Some a, Some r) \<Rightarrow> Some (a\<lparr>oas_locks := ort_locks r\<rparr>) | (a, _) \<Rightarrow> a)\<rparr>"

definition set_log :: "emitter option \<Rightarrow> uds_state \<Rightarrow> uds_state" where
  "set_log log us = us\<lparr>us_registry := (us_registry us)\<lparr>rs_operational_log := log\<rparr>\<rparr>"

definition world_of :: "running \<Rightarrow> uds_state \<Rightarrow> db \<Rightarrow> daemon_world" where
  "world_of rn us d = \<lparr>wd_uds = us, wd_https = map_option us_operator_mtls (rn_https rn), wd_app = rn_app rn, wd_db = d\<rparr>"

definition serving_app :: "daemon_world \<Rightarrow> app_state" where
  "serving_app w = reads_shared (wd_uds w) (wd_app w)"

datatype daemon_event = AdminAnswer http_response | AgentAnswer proxy_result | Background

text \<open>One task runs to its next answer or through one tick.  Every environment is arbitrary, and the database may go
  away and come back at any time.\<close>

inductive daemon_step :: "daemon_world \<Rightarrow> daemon_event \<Rightarrow> daemon_world \<Rightarrow> bool" where
  ds_socket: "admin_dispatch E c req (wd_uds w) (wd_db w) = (resp, us, d) \<Longrightarrow>
    daemon_step w (AdminAnswer resp) (w\<lparr>wd_uds := us, wd_db := d\<rparr>)"
| ds_https: "wd_https w = Some m \<Longrightarrow> admin_dispatch E c req ((wd_uds w)\<lparr>us_operator_mtls := m\<rparr>) (wd_db w) = (resp, us, d) \<Longrightarrow>
    daemon_step w (AdminAnswer resp) (w\<lparr>wd_uds := us\<lparr>us_operator_mtls := us_operator_mtls (wd_uds w)\<rparr>, wd_db := d\<rparr>)"
| ds_agent: "r = agent_dispatch A req (serving_app w) (wd_db w) \<Longrightarrow>
    daemon_step w (AgentAnswer r) (w\<lparr>wd_uds := writes_shared (pr_state r) (wd_uds w), wd_app := pr_state r, wd_db := pr_db r\<rparr>)"
| ds_refresh: "us_oauth (wd_uds w) = Some st \<Longrightarrow>
    refresh_tick L parse_url (oas_sealing_key st) env now (wd_db w, rs_operational_log (us_registry (wd_uds w))) = (d, log) \<Longrightarrow>
    daemon_step w Background (w\<lparr>wd_uds := set_log log (wd_uds w), wd_db := d\<rparr>)"
| ds_drain: "rs_operational_log (us_registry (wd_uds w)) = Some em \<Longrightarrow> drain_one now em (wd_db w) = (em', d) \<Longrightarrow>
    daemon_step w Background (w\<lparr>wd_uds := set_log (Some em') (wd_uds w), wd_db := d\<rparr>)"
| ds_audit_sweep: "daemon_step w Background (w\<lparr>wd_db := audit_tick ac now (wd_db w)\<rparr>)"
| ds_oplog_sweep: "daemon_step w Background (w\<lparr>wd_db := oplog_tick oc now (wd_db w)\<rparr>)"
| ds_credential_sweep: "rs_credential_secrets (us_registry (wd_uds w)) \<Longrightarrow>
    daemon_step w Background (w\<lparr>wd_db := credential_tick cc now at (wd_db w)\<rparr>)"
| ds_outage: "daemon_step w Background (w\<lparr>wd_db := (wd_db w)\<lparr>db_down := b\<rparr>\<rparr>)"

inductive daemon_run :: "daemon_world \<Rightarrow> daemon_event list \<Rightarrow> daemon_world \<Rightarrow> bool" where
  dr_refl: "daemon_run w [] w"
| dr_step: "daemon_run w evs w1 \<Longrightarrow> daemon_step w1 ev w2 \<Longrightarrow> daemon_run w (evs @ [ev]) w2"

section \<open>What every step keeps\<close>

text \<open>The parts that identify callers, fixed at start-up.\<close>

definition identity_services :: "daemon_world \<Rightarrow> listener \<times> bool \<times> bearer_authenticator \<times> operator_authenticator
    \<times> (auth_mode \<times> mtls_validator) option \<times> (auth_mode \<times> mtls_validator) option option" where
  "identity_services w = (st_listener (wd_app w), st_registrations (wd_app w), us_agent_auth (wd_uds w), us_operator_auth (wd_uds w),
     us_operator_mtls (wd_uds w), wd_https w)"

definition uds_identity :: "uds_state \<Rightarrow> bearer_authenticator \<times> operator_authenticator \<times> (auth_mode \<times> mtls_validator) option" where
  "uds_identity us = (us_agent_auth us, us_operator_auth us, us_operator_mtls us)"

lemma binding_handle_identity:
  "op_set_agent_credential E key reg spec us d = (resp, us', d') \<Longrightarrow> uds_identity us' = uds_identity us"
  "op_unset_agent_credential E key reg us d = (resp, us', d') \<Longrightarrow> uds_identity us' = uds_identity us"
  "op_set_agent_stored_credential E key reg v h us d = (resp, us', d') \<Longrightarrow> uds_identity us' = uds_identity us"
  by (auto simp: op_set_agent_credential_def op_unset_agent_credential_def op_set_agent_stored_credential_def resync_bindings_def
      uds_identity_def Let_def split: sum.splits option.splits if_splits prod.splits)

lemma with_admin_identity: "with_admin f render us d = (resp, us', d') \<Longrightarrow> uds_identity us' = uds_identity us"
  by (auto simp: with_admin_def uds_identity_def split: prod.splits)

lemma query_identity:
  "op_query_audit E q us d = (resp, us', d') \<Longrightarrow> uds_identity us' = uds_identity us"
  "op_query_logs E q' us d = (resp, us', d') \<Longrightarrow> uds_identity us' = uds_identity us"
  by (auto simp: op_query_audit_def op_query_logs_def read_admin_def split: sum.splits prod.splits if_splits)

lemma operator_handle_identity: "operator_handle E q oper us d = (resp, us', d') \<Longrightarrow> uds_identity us' = uds_identity us"
  by (cases q) (auto simp: read_admin_def op_list_agent_credentials_def op_registry_def op_oauth_def uds_identity_def
      split: prod.splits option.splits
      dest: with_admin_identity [unfolded uds_identity_def] query_identity [unfolded uds_identity_def]
        binding_handle_identity [unfolded uds_identity_def])

lemma admin_dispatch_identity:
  assumes "admin_dispatch E c req us d = (resp, us', d')"
  shows "uds_identity us' = uds_identity us"
proof (cases req)
  case (Register input)
  with assms show ?thesis by (auto simp: admin_dispatch_def handle_register_def dest: with_admin_identity)
next
  case (AgentCall q)
  with assms show ?thesis
    by (auto simp: admin_dispatch_def agent_auth_middleware_def split: option.splits prod.splits sum.splits dest: agent_handle_confined)
next
  case (OperatorCall q)
  with assms show ?thesis
    by (auto simp: admin_dispatch_def operator_auth_middleware_def split: sum.splits if_splits prod.splits dest: operator_handle_identity)
qed

lemma tick_item_frame: "proxy_frame (fst st) (fst (tick_item L parse_url key env threshold item st))"
proof -
  obtain name label d em where s: "item = (name, label)" "st = (d, em)" by (metis surj_pair)
  have deg: "proxy_frame d (snd (mark_degraded now name label d1))" if "proxy_frame d d1" for now d1
    using that proxy_frame_degraded proxy_frame_trans by blast
  show ?thesis
    unfolding s by (auto simp: tick_item_def split: sum.split option.split prod.split dest: proxy_frame_refresh intro: deg)
qed

lemma refresh_tick_frame: "refresh_tick L parse_url key env now (d, em) = (d', em') \<Longrightarrow> proxy_frame d d'"
proof -
  have fold: "proxy_frame (fst st) (fst (fold (tick_item L parse_url key env threshold) items st))" for items threshold st
  proof (induction items arbitrary: st)
    case (Cons i items)
    from Cons.IH [of "tick_item L parse_url key env threshold i st"] show ?case
      using tick_item_frame proxy_frame_trans by (metis comp_apply fold_simps(2))
  qed simp
  assume "refresh_tick L parse_url key env now (d, em) = (d', em')"
  then show ?thesis
    using fold [of "(d, em)"] by (auto simp: refresh_tick_def Let_def split: sum.splits) (metis fst_conv)
qed

lemma drain_one_keeps:
  assumes "drain_one now em d = (em', d')"
  shows "reg_view d' = reg_view d" "agents d' = agents d" "db_ok d' = db_ok d"
  using assms by (auto simp: drain_one_def oplog_insert_def reg_view_def db_ok_def split: list.splits if_splits)

lemma tick_keeps:
  "reg_view (audit_tick ac now d) = reg_view d" "agents (audit_tick ac now d) = agents d" "db_ok (audit_tick ac now d) = db_ok d"
  "reg_view (oplog_tick oc now d) = reg_view d" "agents (oplog_tick oc now d) = agents d" "db_ok (oplog_tick oc now d) = db_ok d"
  "reg_view (credential_tick cc now at d) = reg_view d" "agents (credential_tick cc now at d) = agents d"
  by (auto simp: audit_tick_def oplog_tick_def credential_tick_def sweep_older_than_def oplog_sweep_def tombstone_unreferenced_def
      sweep_def tombstone_where_def reg_view_def db_ok_def Let_def)

lemma tick_registrations:
  "registrations (audit_tick ac now d) = registrations d" "registrations (oplog_tick oc now d) = registrations d"
  "registrations (credential_tick cc now at d) = registrations d"
  using tick_keeps(1,4,7) by (simp_all add: reg_view_def)

lemma drain_one_registrations: "registrations (snd (drain_one now em d)) = registrations d"
  using drain_one_keeps(1) [OF prod.collapse [symmetric], of now em d] by (simp add: reg_view_def)

lemma credential_tick_db_ok: "db_ok d \<Longrightarrow> db_ok (credential_tick cc now at d)"
  unfolding credential_tick_def Let_def by (intro secret_step_db_ok [OF ss_sweep] secret_step_db_ok [OF ss_collect])

lemma db_ok_down [simp]: "db_ok (d\<lparr>db_down := b\<rparr>) = db_ok d"
  by (simp add: db_ok_def)

text \<open>What the process relies on of every task that runs against the shared database: it keeps the database well
  formed and it brings no revoked agent back.  A quiet task also leaves the registrations alone, so the shared catalog
  stays as fresh as it was.\<close>

locale db_task =
  fixes run :: "'i \<Rightarrow> db \<Rightarrow> db"
  assumes run_ok: "db_ok d \<Longrightarrow> db_ok (run i d)"
    and run_revoked: "keeps_revoked d (run i d)"
begin

lemma runs_ok: "db_ok d \<Longrightarrow> db_ok (fold run is d)"
  by (induction "is" arbitrary: d) (simp_all add: run_ok)

lemma runs_revoked: "keeps_revoked d (fold run is d)"
  by (induction "is" arbitrary: d) (auto intro: keeps_revoked_trans run_revoked)

end

locale quiet_task = db_task run for run :: "'i \<Rightarrow> db \<Rightarrow> db" +
  assumes run_registrations: "registrations (run i d) = registrations d"
begin

lemma run_fresh:
  "catalog_fresh us d \<Longrightarrow> rs_catalog (us_registry us') = rs_catalog (us_registry us) \<Longrightarrow> catalog_fresh us' (run i d)"
  using catalog_fresh_cong [OF run_registrations] by blast

end

interpretation admin_task: db_task "\<lambda>(E, c, req, us) d. snd (snd (admin_dispatch E c req us d))"
  by unfold_locales (auto intro: admin_dispatch_db_ok admin_dispatch_revoked prod.collapse [symmetric] simp: prod_eq_iff)

interpretation agent_task: quiet_task "\<lambda>(A, req, st) d. pr_db (agent_dispatch A req st d)"
  by unfold_locales (auto simp: agent_dispatch_keeps [OF refl] agent_dispatch_revoked)

interpretation refresh_task: quiet_task "\<lambda>(L, parse_url, key, env, now, em) d. fst (refresh_tick L parse_url key env now (d, em))"
proof unfold_locales
  have frame: "proxy_frame d (fst (refresh_tick L parse_url key env now (d, em)))" for L parse_url key env now d em
    by (rule refresh_tick_frame) (rule prod.collapse [symmetric])
  fix d and i :: "seal_lib \<times> (string \<Rightarrow> url_view option) \<times> sealing_key \<times> (string \<times> string \<Rightarrow> tick_env) \<times> int \<times> emitter option"
  show "db_ok d \<Longrightarrow> db_ok ((case i of (L, parse_url, key, env, now, em) \<Rightarrow> \<lambda>d. fst (refresh_tick L parse_url key env now (d, em))) d)"
    using proxy_frame_db_ok [OF frame] by (auto split: prod.split)
  show "keeps_revoked d ((case i of (L, parse_url, key, env, now, em) \<Rightarrow> \<lambda>d. fst (refresh_tick L parse_url key env now (d, em))) d)"
    using proxy_frameD(3) [OF frame] by (auto intro: keeps_revoked_same split: prod.split)
  show "registrations ((case i of (L, parse_url, key, env, now, em) \<Rightarrow> \<lambda>d. fst (refresh_tick L parse_url key env now (d, em))) d) = registrations d"
    using proxy_frameD(2) [OF frame] by (auto split: prod.split)
qed

interpretation log_task: quiet_task "\<lambda>(now, em) d. snd (drain_one now em d)"
  by unfold_locales (auto simp: drain_one_keeps [OF prod.collapse [symmetric]] drain_one_registrations intro: keeps_revoked_same)

interpretation audit_sweeper: quiet_task "\<lambda>(ac, now) d. audit_tick ac now d"
  by unfold_locales (auto simp: tick_keeps tick_registrations intro: keeps_revoked_same)

interpretation oplog_sweeper: quiet_task "\<lambda>(oc, now) d. oplog_tick oc now d"
  by unfold_locales (auto simp: tick_keeps tick_registrations intro: keeps_revoked_same)

interpretation credential_sweeper: quiet_task "\<lambda>(cc, now, at) d. credential_tick cc now at d"
  by unfold_locales (auto simp: tick_keeps tick_registrations credential_tick_db_ok intro: keeps_revoked_same)

text \<open>Every step runs one of these tasks, or changes the availability of the database.\<close>

lemma daemon_step_db:
  assumes "daemon_step w ev w'"
  shows "(db_ok (wd_db w) \<longrightarrow> db_ok (wd_db w')) \<and> keeps_revoked (wd_db w) (wd_db w')"
  using assms
proof (cases rule: daemon_step.cases)
  case (ds_socket E c req resp us d)
  with admin_task.run_ok [of "wd_db w" "(E, c, req, wd_uds w)"] admin_task.run_revoked [of "wd_db w" "(E, c, req, wd_uds w)"]
  show ?thesis by simp
next
  case (ds_https m E c req resp us d)
  let ?i = "(E, c, req, (wd_uds w)\<lparr>us_operator_mtls := m\<rparr>)"
  from ds_https admin_task.run_ok [of "wd_db w" ?i] admin_task.run_revoked [of "wd_db w" ?i] show ?thesis by simp
next
  case (ds_agent r A req)
  let ?i = "(A, req, serving_app w)"
  from ds_agent agent_task.run_ok [of "wd_db w" ?i] agent_task.run_revoked [of "wd_db w" ?i] show ?thesis by simp
next
  case (ds_refresh st L parse_url env now d log)
  let ?i = "(L, parse_url, oas_sealing_key st, env, now, rs_operational_log (us_registry (wd_uds w)))"
  from ds_refresh refresh_task.run_ok [of "wd_db w" ?i] refresh_task.run_revoked [of "wd_db w" ?i] show ?thesis by simp
next
  case (ds_drain em now em' d)
  with log_task.run_ok [of "wd_db w" "(now, em)"] log_task.run_revoked [of "wd_db w" "(now, em)"] show ?thesis by simp
next
  case (ds_audit_sweep ac now)
  with audit_sweeper.run_ok [of "wd_db w" "(ac, now)"] audit_sweeper.run_revoked [of "wd_db w" "(ac, now)"] show ?thesis by simp
next
  case (ds_oplog_sweep oc now)
  with oplog_sweeper.run_ok [of "wd_db w" "(oc, now)"] oplog_sweeper.run_revoked [of "wd_db w" "(oc, now)"] show ?thesis by simp
next
  case (ds_credential_sweep cc now at)
  with credential_sweeper.run_ok [of "wd_db w" "(cc, now, at)"] credential_sweeper.run_revoked [of "wd_db w" "(cc, now, at)"]
  show ?thesis by simp
next
  case (ds_outage b)
  then show ?thesis by (auto intro: keeps_revoked_same)
qed

lemmas daemon_step_db_ok = daemon_step_db [THEN conjunct1, THEN mp]
lemmas daemon_step_revoked = daemon_step_db [THEN conjunct2]

lemma daemon_step_identity:
  assumes "daemon_step w ev w'"
  shows "identity_services w' = identity_services w"
  using assms
proof (cases rule: daemon_step.cases)
  case (ds_agent r A req)
  from same_servicesD [OF agent_dispatch_keeps(1) [OF ds_agent(3)]]
  have "st_listener (pr_state r) = st_listener (wd_app w)" "st_registrations (pr_state r) = st_registrations (wd_app w)"
    by (simp_all add: serving_app_def reads_shared_def Let_def)
  with ds_agent show ?thesis by (simp add: identity_services_def writes_shared_def)
qed (auto simp: identity_services_def uds_identity_def set_log_def dest!: admin_dispatch_identity)

text \<open>Only a registry call whose activation failed leaves the catalog behind the stored registrations.\<close>

lemma fresh_operator_mtls [simp]: "catalog_fresh (us\<lparr>us_operator_mtls := m\<rparr>) d = catalog_fresh us d"
  by (simp add: catalog_fresh_def)

lemma daemon_step_fresh:
  assumes "daemon_step w ev w'" and "catalog_fresh (wd_uds w) (wd_db w)" and "ev \<noteq> AdminAnswer activation_failed"
  shows "catalog_fresh (wd_uds w') (wd_db w')"
  using assms(1)
proof (cases rule: daemon_step.cases)
  case (ds_socket E c req resp us d)
  with admin_dispatch_fresh [OF ds_socket(3) assms(2)] assms(3) show ?thesis by simp
next
  case (ds_https m E c req resp us d)
  with admin_dispatch_fresh [OF ds_https(4)] assms(2,3) show ?thesis by simp
next
  case (ds_agent r A req)
  with agent_task.run_fresh [OF assms(2), of "wd_uds w'" "(A, req, serving_app w)"] show ?thesis by (simp add: writes_shared_def)
next
  case (ds_refresh st L parse_url env now d log)
  with refresh_task.run_fresh [OF assms(2), of "wd_uds w'" "(L, parse_url, oas_sealing_key st, env, now, rs_operational_log (us_registry (wd_uds w)))"]
  show ?thesis by (simp add: set_log_def)
next
  case (ds_drain em now em' d)
  with log_task.run_fresh [OF assms(2), of "wd_uds w'" "(now, em)"] show ?thesis by (simp add: set_log_def)
next
  case (ds_audit_sweep ac now)
  with audit_sweeper.run_fresh [OF assms(2), of "wd_uds w'" "(ac, now)"] show ?thesis by simp
next
  case (ds_oplog_sweep oc now)
  with oplog_sweeper.run_fresh [OF assms(2), of "wd_uds w'" "(oc, now)"] show ?thesis by simp
next
  case (ds_credential_sweep cc now at)
  with credential_sweeper.run_fresh [OF assms(2), of "wd_uds w'" "(cc, now, at)"] show ?thesis by simp
next
  case (ds_outage b)
  with assms(2) show ?thesis by (simp add: catalog_fresh_def)
qed

lemma daemon_run_keeps:
  assumes "daemon_run w evs w'"
  shows "identity_services w' = identity_services w" and "keeps_revoked (wd_db w) (wd_db w')"
    and "db_ok (wd_db w) \<Longrightarrow> db_ok (wd_db w')"
    and "catalog_fresh (wd_uds w) (wd_db w) \<Longrightarrow> AdminAnswer activation_failed \<notin> set evs \<Longrightarrow> catalog_fresh (wd_uds w') (wd_db w')"
  using assms
  by (induction rule: daemon_run.induct)
     (auto simp: daemon_step_identity intro: daemon_step_db_ok daemon_step_fresh keeps_revoked_trans daemon_step_revoked)

section \<open>The start\<close>

lemma daemon_start_adminE:
  assumes "daemon_start E cfg d = Some (Inr rn, d0)" and "rn_uds rn = Some us"
  obtains db_path ops_path creds su mtls log https where "import_registrations E cfg d = (Inr (), d0)"
    "assemble E cfg ops_path creds d0 = Inr su" "agent_mtls E cfg True = Inr mtls" "us = share_log log (su_uds_state su)"
    "admin_https E cfg us = Inr https" "rn_app rn = app_with_admin E cfg su mtls log" "rn_https rn = https"
proof -
  from assms obtain db_path ops_path creds R su where c: "check_config cfg = Inr (Some (db_path, ops_path))"
    and b: "build_admin_substrate E cfg db_path ops_path creds d = (Inr su, d0)" and s: "start_with_admin E cfg su = Inr rn"
    by (auto simp: daemon_start_def start_without_admin_def split: sum.splits option.splits prod.splits)
  from b obtain u where i: "import_registrations E cfg d = (Inr u, d0)" "assemble E cfg ops_path creds d0 = Inr su"
    by (auto simp: build_admin_substrate_def split: option.splits prod.splits sum.splits)
  let ?log = "map_option (config_loaded cfg True) (rs_operational_log (us_registry (su_uds_state su)))"
  from s obtain mtls https where "agent_mtls E cfg True = Inr mtls" "admin_https E cfg (share_log ?log (su_uds_state su)) = Inr https"
    "rn = \<lparr>rn_app = app_with_admin E cfg su mtls ?log, rn_uds = Some (share_log ?log (su_uds_state su)), rn_https = https,
       rn_sweep_logs = True, rn_sweep_credentials = rs_credential_secrets (us_registry (share_log ?log (su_uds_state su)))\<rparr>"
    by (auto simp: start_with_admin_def Let_def)
  with i assms(2) show thesis by (intro that) auto
qed

lemma import_registrations_db_ok:
  assumes "import_registrations E cfg d = (r, d')" and "db_ok d"
  shows "db_ok d'"
  using assms
  by (auto simp: import_registrations_def split: option.splits prod.splits sum.splits dest: load_or_skip_db_ok bootstrap_tools_db_ok)

lemma assemble_InrD:
  assumes "assemble E cfg ops_path creds d = Inr su"
  shows "\<exists>c. catalog_from_repo d = Inr c \<and> rs_catalog (us_registry (su_uds_state su)) = Some c"
    and "us_operator_mtls (su_uds_state su) = None"
  using assms by (auto simp: assemble_def Let_def split: sum.splits)

lemma daemon_start_ready:
  assumes "daemon_start E cfg d = Some (Inr rn, d0)" and "rn_uds rn = Some us"
  shows "db_ok d \<Longrightarrow> db_ok d0" and "catalog_fresh us d0" and "st_registrations (rn_app rn)"
    and "ls_agent_auth (st_listener (rn_app rn)) = Some (us_agent_auth us)"
proof -
  from assms obtain ops_path creds su mtls log where i: "import_registrations E cfg d = (Inr (), d0)"
    "assemble E cfg ops_path creds d0 = Inr su" "us = share_log log (su_uds_state su)" "rn_app rn = app_with_admin E cfg su mtls log"
    by (rule daemon_start_adminE)
  show "db_ok d \<Longrightarrow> db_ok d0" by (rule import_registrations_db_ok [OF i(1)])
  from assemble_InrD(1) [OF i(2)] obtain c where c: "catalog_from_repo d0 = Inr c" "rs_catalog (us_registry (su_uds_state su)) = Some c" by blast
  then have "d0\<lparr>db_down := False\<rparr> = d0" by (simp add: catalog_from_repo_def registration_list_def split: if_splits)
  with c show "catalog_fresh us d0" by (simp add: catalog_fresh_def catalog_current_def i(3) share_log_def)
  show "st_registrations (rn_app rn)" "ls_agent_auth (st_listener (rn_app rn)) = Some (us_agent_auth us)"
    by (simp_all add: i(3,4) app_with_admin_def Let_def build_app_full_with_phase_k_def agent_listener_of_def share_log_def)
qed

text \<open>No validator that start-up builds knows a revocation list or a blocklist.\<close>

definition unrevoking :: "mtls_validator \<Rightarrow> bool" where
  "unrevoking V \<longleftrightarrow> mv_crl V = None \<and> mv_blocklist V = None"

lemma validator_new_unrevoking: "mtls_validator_new X pem = Inr V \<Longrightarrow> unrevoking V"
  by (auto simp: mtls_validator_new_def unrevoking_def Let_def split: if_splits)

lemma agent_mtls_unrevoking: "agent_mtls E cfg b = Inr (Some M) \<Longrightarrow> unrevoking (ma_validator M)"
  by (auto simp: agent_mtls_def split: if_splits option.splits sum.splits dest: validator_new_unrevoking)

lemma admin_https_unrevoking:
  "admin_https E cfg us = Inr (Some us') \<Longrightarrow> us_operator_mtls us' = Some (mode, V) \<Longrightarrow> us_operator_mtls us = None \<Longrightarrow> unrevoking V"
  by (auto simp: admin_https_def split: if_splits option.splits sum.splits dest: validator_new_unrevoking)

lemma daemon_start_listener:
  assumes "daemon_start E cfg d = Some (Inr rn, d0)" and "ls_mtls (st_listener (rn_app rn)) = Some M"
  shows "\<exists>b. agent_mtls E cfg b = Inr (Some M)"
  using assms
  by (auto simp: daemon_start_def start_without_admin_def start_with_admin_def app_with_admin_def app_constructors
      agent_listener_of_def Let_def split: sum.splits option.splits prod.splits)

lemma daemon_start_https:
  assumes "daemon_start E cfg d = Some (Inr rn, d0)" and "rn_https rn = Some us'" and "us_operator_mtls us' = Some (mode, V)"
  shows "unrevoking V"
proof -
  from assms(1,2) obtain us where us: "rn_uds rn = Some us"
    by (auto simp: daemon_start_def start_without_admin_def start_with_admin_def Let_def split: sum.splits option.splits prod.splits)
  from assms(1) us obtain ops_path creds su log where "assemble E cfg ops_path creds d0 = Inr su" "us = share_log log (su_uds_state su)"
    "admin_https E cfg us = Inr (rn_https rn)" by (rule daemon_start_adminE) blast
  moreover from this(1) have "us_operator_mtls (su_uds_state su) = None" by (rule assemble_InrD)
  ultimately show ?thesis using assms(2,3) by (auto simp: share_log_def intro: admin_https_unrevoking)
qed

definition without_revocation :: "app_config \<Rightarrow> app_config" where
  "without_revocation cfg = cfg\<lparr>cf_listen := (cf_listen cfg)\<lparr>ln_mtls :=
     map_option (\<lambda>m. m\<lparr>mt_crl_url := None, mt_blocklist_path := None\<rparr>) (ln_mtls (cf_listen cfg))\<rparr>\<rparr>"

lemma agent_mtls_without: "agent_mtls E (without_revocation cfg) b = agent_mtls E cfg b"
  by (cases "ln_mtls (cf_listen cfg)") (simp_all add: agent_mtls_def without_revocation_def split: sum.split option.split)

text \<open>C22. A configured revocation list or blocklist has no effect: whatever \<open>crl_url\<close> and \<open>blocklist_path\<close> say, a daemon
  that starts checks client certificates, of agents and of operators, with a validator that has neither, the one it
  builds when both settings are absent, and never refuses a certificate as revoked.\<close>

theorem revocation_settings_ignored:
  assumes "daemon_start E cfg d = Some (Inr rn, d0)"
  shows "(\<forall>M. ls_mtls (st_listener (rn_app rn)) = Some M \<longrightarrow>
      (\<exists>b. agent_mtls E (without_revocation cfg) b = Inr (Some M))
    \<and> mtls_validate X now (ma_validator M) der \<notin> {Inl (RevokedByCRL s), Inl (RevokedByBlocklist s)})
   \<and> (\<forall>us mode V. rn_https rn = Some us \<longrightarrow> us_operator_mtls us = Some (mode, V) \<longrightarrow>
      mtls_validate X now V der \<notin> {Inl (RevokedByCRL s), Inl (RevokedByBlocklist s)})"
proof -
  have "mtls_validate X now V der \<notin> {Inl (RevokedByCRL s), Inl (RevokedByBlocklist s)}" if "unrevoking V" for V
    using that by (auto simp: mtls_validate_def unrevoking_def extract_identity_def Let_def split: option.splits if_splits)
  then show ?thesis
    using daemon_start_listener [OF assms] daemon_start_https [OF assms] agent_mtls_unrevoking
    unfolding agent_mtls_without by blast
qed

section \<open>The end of the process\<close>


section \<open>Witnesses\<close>

definition demo_daemon_env :: daemon_env where
  "demo_daemon_env = \<lparr>dn_vars = (\<lambda>v. None), dn_files = \<lparr>fl_mode = (\<lambda>p. None), fl_read = (\<lambda>p. None)\<rparr>, dn_read = (\<lambda>p. Inr ''pem''),
     dn_mkdir_parent = (\<lambda>p. None), dn_open_and_migrate = (\<lambda>p. None), dn_sink = (\<lambda>p. None),
     dn_seed = demo_seed_env\<lparr>sd_exists := (\<lambda>p. False)\<rparr>, dn_argon2 = cr_argon2 demo_crypto, dn_decodes = (\<lambda>s. True), dn_salt = [],
     dn_operator_salt = [], dn_operators = (\<lambda>t. Some []), dn_seal = demo_seal,
     dn_x509 = demo_x509\<lparr>xl_pem := (\<lambda>t. Some [(''CERTIFICATE'', ''root'')])\<rparr>, dn_regex = pe_regex demo_proxy_env,
     dn_op_read = (\<lambda>r. Inl []), dn_op_task = True, dn_parse_ip = Some, dn_bind = (\<lambda>a. None), dn_to_str = Some, dn_debug = id,
     dn_auth_text = (\<lambda>e. []), dn_sealing_text = (\<lambda>e. []), dn_mtls_text = (\<lambda>e. []), dn_now = 100\<rparr>"

definition demo_mtls_config :: mtls_config where
  "demo_mtls_config = \<lparr>mt_ca_bundle_path = ''/etc/ca.pem'', mt_server_cert_path = Some ''/etc/cert.pem'', mt_server_key_path = Some ''/etc/key.pem'',
     mt_crl_url = Some ''https://ca.example.com/crl'', mt_crl_refresh_interval_seconds = 3600,
     mt_blocklist_path = Some ''/etc/blocklist'', mt_blocklist_reload_interval_seconds = 60\<rparr>"

definition demo_daemon_config :: "auth_mode \<Rightarrow> app_config" where
  "demo_daemon_config mode = (ls_config demo_listener)\<lparr>cf_listen := (cf_listen (ls_config demo_listener))\<lparr>ln_admin_socket := Some ''/run/admin.sock'',
       ln_auth_mode := mode, ln_mtls := Some demo_mtls_config\<rparr>,
     cf_operator_credentials_path := Some ''/etc/operators.yaml'', cf_database_path := Some ''/var/lib/locksmith.db''\<rparr>"

lemma demo_starts:
  "\<exists>rn us. daemon_start demo_daemon_env (demo_daemon_config mode) demo_agent_db = Some (Inr rn, demo_agent_db) \<and> rn_uds rn = Some us
     \<and> (mode \<noteq> ModeBearer \<longrightarrow> ls_mtls (st_listener (rn_app rn)) = Some \<lparr>ma_validator = \<lparr>mv_roots = [''root''], mv_crl = None, mv_blocklist = None\<rparr>, ma_audit = True\<rparr>)"
proof -
  let ?E = demo_daemon_env and ?c = "demo_daemon_config mode"
  have check: "check_config ?c = Inr (Some (''/var/lib/locksmith.db'', ''/etc/operators.yaml''))"
    by (simp add: check_config_def demo_daemon_config_def)
  have creds: "\<exists>R. resolve_tool_creds (dn_vars ?E) (dn_files ?E) ?c R0 = Some (Map.empty, R)" for R0
    by (simp add: resolve_tool_creds_def demo_daemon_config_def demo_listener_def)
  have import: "import_registrations ?E ?c demo_agent_db = (Inr (), demo_agent_db)"
    by (simp add: import_registrations_def seed_path_from_env_def load_or_skip_def demo_daemon_env_def demo_seed_env_def
        bootstrap_from_config_tools_def demo_daemon_config_def demo_listener_def)
  obtain c where cat: "catalog_from_repo demo_agent_db = Inr c"
    using demo_catalog_current catalog_from_repo_cong [of demo_agent_db demo_db]
    by (simp add: catalog_current_def demo_registry_def demo_agent_db_def)
  have hash: "argon2_hash (cr_argon2 demo_crypto) [] s = Inr (''phc'' @ s)" for s
    by (simp add: argon2_hash_def argon2_params_def demo_crypto_def)
  have keys: "optional_key t w (sealing_from_env demo_seal (\<lambda>v. None)) = Inr None"
    "optional_key t w (credential_from_env demo_seal (\<lambda>v. None)) = Inr None" for t w
    by (simp_all add: optional_key_def sealing_from_env_def credential_from_env_def sealing_from_env_var_def)
  have "\<exists>su. assemble ?E ?c ops Map.empty demo_agent_db = Inr su" for ops
    by (simp add: assemble_def open_sink_def demo_daemon_config_def demo_listener_def demo_daemon_env_def with_audit_def
        load_with_audit_def hash cat keys Let_def)
  then obtain su where su: "assemble ?E ?c ''/etc/operators.yaml'' Map.empty demo_agent_db = Inr su" by blast
  have mtls: "\<exists>m. agent_mtls ?E ?c True = Inr m \<and> (mode \<noteq> ModeBearer \<longrightarrow>
      m = Some \<lparr>ma_validator = \<lparr>mv_roots = [''root''], mv_crl = None, mv_blocklist = None\<rparr>, ma_audit = True\<rparr>)"
    by (simp add: agent_mtls_def demo_daemon_config_def demo_mtls_config_def demo_daemon_env_def mtls_validator_new_def)
  have bind: "bind_agent ?E ?c = Inr ()"
    by (simp add: bind_agent_def demo_daemon_config_def demo_mtls_config_def demo_daemon_env_def)
  have https: "admin_https ?E ?c us = Inr None" for us
    by (simp add: admin_https_def demo_daemon_config_def demo_listener_def)
  have fs: "dn_mkdir_parent ?E p = None" "dn_open_and_migrate ?E p = None" for p by (simp_all add: demo_daemon_env_def)
  have build: "build_admin_substrate ?E ?c ''/var/lib/locksmith.db'' ''/etc/operators.yaml'' Map.empty demo_agent_db = (Inr su, demo_agent_db)"
    using import su by (simp add: build_admin_substrate_def fs)
  from creds obtain R where R: "resolve_tool_creds (dn_vars ?E) (dn_files ?E) ?c (resolver_with_file_sealed file_sealed_new) = Some (Map.empty, R)" by blast
  from mtls obtain m where m: "agent_mtls ?E ?c True = Inr m" "mode \<noteq> ModeBearer \<longrightarrow>
      m = Some \<lparr>ma_validator = \<lparr>mv_roots = [''root''], mv_crl = None, mv_blocklist = None\<rparr>, ma_audit = True\<rparr>" by blast
  show ?thesis
    using m(2) by (simp add: daemon_start_def check R build start_with_admin_def m(1) bind https Let_def app_with_admin_def
        build_app_full_with_phase_k_def agent_listener_of_def)
qed

theorem revocation_settings_ignored_witness:
  "\<exists>rn M. daemon_start demo_daemon_env (demo_daemon_config ModeMtls) demo_agent_db = Some (Inr rn, demo_agent_db)
     \<and> ls_mtls (st_listener (rn_app rn)) = Some M
     \<and> mtls_validate demo_x509 50 (ma_validator M) ''der'' \<notin> {Inl (RevokedByCRL ''0a''), Inl (RevokedByBlocklist ''0a'')}"
proof -
  obtain rn where r: "daemon_start demo_daemon_env (demo_daemon_config ModeMtls) demo_agent_db = Some (Inr rn, demo_agent_db)"
    "ls_mtls (st_listener (rn_app rn)) = Some \<lparr>ma_validator = \<lparr>mv_roots = [''root''], mv_crl = None, mv_blocklist = None\<rparr>, ma_audit = True\<rparr>"
    using demo_starts [of ModeMtls] by auto
  with revocation_settings_ignored [OF r(1), of demo_x509 50 "''der''" "''0a''"] show ?thesis by blast
qed

definition demo_timeout :: "nat \<Rightarrow> nat \<Rightarrow> 'a task \<Rightarrow> 'a option \<times> nat" where
  "demo_timeout window start task =
    (case task of Some (a, at) \<Rightarrow> if at \<le> start + window then (Some a, max start at) else (None, start + window)
     | None \<Rightarrow> (None, start + window))"

lemma demo_timeout_contract: "timeout_contract demo_timeout"
  by (auto simp: timeout_contract_def demo_timeout_def split: option.split)


end
