(* ===== verification/BindingMigration.thy ===== *)
theory BindingMigration
  imports SeedLoader
begin

text \<open>
  \<open>binding_migration/\<close>: the offline upgrade that turns inherited credentials into explicit account bindings and old
  allowlists into reviewed grants.  A preview reads the database and the legacy configuration and writes a plan; the
  owner selects rows of it; applying the plan checks, in one transaction, that the plan is still what a preview would
  write, adds the selected bindings and grants, and records a receipt under the snapshot of the plan.
  \<open>migration_env\<close> holds the clock (read once per run), the digests, the codec of a receipt, the URL and header
  parsers, and the legacy configuration file.
\<close>

section \<open>Types\<close>

datatype migration_error = MigConflict | MigInvalid | MigDatabase

record mig_agent =
  ma_id :: int
  ma_public_id :: string
  ma_name :: string
  ma_tool_allowlist :: "string list option"
  ma_tool_denylist :: "string list option"
  ma_cert_identity :: "string option"
  ma_registered_at :: int
  ma_expires_at :: "int option"
  ma_revoked_at :: "int option"
  ma_grants_reviewed :: bool

record mig_registration =
  mr_name :: string
  mr_kind :: string
  mr_upstream :: string
  mr_egress :: string
  mr_auth :: "auth_spec option"
  mr_disabled :: bool
  mr_created_at :: int
  mr_updated_at :: int

record mig_entry =
  me_agent_id :: int
  me_registration :: string
  me_action :: string
  me_reason :: string
  me_auth_spec :: "auth_spec option"
  me_selected :: bool

datatype legacy_shape = ShapeNone | ShapeEnv | ShapeEnvTransformed | ShapeFile | ShapeString | ShapeUnsupported | ShapeNotInventoried

record mig_legacy =
  ml_name :: string
  ml_reason :: string
  ml_shape :: legacy_shape
  ml_reference :: "auth_spec option"

record grant_review =
  gr_agent_id :: int
  gr_allowlist :: "string list"
  gr_selected :: bool

record mig_binding =
  mb_agent_id :: int
  mb_registration :: string
  mb_auth :: "auth_spec option"
  mb_created_at :: int
  mb_updated_at :: int

record mig_stored =
  mst_secret_ref :: string
  mst_set_at :: int
  mst_tombstoned_at :: "int option"

record mig_session =
  mss_name :: string
  mss_session_label :: string
  mss_degraded :: bool
  mss_account_id :: "string option"
  mss_created_at :: int
  mss_updated_at :: int

record mig_snapshot =
  sn_agents :: "mig_agent list"
  sn_registrations :: "mig_registration list"
  sn_bindings :: "mig_binding list"
  sn_stored :: "mig_stored list"
  sn_sessions :: "mig_session list"
  sn_revision :: int

record registration_summary =
  sy_name :: string
  sy_kind :: string
  sy_disabled :: bool
  sy_auth_spec :: "auth_spec option"

record mig_plan =
  mp_format_version :: "8 word"
  mp_snapshot :: string
  mp_agents :: "mig_agent list"
  mp_registrations :: "registration_summary list"
  mp_entries :: "mig_entry list"
  mp_legacy :: "mig_legacy list"
  mp_notice :: string
  mp_grants :: "grant_review list"

record receipt =
  rc_reviewed :: string
  rc_after :: string

record migration_env =
  mg_now :: int
  mg_parse_url :: "string \<Rightarrow> url_view option"
  mg_header_name :: "string \<Rightarrow> bool"
  mg_digest_snapshot :: "mig_snapshot \<Rightarrow> string"
  mg_digest_plan :: "mig_plan \<Rightarrow> string"
  mg_receipt_text :: "receipt \<Rightarrow> string"
  mg_receipt_read :: "string \<Rightarrow> receipt option"
  mg_read :: "string \<Rightarrow> string option"
  mg_yaml :: "string \<Rightarrow> yaml option"

section \<open>Snapshot\<close>

definition acl :: "string list jcol option \<Rightarrow> migration_error + string list option" where
  "acl raw = (case raw of None \<Rightarrow> Inr None | Some (JVal l) \<Rightarrow> Inr (Some l) | Some JBad \<Rightarrow> Inl MigInvalid)"

definition mig_agent_of :: "agent_row \<Rightarrow> migration_error + mig_agent" where
  "mig_agent_of a =
    result_bind (acl (ag_tool_allowlist a)) (\<lambda>allow.
    result_bind (acl (ag_tool_denylist a)) (\<lambda>deny.
      Inr \<lparr>ma_id = ag_id a, ma_public_id = ag_public_id a, ma_name = ag_name a, ma_tool_allowlist = allow,
           ma_tool_denylist = deny, ma_cert_identity = ag_cert_identity a, ma_registered_at = ag_registered_at a,
           ma_expires_at = ag_expires_at a, ma_revoked_at = ag_revoked_at a, ma_grants_reviewed = ag_grants_reviewed a\<rparr>))"

definition jcol_ok :: "'a jcol \<Rightarrow> 'a option" where
  "jcol_ok c = (case c of JVal a \<Rightarrow> Some a | JBad \<Rightarrow> None)"

definition mig_registration_of :: "reg_row \<Rightarrow> mig_registration" where
  "mig_registration_of r =
    \<lparr>mr_name = rg_name r, mr_kind = rg_kind r, mr_upstream = rg_upstream r, mr_egress = rg_egress r,
     mr_auth = jcol_ok (rg_auth_json r), mr_disabled = rg_disabled r, mr_created_at = rg_created_at r,
     mr_updated_at = rg_updated_at r\<rparr>"

definition mig_binding_of :: "override_row \<Rightarrow> mig_binding" where
  "mig_binding_of b =
    \<lparr>mb_agent_id = ov_agent_id b, mb_registration = ov_registration b, mb_auth = jcol_ok (ov_auth_spec b),
     mb_created_at = ov_created_at b, mb_updated_at = ov_updated_at b\<rparr>"

definition mig_stored_of :: "secret_row \<Rightarrow> mig_stored" where
  "mig_stored_of s = \<lparr>mst_secret_ref = cs_secret_ref s, mst_set_at = cs_set_at s, mst_tombstoned_at = cs_tombstoned_at s\<rparr>"

definition mig_session_of :: "oauth_row \<Rightarrow> mig_session" where
  "mig_session_of s =
    \<lparr>mss_name = os_name s, mss_session_label = os_session_label s, mss_degraded = os_degraded s,
     mss_account_id = os_account_id s, mss_created_at = os_created_at s, mss_updated_at = os_updated_at s\<rparr>"

definition REVISION :: string where
  "REVISION = ''explicit_bindings/v1/revision''"

text \<open>\<open>str::parse::<i64>\<close>: an optional sign and at least one digit, within range.\<close>

definition parse_i64 :: "string \<Rightarrow> int option" where
  "parse_i64 s =
    (let (neg, ds) = (case s of [] \<Rightarrow> (False, [])
                      | c # r \<Rightarrow> if c = CHR ''-'' then (True, r) else if c = CHR ''+'' then (False, r) else (False, s))
     in if ds = [] \<or> \<not> list_all is_ascii_digit ds then None
        else let n = int (foldl (\<lambda>a c. 10 * a + (of_char c - 48)) (0 :: nat) ds);
                 v = (if neg then - n else n)
             in if - (2 ^ 63) \<le> v \<and> v < 2 ^ 63 then Some v else None)"

definition mig_revision :: "db \<Rightarrow> migration_error + int" where
  "mig_revision d =
    (case map_of (registrations_meta d) REVISION of
       None \<Rightarrow> Inr 0
     | Some v \<Rightarrow> (case parse_i64 v of Some n \<Rightarrow> if n > 0 then Inr n else Inl MigConflict | None \<Rightarrow> Inl MigConflict))"

definition snapshot_load :: "db \<Rightarrow> migration_error + mig_snapshot" where
  "snapshot_load d =
    (if db_down d then Inl MigDatabase
     else
       result_bind (collect_results (map mig_agent_of (sort_key ag_id (agents d)))) (\<lambda>as.
       result_bind (mig_revision d) (\<lambda>rev.
         Inr \<lparr>sn_agents = as, sn_registrations = map mig_registration_of (sort_key rg_name (registrations d)),
              sn_bindings = map mig_binding_of (sort_key ov_agent_id (sort_key ov_registration (overrides d))),
              sn_stored = map mig_stored_of (sort_key cs_secret_ref (credential_secrets d)),
              sn_sessions = map mig_session_of (sort_key os_name (sort_key os_session_label (oauth_sessions d))),
              sn_revision = rev\<rparr>)))"

section \<open>Sources\<close>

definition valid_env :: "string \<Rightarrow> bool" where
  "valid_env name \<longleftrightarrow> name \<noteq> [] \<and> CHR ''='' \<notin> set name \<and> CHR 0x00 \<notin> set name"

definition mig_stored_reason :: "mig_snapshot \<Rightarrow> string \<Rightarrow> string" where
  "mig_stored_reason s secret_ref =
    (if list_ex (\<lambda>r. mst_secret_ref r = secret_ref \<and> mst_tombstoned_at r = None) (sn_stored s)
     then ''sealed_value_unverified'' else ''missing_or_tombstoned_stored_source'')"

definition mig_consistency :: "migration_env \<Rightarrow> mig_snapshot \<Rightarrow> string \<Rightarrow> auth_spec \<Rightarrow> string \<Rightarrow> string + unit" where
  "mig_consistency E s name spec label =
    (if list_ex (\<lambda>b. mb_auth b = None) (sn_bindings s) then Inl ''oauth_selection_metadata_unavailable''
     else
       (case consensus (mg_parse_url E)
               (filter (\<lambda>a. oauth_session_label a = Some label)
                  (List.map_filter mb_auth (filter (\<lambda>b. mb_registration b = name) (sn_bindings s))) @ [spec]) of
          Inr _ \<Rightarrow> Inr ()
        | Inl _ \<Rightarrow> Inl ''conflicting_oauth_session_metadata''))"

definition mig_oauth_reason :: "migration_env \<Rightarrow> mig_snapshot \<Rightarrow> string \<Rightarrow> auth_spec \<Rightarrow> string" where
  "mig_oauth_reason E s name spec =
    (case oauth_session_label spec of
       None \<Rightarrow> ''oauth_owner_reselection_required''
     | Some label \<Rightarrow>
         if str_trim label = [] \<or> selected_parameters (mg_parse_url E) spec = None then ''oauth_owner_reselection_required''
         else
           (case mig_consistency E s name spec label of
              Inl reason \<Rightarrow> reason
            | Inr _ \<Rightarrow>
                (case find (\<lambda>r. mss_name r = name \<and> mss_session_label r = label) (sn_sessions s) of
                   Some session \<Rightarrow> if \<not> mss_degraded session then ''oauth_session_metadata_only'' else ''degraded_oauth_session''
                 | None \<Rightarrow> ''missing_oauth_session'')))"

fun sources_reason :: "migration_env \<Rightarrow> mig_snapshot \<Rightarrow> string \<Rightarrow> auth_spec \<Rightarrow> string" where
  "sources_reason E s name AuthNone = ''credential_free_explicit_selection''"
| "sources_reason E s name (Header h v) =
    (if mg_header_name E h \<and> valid_env v then ''env_value_unverified'' else ''invalid_source_reference'')"
| "sources_reason E s name (Bearer v) = (if valid_env v then ''env_value_unverified'' else ''invalid_source_reference'')"
| "sources_reason E s name (OpHeader h r) =
    (if mg_header_name E h \<and> validate_op_reference (OpHeader h r) = Inr () then ''op_value_unverified''
     else ''invalid_source_reference'')"
| "sources_reason E s name (OpBearer r) =
    (if validate_op_reference (OpBearer r) = Inr () then ''op_value_unverified'' else ''invalid_source_reference'')"
| "sources_reason E s name (StoredHeader h r) =
    (if mg_header_name E h then mig_stored_reason s r else ''invalid_source_reference'')"
| "sources_reason E s name (StoredBearer r) = mig_stored_reason s r"
| "sources_reason E s name spec = mig_oauth_reason E s name spec"

definition usable :: "string \<Rightarrow> bool" where
  "usable reason \<longleftrightarrow> reason \<in> {''credential_free_explicit_selection'', ''env_value_unverified'', ''op_value_unverified'',
     ''sealed_value_unverified'', ''oauth_session_metadata_only''}"

fun inherited :: "auth_spec \<Rightarrow> auth_spec" where
  "inherited (OauthPkce c r s a t None) = OauthPkce c r s a t (Some DEFAULT_SESSION_LABEL)"
| "inherited (OauthDeviceCode c s u t None) = OauthDeviceCode c s u t (Some DEFAULT_SESSION_LABEL)"
| "inherited spec = spec"

section \<open>Legacy configuration\<close>

text \<open>The accessors of a YAML value look through tags.\<close>

fun y_untag :: "yaml \<Rightarrow> yaml" where
  "y_untag (YTagged t v) = y_untag v"
| "y_untag v = v"

definition y_get :: "string \<Rightarrow> yaml \<Rightarrow> yaml option" where
  "y_get k v = (case y_untag v of YMap m \<Rightarrow> map_of m (YStr k) | _ \<Rightarrow> None)"

definition y_as_str :: "yaml \<Rightarrow> string option" where
  "y_as_str v = (case y_untag v of YStr s \<Rightarrow> Some s | _ \<Rightarrow> None)"

definition header_reference :: "yaml \<Rightarrow> string \<Rightarrow> auth_spec option" where
  "header_reference auth name = map_option (\<lambda>h. Header h name) (Option.bind (y_get ''header'' auth) y_as_str)"

definition legacy_environment :: "yaml \<Rightarrow> yaml \<Rightarrow> legacy_shape \<times> auth_spec option" where
  "legacy_environment auth env =
    ((case y_get ''prefix'' env of
        None \<Rightarrow> ShapeEnv
      | Some p \<Rightarrow> if y_untag p = YNull \<or> y_as_str p = Some [] then ShapeEnv else ShapeEnvTransformed),
     Option.bind (Option.bind (y_get ''var'' env) y_as_str) (header_reference auth))"

definition legacy_source :: "yaml option \<Rightarrow> legacy_shape \<times> auth_spec option" where
  "legacy_source auth =
    (case auth of
       None \<Rightarrow> (ShapeNone, Some AuthNone)
     | Some a \<Rightarrow>
         if y_untag a = YNull then (ShapeNone, Some AuthNone)
         else
           (case y_get ''value'' a of
              None \<Rightarrow> (ShapeUnsupported, None)
            | Some v \<Rightarrow>
                (case y_as_str v of
                   Some raw \<Rightarrow> (ShapeString, Option.bind (extract_single_env_var raw) (header_reference a))
                 | None \<Rightarrow>
                     (case y_untag v of
                        YMap m \<Rightarrow>
                          if length m \<noteq> 1 then (ShapeUnsupported, None)
                          else if map_of m (YStr ''from_file_sealed'') \<noteq> None then (ShapeFile, None)
                          else (case map_of m (YStr ''from_env'') of
                                  Some env \<Rightarrow> legacy_environment a env
                                | None \<Rightarrow> (ShapeUnsupported, None))
                      | _ \<Rightarrow> (ShapeUnsupported, None)))))"

definition legacy_tool :: "yaml \<Rightarrow> migration_error + mig_legacy" where
  "legacy_tool v =
    (case Option.bind (y_get ''name'' v) y_as_str of
       None \<Rightarrow> Inl MigInvalid
     | Some name \<Rightarrow>
         (case legacy_source (y_get ''auth'' v) of (shape, reference) \<Rightarrow>
            Inr \<lparr>ml_name = name,
                 ml_reason = (if shape = ShapeFile then ''unsupported_file_source_owner_mapping_and_registered_agent_required''
                              else ''identityless_legacy_path_register_authenticate_agent_and_select_source''),
                 ml_shape = shape, ml_reference = reference\<rparr>))"

definition legacy_inventory :: "migration_env \<Rightarrow> string option \<Rightarrow> migration_error + mig_legacy list" where
  "legacy_inventory E path =
    (case path of
       None \<Rightarrow>
         Inr [\<lparr>ml_name = ''config.tools'',
               ml_reason = ''not_inventoried_supply_legacy_config_or_review_identityless_paths_separately'',
               ml_shape = ShapeNotInventoried, ml_reference = None\<rparr>]
     | Some p \<Rightarrow>
         (case Option.bind (mg_read E p) (mg_yaml E) of
            None \<Rightarrow> Inl MigInvalid
          | Some yaml \<Rightarrow>
              (case y_get ''tools'' yaml of
                 None \<Rightarrow> Inr []
               | Some tools \<Rightarrow>
                   (case y_untag tools of
                      YSeq ts \<Rightarrow> result_bind (collect_results (map legacy_tool ts)) (\<lambda>rows.
                                   Inr (sort_key ml_name (sort_key ml_reason rows)))
                    | _ \<Rightarrow> Inl MigInvalid))))"

fun mig_equivalent :: "auth_spec option \<Rightarrow> auth_spec option \<Rightarrow> bool" where
  "mig_equivalent (Some AuthNone) (Some AuthNone) = True"
| "mig_equivalent (Some (Header a x)) (Some (Header b y)) = (eq_ignore_ascii_case a b \<and> x = y)"
| "mig_equivalent _ _ = False"

definition mapping_reason :: "mig_legacy list \<Rightarrow> mig_registration \<Rightarrow> string option" where
  "mapping_reason rows r =
    (case filter (\<lambda>l. ml_name l = mr_name r \<and> ml_shape l \<noteq> ShapeNotInventoried) rows of
       [] \<Rightarrow> None
     | [row] \<Rightarrow>
         if ml_shape row \<notin> {ShapeEnv, ShapeNone} then Some ''unsupported_legacy_wire_shape_owner_mapping_required''
         else if \<not> mig_equivalent (ml_reference row) (mr_auth r)
         then Some ''legacy_source_reference_mismatch_owner_mapping_required''
         else None
     | _ \<Rightarrow> Some ''ambiguous_legacy_source_owner_mapping_required'')"

section \<open>Inventory\<close>

definition route_reason :: "migration_env \<Rightarrow> mig_agent \<Rightarrow> mig_registration \<Rightarrow> string option" where
  "route_reason E a r =
    (if ma_revoked_at a \<noteq> None then Some ''agent_revoked''
     else if (case ma_expires_at a of Some t \<Rightarrow> t < mg_now E | None \<Rightarrow> False) then Some ''agent_expired''
     else if mr_disabled r then Some ''registration_disabled''
     else if (case ma_tool_denylist a of Some l \<Rightarrow> mr_name r \<in> set l | None \<Rightarrow> False) then Some ''in_denylist''
     else if (case ma_tool_allowlist a of Some l \<Rightarrow> mr_name r \<notin> set l | None \<Rightarrow> ma_grants_reviewed a)
     then Some ''not_in_allowlist''
     else None)"

definition classify :: "bool \<Rightarrow> string \<Rightarrow> string option \<Rightarrow> string \<times> string" where
  "classify existing source blocked =
    ((if existing then ''preserve'' else if blocked = None \<and> usable source then ''propose'' else ''skip''),
     (if \<not> usable source then source else case blocked of Some b \<Rightarrow> b | None \<Rightarrow> source))"

definition mig_entry_for :: "migration_env \<Rightarrow> mig_snapshot \<Rightarrow> mig_legacy list \<Rightarrow> mig_agent \<Rightarrow> mig_registration \<Rightarrow> mig_entry" where
  "mig_entry_for E s legacy a r =
    (let existing = find (\<lambda>b. mb_agent_id b = ma_id a \<and> mb_registration b = mr_name r) (sn_bindings s);
         auth = (case existing of Some b \<Rightarrow> mb_auth b | None \<Rightarrow> map_option inherited (mr_auth r));
         source = (case auth of Some spec \<Rightarrow> sources_reason E s (mr_name r) spec
                   | None \<Rightarrow> ''unsupported_or_malformed_source_owner_mapping_required'');
         blocked = (case route_reason E a r of Some b \<Rightarrow> Some b
                    | None \<Rightarrow> if existing = None then mapping_reason legacy r else None)
     in case classify (existing \<noteq> None) source blocked of (action, reason) \<Rightarrow>
          \<lparr>me_agent_id = ma_id a, me_registration = mr_name r, me_action = action, me_reason = reason,
           me_auth_spec = auth, me_selected = False\<rparr>)"

definition orphan_entry :: "mig_binding \<Rightarrow> mig_entry" where
  "orphan_entry b =
    \<lparr>me_agent_id = mb_agent_id b, me_registration = mb_registration b, me_action = ''preserve'',
     me_reason = ''missing_agent_or_registration_owner_mapping_required'', me_auth_spec = mb_auth b, me_selected = False\<rparr>"

definition plan_entries :: "migration_env \<Rightarrow> mig_snapshot \<Rightarrow> mig_legacy list \<Rightarrow> mig_entry list" where
  "plan_entries E s legacy =
    concat (map (\<lambda>a. map (mig_entry_for E s legacy a) (sn_registrations s)) (sn_agents s))
    @ map orphan_entry (filter (\<lambda>b. \<not> list_ex (\<lambda>r. mr_name r = mb_registration b) (sn_registrations s)
        \<or> \<not> list_ex (\<lambda>a. ma_id a = mb_agent_id b) (sn_agents s)) (sn_bindings s))"

text \<open>The notices are fixed texts.\<close>

definition PLAN_NOTICE :: string where
  "PLAN_NOTICE = ''Offline reference metadata only; stop daemon for cutover. Credential values, keys and provider availability have NOT been verified. Change only selected flags on proposed rows; unresolved/config-only routes require owner mapping and real agent authentication.''"

definition GRANT_NOTICE :: string where
  "GRANT_NOTICE = ''Offline finite HTTP grant review. Stop daemon; first run this binary's schema migration on isolated or stopped traffic. Change only selected flags: grants selects an agent's entire listed finite policy (including empty); entries selects additional proposed account bindings. Existing source references are preserved. Legacy bootstrap tokens must be minted anew. No credential/provider readiness is asserted. Current revocations and drift are authoritative; no rollback resurrection.''"

definition migration_plan :: "migration_env \<Rightarrow> mig_snapshot \<Rightarrow> mig_legacy list \<Rightarrow> mig_plan" where
  "migration_plan E s legacy =
    \<lparr>mp_format_version = 1, mp_snapshot = mg_digest_snapshot E s, mp_agents = sn_agents s,
     mp_registrations = map (\<lambda>r. \<lparr>sy_name = mr_name r, sy_kind = mr_kind r, sy_disabled = mr_disabled r, sy_auth_spec = mr_auth r\<rparr>)
       (sn_registrations s),
     mp_entries = sort_key me_agent_id (sort_key me_registration (plan_entries E s legacy)),
     mp_legacy = legacy, mp_notice = PLAN_NOTICE, mp_grants = []\<rparr>"

definition grant_plan :: "migration_env \<Rightarrow> mig_snapshot \<Rightarrow> mig_legacy list \<Rightarrow> mig_plan" where
  "grant_plan E s legacy =
    (migration_plan E s legacy)\<lparr>mp_format_version := 2,
      mp_grants := map (\<lambda>a. \<lparr>gr_agent_id = ma_id a,
          gr_allowlist = map mr_name (filter (\<lambda>r. mr_kind r \<noteq> ''infra'' \<and> route_reason E a r = None) (sn_registrations s)),
          gr_selected = False\<rparr>) (sn_agents s),
      mp_notice := GRANT_NOTICE\<rparr>"

definition selected_ok :: "migration_env \<Rightarrow> mig_snapshot \<Rightarrow> mig_entry \<Rightarrow> bool" where
  "selected_ok E s row =
    (case (find (\<lambda>a. ma_id a = me_agent_id row) (sn_agents s), find (\<lambda>r. mr_name r = me_registration row) (sn_registrations s),
           me_auth_spec row) of
       (Some a, Some r, Some spec) \<Rightarrow>
         me_action row = ''propose'' \<and> route_reason E a r = None \<and> usable (sources_reason E s (mr_name r) spec)
     | _ \<Rightarrow> False)"

definition validate_selected :: "migration_env \<Rightarrow> mig_snapshot \<Rightarrow> mig_plan \<Rightarrow> migration_error + unit" where
  "validate_selected E s p =
    (if list_all (selected_ok E s) (filter me_selected (mp_entries p)) then Inr () else Inl MigConflict)"

section \<open>Preview and apply\<close>

definition preview_mode :: "migration_env \<Rightarrow> string option \<Rightarrow> bool \<Rightarrow> db \<Rightarrow> migration_error + mig_plan" where
  "preview_mode E legacy_config grants d =
    (if db_down d then Inl MigDatabase
     else
       result_bind (legacy_inventory E legacy_config) (\<lambda>legacy.
       result_bind (snapshot_load d) (\<lambda>s.
         Inr (if grants then grant_plan E s legacy else migration_plan E s legacy))))"

definition insert_binding :: "int \<Rightarrow> mig_entry \<Rightarrow> db \<Rightarrow> (migration_error + unit) \<times> db" where
  "insert_binding now row d =
    (case me_auth_spec row of
       None \<Rightarrow> (Inl MigConflict, d)
     | Some spec \<Rightarrow>
         if db_down d \<or> list_ex (binding_key_is (me_agent_id row) (me_registration row)) (overrides d)
            \<or> me_agent_id row \<notin> ag_id ` set (agents d) then (Inl MigDatabase, d)
         else (Inr (), d\<lparr>overrides := overrides d @
                [\<lparr>ov_agent_id = me_agent_id row, ov_registration = me_registration row, ov_auth_spec = JVal spec,
                  ov_created_at = now, ov_updated_at = now\<rparr>]\<rparr>))"

fun insert_bindings :: "int \<Rightarrow> mig_entry list \<Rightarrow> db \<Rightarrow> (migration_error + unit) \<times> db" where
  "insert_bindings now [] d = (Inr (), d)"
| "insert_bindings now (row # rows) d =
    (case insert_binding now row d of (Inl e, d') \<Rightarrow> (Inl e, d') | (Inr _, d') \<Rightarrow> insert_bindings now rows d')"

definition apply_grant :: "grant_review \<Rightarrow> db \<Rightarrow> db" where
  "apply_grant g d =
    d\<lparr>agents := update_where (\<lambda>a. ag_id a = gr_agent_id g)
        (\<lambda>a. a\<lparr>ag_tool_allowlist := Some (JVal (gr_allowlist g)), ag_grants_reviewed := True\<rparr>) (agents d)\<rparr>"

definition RECEIPT_PREFIX :: string where
  "RECEIPT_PREFIX = ''explicit_bindings/v1/plan/''"

definition migration_receipt :: "migration_env \<Rightarrow> string \<Rightarrow> db \<Rightarrow> migration_error + receipt option" where
  "migration_receipt E key d =
    (case map_of (registrations_meta d) key of
       None \<Rightarrow> Inr None
     | Some raw \<Rightarrow> (case mg_receipt_read E raw of Some r \<Rightarrow> Inr (Some r) | None \<Rightarrow> Inl MigConflict))"

text \<open>The revision is written first, so the receipt describes the database with it; a receipt that exists is a key
  conflict.\<close>

definition migration_record :: "migration_env \<Rightarrow> string \<Rightarrow> mig_snapshot \<Rightarrow> mig_plan \<Rightarrow> db \<Rightarrow> (migration_error + unit) \<times> db" where
  "migration_record E key before p d =
    (if sn_revision before + 1 \<ge> 2 ^ 63 then (Inl MigConflict, d)
     else
       let d1 = d\<lparr>registrations_meta := bt_insert REVISION (dec_digits (nat (sn_revision before + 1))) (registrations_meta d)\<rparr> in
       case snapshot_load d1 of
         Inl e \<Rightarrow> (Inl e, d1)
       | Inr after \<Rightarrow>
           if map_of (registrations_meta d1) key \<noteq> None then (Inl MigDatabase, d1)
           else (Inr (), d1\<lparr>registrations_meta := bt_insert key
                   (mg_receipt_text E \<lparr>rc_reviewed = mg_digest_plan E p, rc_after = mg_digest_snapshot E after\<rparr>)
                   (registrations_meta d1)\<rparr>))"

definition unselect :: "mig_plan \<Rightarrow> mig_plan" where
  "unselect p = p\<lparr>mp_entries := map (\<lambda>e. e\<lparr>me_selected := False\<rparr>) (mp_entries p),
     mp_grants := map (\<lambda>g. g\<lparr>gr_selected := False\<rparr>) (mp_grants p)\<rparr>"

definition apply_run :: "migration_env \<Rightarrow> mig_plan \<Rightarrow> mig_legacy list \<Rightarrow> db \<Rightarrow> (migration_error + nat) \<times> db" where
  "apply_run E p legacy d =
    (case snapshot_load d of
       Inl e \<Rightarrow> (Inl e, d)
     | Inr current \<Rightarrow>
         (case validate_selected E current p of
            Inl e \<Rightarrow> (Inl e, d)
          | Inr _ \<Rightarrow>
              if mp_format_version p \<notin> {1, 2} \<or> mp_legacy p \<noteq> legacy
                 \<or> \<not> (list_ex me_selected (mp_entries p) \<or> list_ex gr_selected (mp_grants p))
              then (Inl MigConflict, d)
              else
                let key = RECEIPT_PREFIX @ mp_snapshot p in
                (case migration_receipt E key d of
                   Inl e \<Rightarrow> (Inl e, d)
                 | Inr (Some r) \<Rightarrow>
                     if rc_reviewed r \<noteq> mg_digest_plan E p \<or> rc_after r \<noteq> mg_digest_snapshot E current
                     then (Inl MigConflict, d) else (Inr 0, d)
                 | Inr None \<Rightarrow>
                     if unselect p \<noteq> (if mp_format_version p = 2 then grant_plan E current legacy else migration_plan E current legacy)
                     then (Inl MigConflict, d)
                     else
                       (case insert_bindings (mg_now E) (filter me_selected (mp_entries p)) d of
                          (Inl e, d1) \<Rightarrow> (Inl e, d1)
                        | (Inr _, d1) \<Rightarrow>
                            let d2 = fold apply_grant (filter gr_selected (mp_grants p)) d1 in
                            (case migration_record E key current p d2 of
                               (Inl e, d3) \<Rightarrow> (Inl e, d3)
                             | (Inr _, d3) \<Rightarrow> (Inr (length (filter me_selected (mp_entries p))), d3))))))"

text \<open>The transaction around it: an error rolls everything back.\<close>

definition migration_apply :: "migration_env \<Rightarrow> mig_plan \<Rightarrow> string option \<Rightarrow> db \<Rightarrow> (migration_error + nat) \<times> db" where
  "migration_apply E p legacy_config d =
    (if db_down d then (Inl MigDatabase, d)
     else
       (case legacy_inventory E legacy_config of
          Inl e \<Rightarrow> (Inl e, d)
        | Inr legacy \<Rightarrow>
            (case apply_run E p legacy d of (Inr n, d') \<Rightarrow> (Inr n, d') | (Inl e, _) \<Rightarrow> (Inl e, d))))"


section \<open>What a preview proposes\<close>

text \<open>The legacy policy of an agent row for a registration row: not revoked, not expired, enabled, not denied, and
  allowed by its list or, for an agent whose grants were never reviewed, by the absence of one.\<close>

definition eligible :: "int \<Rightarrow> agent_row \<Rightarrow> reg_row \<Rightarrow> bool" where
  "eligible now a r \<longleftrightarrow>
     ag_revoked_at a = None \<and> (\<forall>t. ag_expires_at a = Some t \<longrightarrow> now \<le> t) \<and> \<not> rg_disabled r
   \<and> (\<forall>l. ag_tool_denylist a = Some (JVal l) \<longrightarrow> rg_name r \<notin> set l)
   \<and> (case ag_tool_allowlist a of None \<Rightarrow> \<not> ag_grants_reviewed a | Some (JVal l) \<Rightarrow> rg_name r \<in> set l | Some JBad \<Rightarrow> False)"

lemma route_reason_eligible:
  assumes "mig_agent_of row = Inr a" and "route_reason E a (mig_registration_of r) = None"
  shows "eligible (mg_now E) row r"
proof -
  from assms(1) obtain al dl where lists: "acl (ag_tool_allowlist row) = Inr al" "acl (ag_tool_denylist row) = Inr dl"
    and a: "ma_tool_allowlist a = al" "ma_tool_denylist a = dl" "ma_revoked_at a = ag_revoked_at row"
      "ma_expires_at a = ag_expires_at row" "ma_grants_reviewed a = ag_grants_reviewed row"
    by (auto simp: mig_agent_of_def)
  have r: "mr_name (mig_registration_of r) = rg_name r" "mr_disabled (mig_registration_of r) = rg_disabled r"
    by (simp_all add: mig_registration_of_def)
  from assms(2) lists show ?thesis
    unfolding route_reason_def eligible_def a r
    by (auto simp: acl_def not_less split: if_splits option.splits jcol.splits)
qed

lemma snapshot_loadD:
  assumes "snapshot_load d = Inr s"
  shows "\<not> db_down d"
    and "a \<in> set (sn_agents s) \<Longrightarrow> \<exists>row\<in>set (agents d). mig_agent_of row = Inr a \<and> ag_id row = ma_id a"
    and "r \<in> set (sn_registrations s) \<Longrightarrow> \<exists>row\<in>set (registrations d). r = mig_registration_of row"
    and "set (sn_bindings s) = mig_binding_of ` set (overrides d)"
proof -
  from assms have up: "\<not> db_down d" by (auto simp: snapshot_load_def split: if_splits)
  with assms obtain as where as: "collect_results (map mig_agent_of (sort_key ag_id (agents d))) = Inr as" "sn_agents s = as"
    and rest: "sn_registrations s = map mig_registration_of (sort_key rg_name (registrations d))"
      "sn_bindings s = map mig_binding_of (sort_key ov_agent_id (sort_key ov_registration (overrides d)))"
    by (auto simp: snapshot_load_def)
  show "\<not> db_down d" by (rule up)
  show "\<exists>row\<in>set (agents d). mig_agent_of row = Inr a \<and> ag_id row = ma_id a" if "a \<in> set (sn_agents s)"
  proof -
    have "Inr a \<in> set (map mig_agent_of (sort_key ag_id (agents d)))"
      using collect_results_InrD [OF as(1)] that as(2) by auto
    then obtain row where "row \<in> set (agents d)" "mig_agent_of row = Inr a" by auto
    then show ?thesis by (auto simp: mig_agent_of_def)
  qed
  show "\<exists>row\<in>set (registrations d). r = mig_registration_of row" if "r \<in> set (sn_registrations s)"
    using that rest(1) by auto
  show "set (sn_bindings s) = mig_binding_of ` set (overrides d)" using rest(2) by simp
qed

lemma proposed_entry:
  assumes "e \<in> set (plan_entries E s legacy)" and "me_action e = ''propose''"
  obtains a r spec where "a \<in> set (sn_agents s)" "r \<in> set (sn_registrations s)" "me_agent_id e = ma_id a"
    "me_registration e = mr_name r" "route_reason E a r = None" "mr_auth r = Some spec" "me_auth_spec e = Some (inherited spec)"
proof -
  from assms obtain a r where ar: "a \<in> set (sn_agents s)" "r \<in> set (sn_registrations s)" "e = mig_entry_for E s legacy a r"
    by (auto simp: plan_entries_def orphan_entry_def)
  with assms(2) have "route_reason E a r = None" "me_auth_spec e = map_option inherited (mr_auth r)" "me_auth_spec e \<noteq> None"
    by (auto simp: mig_entry_for_def classify_def Let_def usable_def split: option.splits if_splits)
  with ar that show thesis by (auto simp: mig_entry_for_def classify_def Let_def)
qed

lemma entries_of_plan:
  assumes "unselect p = (if v then grant_plan E s legacy else migration_plan E s legacy)" and "e \<in> set (mp_entries p)"
  shows "\<exists>e0\<in>set (plan_entries E s legacy). me_agent_id e0 = me_agent_id e \<and> me_registration e0 = me_registration e
    \<and> me_action e0 = me_action e \<and> me_auth_spec e0 = me_auth_spec e"
proof -
  have "mp_entries (unselect p) = sort_key me_agent_id (sort_key me_registration (plan_entries E s legacy))"
    by (simp add: assms(1) migration_plan_def grant_plan_def)
  moreover have "mp_entries (unselect p) = map (\<lambda>e. e\<lparr>me_selected := False\<rparr>) (mp_entries p)" by (simp add: unselect_def)
  ultimately have "(\<lambda>e. e\<lparr>me_selected := False\<rparr>) ` set (mp_entries p) = set (plan_entries E s legacy)"
    by (metis set_map set_sort)
  with assms(2) have "e\<lparr>me_selected := False\<rparr> \<in> set (plan_entries E s legacy)" by blast
  then show ?thesis by (intro bexI [of _ "e\<lparr>me_selected := False\<rparr>"]) simp_all
qed

lemma grants_of_plan:
  assumes "unselect p = (if v then grant_plan E s legacy else migration_plan E s legacy)" and "g \<in> set (mp_grants p)"
  shows "\<exists>a\<in>set (sn_agents s). gr_agent_id g = ma_id a
    \<and> gr_allowlist g = map mr_name (filter (\<lambda>r. mr_kind r \<noteq> ''infra'' \<and> route_reason E a r = None) (sn_registrations s))"
proof -
  have g: "g\<lparr>gr_selected := False\<rparr> \<in> set (mp_grants (unselect p))" using assms(2) by (simp add: unselect_def)
  then obtain a where "a \<in> set (sn_agents s)" "g\<lparr>gr_selected := False\<rparr> = \<lparr>gr_agent_id = ma_id a,
      gr_allowlist = map mr_name (filter (\<lambda>r. mr_kind r \<noteq> ''infra'' \<and> route_reason E a r = None) (sn_registrations s)),
      gr_selected = False\<rparr>"
    by (auto simp: assms(1) grant_plan_def migration_plan_def split: if_splits)
  then show ?thesis by (cases g) auto
qed


section \<open>Applying a plan\<close>

definition new_binding :: "int \<Rightarrow> mig_entry \<Rightarrow> override_row" where
  "new_binding now e = \<lparr>ov_agent_id = me_agent_id e, ov_registration = me_registration e,
     ov_auth_spec = JVal (the (me_auth_spec e)), ov_created_at = now, ov_updated_at = now\<rparr>"

definition regrant :: "grant_review list \<Rightarrow> agent_row \<Rightarrow> agent_row" where
  "regrant gs a = fold (\<lambda>g a. if ag_id a = gr_agent_id g
     then a\<lparr>ag_tool_allowlist := Some (JVal (gr_allowlist g)), ag_grants_reviewed := True\<rparr> else a) gs a"

lemma insert_bindings_Inr:
  "insert_bindings now es d = (Inr u, d') \<Longrightarrow>
     d' = d\<lparr>overrides := overrides d @ map (new_binding now) es\<rparr>
   \<and> (\<forall>e\<in>set es. me_auth_spec e \<noteq> None \<and> (me_agent_id e, me_registration e) \<notin> override_key ` set (overrides d)
        \<and> me_agent_id e \<in> ag_id ` set (agents d))
   \<and> distinct (map (\<lambda>e. (me_agent_id e, me_registration e)) es)"
proof (induction es arbitrary: d)
  case (Cons e es)
  then obtain d1 where one: "insert_binding now e d = (Inr (), d1)" "insert_bindings now es d1 = (Inr u, d')"
    by (auto split: prod.splits sum.splits)
  then have d1: "d1 = d\<lparr>overrides := overrides d @ [new_binding now e]\<rparr>" and e: "me_auth_spec e \<noteq> None"
    "\<not> list_ex (binding_key_is (me_agent_id e) (me_registration e)) (overrides d)" "me_agent_id e \<in> ag_id ` set (agents d)"
    by (auto simp: insert_binding_def new_binding_def split: option.splits if_splits)
  from e(2) have "(me_agent_id e, me_registration e) \<notin> override_key ` set (overrides d)"
    by (auto simp: list_ex_iff binding_key_is_def override_key_def)
  with Cons.IH [OF one(2)] e d1 show ?case by (auto simp: override_key_def new_binding_def)
qed simp

lemma apply_grants_agents:
  "fold apply_grant gs d = d\<lparr>agents := map (regrant gs) (agents d)\<rparr>"
proof (induction gs arbitrary: d)
  case Nil
  show ?case by (simp add: regrant_def)
next
  case (Cons g gs)
  have "fold apply_grant (g # gs) d = (apply_grant g d)\<lparr>agents := map (regrant gs) (agents (apply_grant g d))\<rparr>"
    by (simp add: Cons.IH)
  also have "\<dots> = d\<lparr>agents := map (regrant (g # gs)) (agents d)\<rparr>"
    by (simp add: apply_grant_def update_where_def regrant_def comp_def)
  finally show ?case .
qed

lemma regrant_keeps [simp]:
  "ag_id (regrant gs a) = ag_id a" "ag_public_id (regrant gs a) = ag_public_id a" "ag_name (regrant gs a) = ag_name a"
  by (induction gs arbitrary: a) (auto simp: regrant_def)

lemma migration_record_Inr:
  assumes "migration_record E key before p d = (Inr u, d')"
  shows "d' = d\<lparr>registrations_meta := registrations_meta d'\<rparr>" and "map_of (registrations_meta d') key \<noteq> None"
  using assms by (auto simp: migration_record_def Let_def split: if_splits sum.splits)

text \<open>The two ways a run succeeds: the plan was applied before, or it is applied now.\<close>

lemma apply_run_Inr:
  assumes "apply_run E p legacy d = (Inr n, d')"
  obtains (replayed) "d' = d" "n = 0" "map_of (registrations_meta d) (RECEIPT_PREFIX @ mp_snapshot p) \<noteq> None"
  | (applied) s where "snapshot_load d = Inr s" "list_all (selected_ok E s) (filter me_selected (mp_entries p))"
      "unselect p = (if mp_format_version p = 2 then grant_plan E s legacy else migration_plan E s legacy)"
      "insert_bindings (mg_now E) (filter me_selected (mp_entries p)) d
         = (Inr (), d\<lparr>overrides := overrides d @ map (new_binding (mg_now E)) (filter me_selected (mp_entries p))\<rparr>)"
      "d' = d\<lparr>overrides := overrides d @ map (new_binding (mg_now E)) (filter me_selected (mp_entries p)),
             agents := map (regrant (filter gr_selected (mp_grants p))) (agents d), registrations_meta := registrations_meta d'\<rparr>"
      "n = length (filter me_selected (mp_entries p))"
      "map_of (registrations_meta d) (RECEIPT_PREFIX @ mp_snapshot p) = None"
      "map_of (registrations_meta d') (RECEIPT_PREFIX @ mp_snapshot p) \<noteq> None"
proof -
  from assms obtain s where s: "snapshot_load d = Inr s" by (auto simp: apply_run_def split: sum.splits)
  with assms have sel: "list_all (selected_ok E s) (filter me_selected (mp_entries p))"
    by (auto simp: apply_run_def validate_selected_def split: sum.splits if_splits)
  let ?key = "RECEIPT_PREFIX @ mp_snapshot p"
  show thesis
  proof (cases "map_of (registrations_meta d) ?key")
    case (Some raw)
    with assms s have "d' = d \<and> n = 0"
      by (auto simp: apply_run_def migration_receipt_def Let_def split: sum.splits if_splits option.splits)
    with Some replayed show thesis by simp
  next
    case None
    with assms s sel obtain d1 u d2 where un: "unselect p = (if mp_format_version p = 2 then grant_plan E s legacy else migration_plan E s legacy)"
      and ins: "insert_bindings (mg_now E) (filter me_selected (mp_entries p)) d = (Inr u, d1)"
      and rec: "migration_record E ?key s p (fold apply_grant (filter gr_selected (mp_grants p)) d1) = (Inr d2, d')"
      and n: "n = length (filter me_selected (mp_entries p))"
      by (auto simp: apply_run_def validate_selected_def migration_receipt_def Let_def split: sum.splits if_splits prod.splits)
    have d1: "d1 = d\<lparr>overrides := overrides d @ map (new_binding (mg_now E)) (filter me_selected (mp_entries p))\<rparr>"
      using insert_bindings_Inr [OF ins] by simp
    have d': "d' = d\<lparr>overrides := overrides d @ map (new_binding (mg_now E)) (filter me_selected (mp_entries p)),
        agents := map (regrant (filter gr_selected (mp_grants p))) (agents d), registrations_meta := registrations_meta d'\<rparr>"
      using migration_record_Inr(1) [OF rec] by (simp add: apply_grants_agents d1)
    show thesis
      by (rule applied [OF s sel un _ d' n None migration_record_Inr(2) [OF rec]]) (use ins d1 in simp)
  qed
qed


text \<open>A binding the plan may add: for an agent and a registration that have none, that the agent's policy allows now,
  with the registration's own source.  A grant it may give: enabled tools and models the agent's policy allows.\<close>

definition earned_binding :: "int \<Rightarrow> db \<Rightarrow> override_row \<Rightarrow> bool" where
  "earned_binding now d b \<longleftrightarrow> override_key b \<notin> override_key ` set (overrides d)
     \<and> (\<exists>a\<in>set (agents d). \<exists>r\<in>set (registrations d). \<exists>spec. ov_agent_id b = ag_id a \<and> ov_registration b = rg_name r
          \<and> eligible now a r \<and> rg_auth_json r = JVal spec \<and> ov_auth_spec b = JVal (inherited spec))"

definition earned_grant :: "int \<Rightarrow> db \<Rightarrow> grant_review \<Rightarrow> bool" where
  "earned_grant now d g \<longleftrightarrow> (\<forall>m\<in>set (gr_allowlist g). \<exists>a\<in>set (agents d). \<exists>r\<in>set (registrations d).
     ag_id a = gr_agent_id g \<and> rg_name r = m \<and> rg_kind r \<noteq> ''infra'' \<and> eligible now a r)"

lemma snapshot_route:
  assumes "snapshot_load d = Inr s" and "a \<in> set (sn_agents s)" and "r \<in> set (sn_registrations s)" and "route_reason E a r = None"
  obtains arow rrow where "arow \<in> set (agents d)" "ag_id arow = ma_id a" "rrow \<in> set (registrations d)"
    "r = mig_registration_of rrow" "eligible (mg_now E) arow rrow"
proof -
  from snapshot_loadD(2) [OF assms(1,2)] obtain arow where arow: "arow \<in> set (agents d)" "mig_agent_of arow = Inr a" "ag_id arow = ma_id a"
    by blast
  from snapshot_loadD(3) [OF assms(1,3)] obtain rrow where rrow: "rrow \<in> set (registrations d)" "r = mig_registration_of rrow" by blast
  have "eligible (mg_now E) arow rrow" using route_reason_eligible [OF arow(2)] assms(4) rrow(2) by simp
  with arow rrow that show thesis by blast
qed

lemma selected_binding_earned:
  assumes s: "snapshot_load d = Inr s" and p: "unselect p = (if v then grant_plan E s legacy else migration_plan E s legacy)"
    and e: "e \<in> set (mp_entries p)" "me_action e = ''propose''"
    and fresh: "(me_agent_id e, me_registration e) \<notin> override_key ` set (overrides d)"
  shows "earned_binding (mg_now E) d (new_binding (mg_now E) e)"
proof -
  from entries_of_plan [OF p e(1)] e(2) obtain a r spec where *: "a \<in> set (sn_agents s)" "r \<in> set (sn_registrations s)"
    "me_agent_id e = ma_id a" "me_registration e = mr_name r" "route_reason E a r = None" "mr_auth r = Some spec"
    "me_auth_spec e = Some (inherited spec)" by (auto elim!: proposed_entry)
  obtain arow rrow where rows: "arow \<in> set (agents d)" "ag_id arow = ma_id a" "rrow \<in> set (registrations d)"
    "r = mig_registration_of rrow" "eligible (mg_now E) arow rrow" by (rule snapshot_route [OF s *(1,2,5)])
  then have "mr_name r = rg_name rrow" "rg_auth_json rrow = JVal spec"
    using *(6) by (auto simp: mig_registration_of_def jcol_ok_def split: jcol.splits)
  with fresh rows * show ?thesis by (force simp: earned_binding_def new_binding_def override_key_def)
qed

lemma selected_grant_earned:
  assumes "snapshot_load d = Inr s" and "unselect p = (if v then grant_plan E s legacy else migration_plan E s legacy)"
    and "g \<in> set (mp_grants p)"
  shows "earned_grant (mg_now E) d g"
  unfolding earned_grant_def
proof
  fix m assume "m \<in> set (gr_allowlist g)"
  with grants_of_plan [OF assms(2,3)] obtain a r where *: "a \<in> set (sn_agents s)" "gr_agent_id g = ma_id a"
    "r \<in> set (sn_registrations s)" "m = mr_name r" "mr_kind r \<noteq> ''infra''" "route_reason E a r = None" by auto
  obtain arow rrow where "arow \<in> set (agents d)" "ag_id arow = ma_id a" "rrow \<in> set (registrations d)"
    "r = mig_registration_of rrow" "eligible (mg_now E) arow rrow" by (rule snapshot_route [OF assms(1) *(1,3,6)])
  with * show "\<exists>a\<in>set (agents d). \<exists>r\<in>set (registrations d).
      ag_id a = gr_agent_id g \<and> rg_name r = m \<and> rg_kind r \<noteq> ''infra'' \<and> eligible (mg_now E) a r"
    by (auto simp: mig_registration_of_def)
qed

lemma migration_apply_Inr:
  "migration_apply E p legacy_config d = (Inr n, d') \<Longrightarrow> \<exists>legacy. apply_run E p legacy d = (Inr n, d')"
  by (auto simp: migration_apply_def split: if_splits sum.splits prod.splits)

text \<open>C18. Applying a reviewed plan is all or nothing.  On an error the database is unchanged.  Otherwise the plan was
  applied before and nothing changes, or exactly the selected bindings and grants are added: each new binding is for an
  agent and a registration that has none, that the agent's policy allows now, with the registration's own source; each
  granted name is an enabled tool or model that the policy of that agent allowed; and nothing else changes but the
  receipts.\<close>

theorem migration_apply_exact:
  assumes "migration_apply E p legacy_config d = (res, d')"
  shows "case res of
      Inl e \<Rightarrow> d' = d
    | Inr n \<Rightarrow> d' = d \<and> n = 0 \<or>
        (let news = map (new_binding (mg_now E)) (filter me_selected (mp_entries p)); gs = filter gr_selected (mp_grants p) in
         n = length news \<and> (\<forall>b\<in>set news. earned_binding (mg_now E) d b) \<and> (\<forall>g\<in>set gs. earned_grant (mg_now E) d g)
         \<and> d' = d\<lparr>overrides := overrides d @ news, agents := map (regrant gs) (agents d), registrations_meta := registrations_meta d'\<rparr>)"
proof (cases res)
  case (Inl e)
  with assms show ?thesis by (auto simp: migration_apply_def split: if_splits sum.splits prod.splits)
next
  case (Inr n)
  with assms migration_apply_Inr obtain legacy where "apply_run E p legacy d = (Inr n, d')" by blast
  then show ?thesis
  proof (cases rule: apply_run_Inr)
    case replayed
    with Inr show ?thesis by simp
  next
    case (applied s)
    have "earned_binding (mg_now E) d (new_binding (mg_now E) e)" if "e \<in> set (filter me_selected (mp_entries p))" for e
    proof (rule selected_binding_earned [OF applied(1,3)])
      show "me_action e = ''propose''"
        using applied(2) that by (auto simp: list_all_iff selected_ok_def split: option.splits)
      show "(me_agent_id e, me_registration e) \<notin> override_key ` set (overrides d)"
        using insert_bindings_Inr [OF applied(4)] that by blast
    qed (use that in simp)
    moreover have "earned_grant (mg_now E) d g" if "g \<in> set (mp_grants p)" for g
      by (rule selected_grant_earned [OF applied(1,3) that])
    ultimately show ?thesis using Inr applied(5,6) by (auto simp: Let_def)
  qed
qed

text \<open>C19. A plan is applied at most once: after a successful run no plan written from the same snapshot changes the
  database again, whatever its selection, clock or legacy configuration.\<close>

theorem migration_applies_once:
  assumes "migration_apply E p legacy_config d = (Inr n, d')" and "mp_snapshot q = mp_snapshot p"
  shows "snd (migration_apply E2 q legacy_config2 d') = d'"
proof -
  from assms(1) migration_apply_Inr obtain legacy where "apply_run E p legacy d = (Inr n, d')" by blast
  then have key: "map_of (registrations_meta d') (RECEIPT_PREFIX @ mp_snapshot q) \<noteq> None"
    by (cases rule: apply_run_Inr) (simp_all add: assms(2))
  have "d'' = d'" if "apply_run E2 q l d' = (Inr m, d'')" for l m d''
    using that by (cases rule: apply_run_Inr) (use key in simp_all)
  then show ?thesis by (auto simp: migration_apply_def split: sum.splits prod.splits)
qed


lemma migration_apply_db_ok:
  assumes "migration_apply E p legacy_config d = (res, d')" and "db_ok d"
  shows "db_ok d'"
proof (cases res)
  case (Inl e)
  with assms show ?thesis by (auto simp: migration_apply_def split: if_splits sum.splits prod.splits)
next
  case (Inr n)
  with assms(1) migration_apply_Inr obtain legacy where "apply_run E p legacy d = (Inr n, d')" by blast
  then show ?thesis
  proof (cases rule: apply_run_Inr)
    case replayed
    with assms show ?thesis by simp
  next
    case (applied s)
    let ?news = "map (new_binding (mg_now E)) (filter me_selected (mp_entries p))"
    note ins = insert_bindings_Inr [OF applied(4)]
    have key: "override_key (new_binding now e) = (me_agent_id e, me_registration e)" for now e
      by (simp add: override_key_def new_binding_def)
    have "distinct (map override_key (overrides d @ ?news))"
      using ins assms(2) by (auto simp: db_ok_def key comp_def image_iff)
    moreover have "list_all (\<lambda>r. ov_agent_id r \<in> ag_id ` set (agents d)) (overrides d @ ?news)"
      using ins assms(2) by (auto simp: db_ok_def list_all_iff new_binding_def)
    ultimately have "db_ok (d\<lparr>overrides := overrides d @ ?news, agents := map (regrant (filter gr_selected (mp_grants p))) (agents d),
        registrations_meta := registrations_meta d'\<rparr>)"
      using assms(2) by (simp add: db_ok_def list_all_iff comp_def image_image)
    then show ?thesis by (subst applied(5))
  qed
qed

section \<open>Witnesses\<close>

definition demo_mig_env :: migration_env where
  "demo_mig_env = \<lparr>mg_now = 500, mg_parse_url = (\<lambda>u. None), mg_header_name = (\<lambda>h. True), mg_digest_snapshot = (\<lambda>s. ''digest''),
     mg_digest_plan = (\<lambda>p. ''plan''), mg_receipt_text = (\<lambda>r. rc_reviewed r @ '':'' @ rc_after r), mg_receipt_read = (\<lambda>t. None),
     mg_read = (\<lambda>p. None), mg_yaml = (\<lambda>t. None)\<rparr>"

definition demo_mig_db :: db where
  "demo_mig_db = empty_db\<lparr>registrations := [registration_to_row (registration_new 100 ''search'' Tool [] ''https://s.test'' (Bearer ''KEY''))],
     agents := [demo_agent\<lparr>ag_tool_allowlist := None, ag_grants_reviewed := False\<rparr>], next_agent_id := 2\<rparr>"

definition demo_mig_plan :: mig_plan where
  "demo_mig_plan = (case preview_mode demo_mig_env None True demo_mig_db of
     Inr p \<Rightarrow> p\<lparr>mp_entries := map (\<lambda>e. e\<lparr>me_selected := True\<rparr>) (mp_entries p), mp_grants := map (\<lambda>g. g\<lparr>gr_selected := True\<rparr>) (mp_grants p)\<rparr>)"

lemma demo_migration: "\<exists>d'. migration_apply demo_mig_env demo_mig_plan None demo_mig_db = (Inr 1, d')"
proof -
  have "fst (migration_apply demo_mig_env demo_mig_plan None demo_mig_db) = Inr 1" by code_simp
  then show ?thesis by (metis prod.collapse)
qed

theorem migration_apply_exact_witness:
  "\<exists>d'. migration_apply demo_mig_env demo_mig_plan None demo_mig_db = (Inr 1, d')
     \<and> (\<exists>b. overrides d' = [b] \<and> earned_binding 500 demo_mig_db b)"
proof -
  obtain d' where d': "migration_apply demo_mig_env demo_mig_plan None demo_mig_db = (Inr 1, d')" using demo_migration by blast
  have demo: "overrides demo_mig_db = []" "mg_now demo_mig_env = 500" by (simp_all add: demo_mig_db_def empty_db_def demo_mig_env_def)
  let ?news = "map (new_binding 500) (filter me_selected (mp_entries demo_mig_plan))"
  have "length ?news = 1" "\<forall>b\<in>set ?news. earned_binding 500 demo_mig_db b"
    and e: "d' = demo_mig_db\<lparr>overrides := ?news, agents := map (regrant (filter gr_selected (mp_grants demo_mig_plan)))
      (agents demo_mig_db), registrations_meta := registrations_meta d'\<rparr>"
    using migration_apply_exact [OF d'] demo by (simp_all add: Let_def)
  moreover have "overrides d' = ?news" by (subst e) simp
  ultimately have "length (overrides d') = 1 \<and> (\<forall>b\<in>set (overrides d'). earned_binding 500 demo_mig_db b)" by simp
  with d' show ?thesis by (auto simp: length_Suc_conv)
qed

theorem migration_applies_once_witness:
  "\<exists>d'. migration_apply demo_mig_env demo_mig_plan None demo_mig_db = (Inr 1, d')
     \<and> snd (migration_apply demo_mig_env demo_mig_plan None d') = d'"
proof -
  obtain d' where "migration_apply demo_mig_env demo_mig_plan None demo_mig_db = (Inr 1, d')" using demo_migration by blast
  with migration_applies_once [OF this refl] show ?thesis by blast
qed

end
