(* ===== verification/Spec2Isabelle.thy ===== *)
theory Spec2Isabelle
  imports DaemonRun BindingMigration
begin

text \<open>
  Verification of agent-locksmith, a proxy that holds the credentials of upstream services on behalf of software agents.
  The crate is under \<open>src/src\<close>; file names below are relative to it.

  \<^bold>\<open>The program.\<close>  Agents call the \<^emph>\<open>agent listener\<close> (\<open>app.rs\<close>, \<open>auth.rs\<close>, \<open>proxy.rs\<close>) with a token or a client certificate.  A
  request for \<open>/api/tool/path\<close> is admitted against the agent's reviewed grants, given the credential of the account selected
  for that agent and connection, and sent to the upstream of the connection.  Operators, and agents about themselves, call
  the \<^emph>\<open>admin listeners\<close> (\<open>admin/uds.rs\<close> over a Unix socket, the same routes over HTTPS), behind which are the admin service, the
  registry endpoints and the OAuth endpoints.  Both sides share one SQLite database, an in-memory catalog of
  registrations, the resolved credentials, the operational log, the cache of 1Password values and the OAuth refresh locks.
  Background tasks refresh OAuth tokens, drain the operational log and sweep old rows.  \<open>daemon.rs\<close> starts all of it, and
  \<open>shutdown.rs\<close> ends it.  A separate offline tool, \<open>binding_migration/\<close>, upgrades old databases.

  \<^bold>\<open>How it is modelled.\<close>  Strings are character lists, Rust's \<open>Result\<close> is a sum with the error on the left, 64-bit integers are
  \<open>64 word\<close>, times are integers.  The database is the record \<open>db\<close> of \<open>Store\<close>, one list of rows per table with the
  constraints and triggers of \<open>migrations/\<close>, and a flag \<open>db_down\<close> under which every statement fails; a repository operation maps a database to a
  result and a database.  A JSON column holds a value or unreadable text.  A handler maps its request, its state and the
  database to an answer, a state and a database; one call is one step, except where the code reads and commits in separate
  statements and a race matters (rotation, token consumption, the client cache, shutdown), where the two halves are
  separate definitions.  Library code is a parameter, collected in records such as \<open>argon2_lib\<close>, \<open>seal_lib\<close>, \<open>x509_lib\<close>,
  \<open>json_lib\<close>, \<open>regex_lib\<close>, \<open>notify_lib\<close>, or in the environment record of a component (\<open>proxy_env\<close>, \<open>admin_env\<close>, \<open>registry_env\<close>, \<open>agent_env\<close>,
  \<open>daemon_env\<close>), together with clocks and random bytes; where a property needs something of it, a named contract says so
  (\<open>seal_contract\<close>, \<open>notify_contract\<close>, \<open>timeout_contract\<close>) and its witness instantiates it.

  \<^bold>\<open>Theories.\<close>
  \<^item> \<open>Prelude\<close>: standard-library functions on strings, results, JSON and ordered maps; the locale \<open>keyed_store\<close>.
  \<^item> \<open>Tokens\<close> (\<open>token.rs\<close>, \<open>argon2_helper.rs\<close>): the wire format of tokens and its round trip, secret hashing.
  \<^item> \<open>AuthSpecs\<close>, \<open>Store\<close>, \<open>Registrations\<close> (\<open>registrations/\<close>): kinds, auth specifications and validators; the database and its invariant
    \<open>db_ok\<close>; the registry repository and the catalog.  A change of destination drops every grant and binding for it.
  \<^item> \<open>Agents\<close>, \<open>Bootstrap\<close>, \<open>SecretStore\<close>, \<open>AuditLog\<close> (\<open>repo/\<close>, \<open>operational_log_sink.rs\<close>): the repositories, each with a step relation.  One winner among
    concurrent rotations, single use of bootstrap tokens, permanence of revocation, survival of referenced secrets,
    bounds of the log queue.
  \<^item> \<open>AuditSink\<close>, \<open>Config\<close>, \<open>Secrets\<close> (\<open>audit_sink.rs\<close>, \<open>config.rs\<close>, \<open>deprecation.rs\<close>, \<open>secret/\<close>): the JSONL mirror with its calendar, the configuration with
    environment expansion, secret backends and the 1Password resolver.
  \<^item> \<open>OAuth\<close>, \<open>OAuthRefresh\<close>, \<open>OAuthAdmin\<close> (\<open>oauth/\<close>): sealed sessions, token refresh inline and in the background, the operator endpoints.
    A refresh stores exactly what the provider returned; a failed one is never retried; a bootstrap is all or nothing.
  \<^item> \<open>Identity\<close> (\<open>auth.rs\<close>, \<open>auth_v2/\<close>, \<open>mtls/\<close>): bearer and certificate authentication, the middleware, the locale \<open>agent_authenticator\<close> with an
    interpretation for each.
  \<^item> \<open>HttpService\<close>, \<open>CodexBody\<close>, \<open>ResponseControls\<close>, \<open>ClientPool\<close>: service descriptions, request rewriting, response limits, the client cache.
  \<^item> \<open>Admission\<close>, \<open>Proxy\<close>, \<open>ProxyPhases\<close>, \<open>ProxySafety\<close> (\<open>registrations/admission.rs\<close>, \<open>legacy_admission.rs\<close>, \<open>proxy.rs\<close>, \<open>proxy/\<close>): who may use what; the handler as a
    composition of phases; what each phase keeps; which requests leave, to which address, with which credential, and
    that each is recorded.
  \<^item> \<open>RegistryApi\<close>, \<open>AdminService\<close>, \<open>AdminApi\<close> (\<open>registrations/api.rs\<close>, \<open>admin/\<close>): the registry endpoints with activation of the catalog, the admin
    service, the routes with their middleware.  Operators only where an operator is needed, agents only on themselves,
    what is audited, and that stored credentials read back.
  \<^item> \<open>SeedLoader\<close>, \<open>BindingMigration\<close> (\<open>registrations/seed_loader.rs\<close>, \<open>registrations/legacy_bootstrap.rs\<close>, \<open>binding_migration/\<close>): the imports at start-up, which keep operator rows, and the migration,
    which adds exactly what was selected and earned.
  \<^item> \<open>AgentApi\<close> (\<open>app.rs\<close>, \<open>skill.rs\<close>): the agent listener end to end.
  \<^item> \<open>Shutdown\<close>, \<open>Daemon\<close>, \<open>DaemonRun\<close> (\<open>shutdown.rs\<close>, \<open>daemon.rs\<close>): no lost wake-up; start-up, sweepers and exit; the running process as a step relation,
    with the contract of its tasks as the locales \<open>db_task\<close> and \<open>quiet_task\<close>.
  \<^item> This theory: the invariant of the running process, and that revocation through the admin interface is final for it.

  \<^bold>\<open>Bounds and termination.\<close>  Every definition is total.  The expansion of environment variables in the configuration text and
  in a legacy secret string may run for ever in the code; both are \<open>partial_function\<close>s into \<open>option\<close>, with lemmas that they
  return when no value contains a dollar sign, and start-up is \<open>None\<close> when the second does not return.  All other loops are recursion on a
  list, or \<open>function\<close> with a measure; there is no fuel.
  Schedules of the shutdown coordinator are infinite sequences, and its liveness is stated for the fair ones.  A
  property that is stated with \<open>db_ok\<close> holds for every state the daemon reaches, because \<open>db_ok\<close> is part of the invariant below.

  \<^bold>\<open>Not modelled.\<close>  The sockets, TLS and accept loops (\<open>agent_listener.rs\<close>, \<open>admin/https.rs\<close>, \<open>admin/uds_client.rs\<close>, the binding in
  \<open>admin/uds.rs\<close> and \<open>admin/bootstrap_listener.rs\<close>), which are I/O around the routers; axum's matching of paths, whose outcome is a parameter; the command
  line client (\<open>cli/\<close>), which formats requests to the admin routes; \<open>main.rs\<close>, \<open>telemetry.rs\<close> and \<open>migrations.rs\<close>, which read arguments, set up logging and let
  sqlx run the SQL files.  Log lines written with \<open>tracing\<close> have no effect in the model.  A request is one step of the running
  daemon, so the properties of runs speak of calls that begin after the call they follow.
\<close>

section \<open>The running daemon\<close>



section \<open>Witnesses\<close>


definition demo_operator_uds :: uds_state where
  "demo_operator_uds = demo_uds\<lparr>us_operator_auth := (us_operator_auth demo_uds)\<lparr>oa_records :=
     [\<lparr>or_name = ''alice'', or_public_id = demo_pid, or_token_hash = ''phc'' @ replicate 43 (CHR ''o''), or_scope = None, or_cert_identity = None\<rparr>]\<rparr>\<rparr>"

definition demo_operator_call :: caller where
  "demo_operator_call = \<lparr>ac_authorization = Some (''Bearer lkop_'' @ demo_pid @ ''.'' @ replicate 43 (CHR ''o'')), ac_peer_cert = None\<rparr>"

definition demo_world :: daemon_world where
  "demo_world = \<lparr>wd_uds = demo_operator_uds, wd_https = None, wd_app = demo_state, wd_db = demo_agent_db\<rparr>"

lemma demo_revokes:
  "hr_status (fst (admin_dispatch demo_api_env demo_operator_call (OperatorCall (OqRevokeAgent demo_pid)) demo_operator_uds demo_agent_db)) = 204"
  by code_simp

lemma demo_call_token:
  "authorization_header demo_listener demo_agent_call = Some (''Bearer '' @ (''lk_'' @ demo_pid @ ''.'' @ replicate 43 (CHR ''s'')))"
  by code_simp

lemma demo_token_parse: "parse (ba_decodes demo_bearer) (''lk_'' @ demo_pid @ ''.'' @ replicate 43 (CHR ''s'')) = Inr (NsAgent, demo_pid, replicate 43 (CHR ''s''))"
  by code_simp


end
